(* ===== verification/Prelude.thy ===== *)
theory Prelude
  imports Main "HOL-Library.Word" "HOL-Library.Char_ord" "HOL-Library.List_Lexorder"
    "HOL-Library.Sublist" "HOL-Library.AList" "HOL-Library.Signed_Division"
begin

text \<open>
  Shared vocabulary of the KVLite development: bytes and Go strings, Go errors with their
  \<open>errors.Is\<close> chains, the three outcomes of a Go call (a value, a returned error, a panic), the
  state-passing combinators in which every method body is written, big-endian integers and
  64-bit wrap-around, and the generic lemmas on lists and maps that the components share.

  A Go string and a Go byte slice are both sequences of octets; both are \<open>char list\<close>, whose
  characters are exactly the 256 byte values, and \<open>sort.Strings\<close> is \<open>sort\<close> under the
  lexicographic order of HOL-Library.List_Lexorder.
\<close>

named_theorems op_simps \<open>evaluation of state-passing operations\<close>
named_theorems frame_simps \<open>what an operation leaves unchanged\<close>

type_synonym byte = char
type_synonym bytes = string

section \<open>Errors\<close>

text \<open>
  The sentinel errors of \<open>errors.go\<close>, the unexported sentinels of \<open>engine.go\<close> and
  \<open>redis_storage.go\<close>, and the errors of the \<open>context\<close>, \<open>io\<close> and \<open>io/fs\<close> packages that the code compares
  with or returns.
\<close>

datatype sentinel =
    ErrNotFound | ErrClosed | ErrInvalidArgument | ErrCodecUnavailable
  | ErrDriverUnavailable | ErrRocksDBNotBuilt | ErrDriverNotInstalled | ErrDriverNotLoaded
  | ErrModuleNotInstalled | ErrModuleNoExecutable | ErrModuleManifestInvalid
  | ErrModuleIncompatible | ErrModuleConflict | ErrModuleArtifactMissing | ErrModuleIntegrity
  | ErrDriverNotExposed | ErrBackendMismatch | ErrBackendManifestMissing
  | ErrBackendManifestInvalid | ErrBerkeleyDBNotBuilt
  | ErrAtomicListPushUnsupported | ErrAtomicSetAddUnsupported | ErrAtomicSetRemoveUnsupported
  | ErrAtomicHashDeleteUnsupported | ErrAtomicReplaceUnsupported
  | ErrRedisWrongType | ContextCanceled | ContextDeadlineExceeded | IoEOF | IoUnexpectedEOF
  | IoErrShortWrite | FsErrNotExist | FsErrExist

text \<open>An error value: its \<open>Error()\<close> text and the sentinels that \<open>errors.Is\<close> finds in its chain.\<close>

record goerror =
  err_text :: bytes
  err_chain :: "sentinel list"

definition errors_Is :: "goerror \<Rightarrow> sentinel \<Rightarrow> bool" where
  "errors_Is e s \<longleftrightarrow> s \<in> set (err_chain e)"

definition errorsNew :: "bytes \<Rightarrow> goerror" where
  "errorsNew msg = \<lparr>err_text = msg, err_chain = []\<rparr>"

definition sentinel_text :: "sentinel \<Rightarrow> bytes" where
  "sentinel_text s = (case s of
      ErrNotFound \<Rightarrow> ''kvlite: key not found''
    | ErrClosed \<Rightarrow> ''kvlite: database is closed''
    | ErrInvalidArgument \<Rightarrow> ''kvlite: invalid argument''
    | ErrCodecUnavailable \<Rightarrow> ''kvlite: value codec is unavailable''
    | ErrDriverUnavailable \<Rightarrow> ''kvlite: storage driver is unavailable''
    | ErrRocksDBNotBuilt \<Rightarrow> ''kvlite: storage driver is unavailable: RocksDB support is not built; rebuild with -tags rocksdb''
    | ErrDriverNotInstalled \<Rightarrow> ''kvlite: storage driver is not installed''
    | ErrDriverNotLoaded \<Rightarrow> ''kvlite: storage driver is installed but not loaded''
    | ErrModuleNotInstalled \<Rightarrow> ''kvlite: module is not installed''
    | ErrModuleNoExecutable \<Rightarrow> ''kvlite: module has no standalone executable''
    | ErrModuleManifestInvalid \<Rightarrow> ''kvlite: module manifest is invalid''
    | ErrModuleIncompatible \<Rightarrow> ''kvlite: module is incompatible''
    | ErrModuleConflict \<Rightarrow> ''kvlite: module name conflict''
    | ErrModuleArtifactMissing \<Rightarrow> ''kvlite: module artifact is missing''
    | ErrModuleIntegrity \<Rightarrow> ''kvlite: module artifact integrity check failed''
    | ErrDriverNotExposed \<Rightarrow> ''kvlite: storage driver is not exposed by this server''
    | ErrBackendMismatch \<Rightarrow> ''kvlite: database backend mismatch''
    | ErrBackendManifestMissing \<Rightarrow> ''kvlite: database backend manifest is missing''
    | ErrBackendManifestInvalid \<Rightarrow> ''kvlite: database backend manifest is invalid''
    | ErrBerkeleyDBNotBuilt \<Rightarrow> ''kvlite: storage driver is unavailable: Berkeley DB support is not built; rebuild with -tags berkeleydb and link a licensed Berkeley DB distribution''
    | ErrAtomicListPushUnsupported \<Rightarrow> ''kvlite: engine does not support atomic list push''
    | ErrAtomicSetAddUnsupported \<Rightarrow> ''kvlite: engine does not support atomic set add''
    | ErrAtomicSetRemoveUnsupported \<Rightarrow> ''kvlite: engine does not support atomic set remove''
    | ErrAtomicHashDeleteUnsupported \<Rightarrow> ''kvlite: engine does not support atomic hash delete''
    | ErrAtomicReplaceUnsupported \<Rightarrow> ''kvlite: engine does not support atomic logical replacement''
    | ErrRedisWrongType \<Rightarrow> ''WRONGTYPE Operation against a key holding the wrong kind of value''
    | ContextCanceled \<Rightarrow> ''context canceled''
    | ContextDeadlineExceeded \<Rightarrow> ''context deadline exceeded''
    | IoEOF \<Rightarrow> ''EOF''
    | IoUnexpectedEOF \<Rightarrow> ''unexpected EOF''
    | IoErrShortWrite \<Rightarrow> ''short write''
    | FsErrNotExist \<Rightarrow> ''file does not exist''
    | FsErrExist \<Rightarrow> ''file already exists'')"

text \<open>Two sentinels are themselves built with \<open>%w\<close> from a more general one.\<close>

definition sentinel_chain :: "sentinel \<Rightarrow> sentinel list" where
  [simp]: "sentinel_chain s =
     (if s = ErrRocksDBNotBuilt \<or> s = ErrBerkeleyDBNotBuilt then [s, ErrDriverUnavailable] else [s])"

definition sentinelErr :: "sentinel \<Rightarrow> goerror" where
  "sentinelErr s = \<lparr>err_text = sentinel_text s, err_chain = sentinel_chain s\<rparr>"

text \<open>\<open>fmt.Errorf("%w: rest", s)\<close> and \<open>fmt.Errorf("pre%w", e)\<close>.\<close>

definition errorfIs :: "sentinel \<Rightarrow> bytes \<Rightarrow> goerror" where
  "errorfIs s rest = \<lparr>err_text = sentinel_text s @ '': '' @ rest, err_chain = sentinel_chain s\<rparr>"

definition errorfWrap :: "bytes \<Rightarrow> goerror \<Rightarrow> goerror" where
  "errorfWrap pre e = \<lparr>err_text = pre @ err_text e, err_chain = err_chain e\<rparr>"

text \<open>\<open>fmt.Errorf("%w: mid: %w", s, e)\<close>: \<open>errors.Is\<close> looks into both.\<close>

definition errorfBoth :: "sentinel \<Rightarrow> bytes \<Rightarrow> goerror \<Rightarrow> goerror" where
  "errorfBoth s mid e = \<lparr>err_text = sentinel_text s @ '': '' @ mid @ '': '' @ err_text e,
     err_chain = sentinel_chain s @ err_chain e\<rparr>"

lemma errors_Is_simps [simp]:
  "errors_Is (errorsNew m) s \<longleftrightarrow> False"
  "errors_Is (sentinelErr t) s \<longleftrightarrow> s \<in> set (sentinel_chain t)"
  "errors_Is (errorfIs t m) s \<longleftrightarrow> s \<in> set (sentinel_chain t)"
  "errors_Is (errorfWrap p e) s \<longleftrightarrow> errors_Is e s"
  "errors_Is (errorfBoth t m e) s \<longleftrightarrow> s \<in> set (sentinel_chain t) \<or> errors_Is e s"
  by (auto simp: errors_Is_def errorsNew_def sentinelErr_def errorfIs_def errorfWrap_def errorfBoth_def)

section \<open>Outcomes and state-passing operations\<close>

datatype 'a res = Ok 'a | Err goerror | Panic bytes

type_synonym ('s, 'a) op = "'s \<Rightarrow> 'a res \<times> 's"

definition ret :: "'a \<Rightarrow> ('s, 'a) op" where
  "ret x s = (Ok x, s)"

definition throw :: "goerror \<Rightarrow> ('s, 'a) op" where
  "throw e s = (Err e, s)"

definition panic :: "bytes \<Rightarrow> ('s, 'a) op" where
  "panic m s = (Panic m, s)"

text \<open>\<open>x, err := m(); if err != nil { return err }; f(x)\<close>\<close>

definition bindE :: "('s, 'a) op \<Rightarrow> ('a \<Rightarrow> ('s, 'b) op) \<Rightarrow> ('s, 'b) op" where
  "bindE m f s = (case m s of
      (Ok x, s') \<Rightarrow> f x s'
    | (Err e, s') \<Rightarrow> (Err e, s')
    | (Panic p, s') \<Rightarrow> (Panic p, s'))"

text \<open>The same for pure fallible calls.\<close>

definition bindR :: "'a res \<Rightarrow> ('a \<Rightarrow> 'b res) \<Rightarrow> 'b res" where
  "bindR r f = (case r of Ok x \<Rightarrow> f x | Err e \<Rightarrow> Err e | Panic p \<Rightarrow> Panic p)"

lemma bindR_simps [simp]:
  "bindR (Ok x) f = f x" "bindR (Err e) f = Err e" "bindR (Panic p) f = Panic p"
  by (simp_all add: bindR_def)

lemma bindR_Ok_iff: "bindR r f = Ok y \<longleftrightarrow> (\<exists>x. r = Ok x \<and> f x = Ok y)"
  by (cases r) auto

text \<open>A pure fallible call inside an operation.\<close>

definition liftR :: "'a res \<Rightarrow> ('s, 'a) op" where
  "liftR r s = (r, s)"

text \<open>\<open>if err := m(); err != nil { return fmt.Errorf("pre%w", err) }\<close>\<close>

definition wrapE :: "bytes \<Rightarrow> ('s, 'a) op \<Rightarrow> ('s, 'a) op" where
  "wrapE pre m s = (case m s of
      (Err e, s') \<Rightarrow> (Err (errorfWrap pre e), s')
    | r \<Rightarrow> r)"

text \<open>\<open>_ = m()\<close>: the returned error is dropped, a panic is not.\<close>

definition ignoreE :: "('s, 'a) op \<Rightarrow> ('s, unit) op" where
  "ignoreE m s = (case m s of
      (Panic p, s') \<Rightarrow> (Panic p, s')
    | (_, s') \<Rightarrow> (Ok (), s'))"

text \<open>\<open>x, err := m()\<close> where the code goes on to inspect \<open>err\<close> itself.\<close>

definition tryE :: "('s, 'a) op \<Rightarrow> ('s, goerror + 'a) op" where
  "tryE m s = (case m s of
      (Ok x, s') \<Rightarrow> (Ok (Inr x), s')
    | (Err e, s') \<Rightarrow> (Ok (Inl e), s')
    | (Panic p, s') \<Rightarrow> (Panic p, s'))"

text \<open>\<open>for _, x := range xs { acc, err = f(x, acc); if err != nil { return err } }\<close>\<close>

fun foldE :: "('x \<Rightarrow> 'a \<Rightarrow> ('s, 'a) op) \<Rightarrow> 'x list \<Rightarrow> 'a \<Rightarrow> ('s, 'a) op" where
  "foldE f [] acc = ret acc"
| "foldE f (x # xs) acc = bindE (f x acc) (foldE f xs)"

lemmas op_defs = ret_def throw_def panic_def bindE_def liftR_def wrapE_def ignoreE_def tryE_def

lemma ret_bindE [op_simps]: "bindE (ret x) f = f x"
  by (rule ext) (simp add: op_defs)

lemma throw_bindE [op_simps]: "bindE (throw e) f = throw e"
  by (rule ext) (simp add: op_defs)

lemma bindE_ret [op_simps]: "bindE m ret = m"
  by (rule ext) (simp add: op_defs split: prod.split res.split)

lemma bindE_assoc: "bindE (bindE m f) g = bindE m (\<lambda>x. bindE (f x) g)"
  by (rule ext) (simp add: op_defs split: prod.split res.split)

lemma foldE_append: "foldE f (xs @ ys) acc = bindE (foldE f xs acc) (foldE f ys)"
  by (induction xs arbitrary: acc)
    (auto simp: op_simps bindE_assoc intro!: arg_cong [where f = "bindE _"])

lemma bindE_Ok_iff:
  "bindE m f s = (Ok y, s'') \<longleftrightarrow> (\<exists>x s'. m s = (Ok x, s') \<and> f x s' = (Ok y, s''))"
  by (auto simp: bindE_def split: prod.splits res.splits)

section \<open>Big-endian integers\<close>

text \<open>
  \<open>binary.BigEndian.PutUint\<open>n\<close>\<close> and \<open>binary.BigEndian.Uint\<open>n\<close>\<close>: \<open>char_of\<close> keeps the low eight
  bits, as Go's conversion \<open>byte(v)\<close> does.
\<close>

fun be_put :: "nat \<Rightarrow> nat \<Rightarrow> bytes" where
  "be_put 0 v = []"
| "be_put (Suc n) v = be_put n (v div 256) @ [char_of v]"

definition be_get :: "bytes \<Rightarrow> nat" where
  "be_get = foldl (\<lambda>a c. a * 256 + of_char c) 0"

definition PutUint16 :: "16 word \<Rightarrow> bytes" where
  "PutUint16 w = be_put 2 (unat w)"

definition PutUint32 :: "32 word \<Rightarrow> bytes" where
  "PutUint32 w = be_put 4 (unat w)"

definition PutUint64 :: "64 word \<Rightarrow> bytes" where
  "PutUint64 w = be_put 8 (unat w)"

definition Uint16 :: "bytes \<Rightarrow> 16 word" where
  "Uint16 bs = of_nat (be_get (take 2 bs))"

definition Uint32 :: "bytes \<Rightarrow> 32 word" where
  "Uint32 bs = of_nat (be_get (take 4 bs))"

definition Uint64 :: "bytes \<Rightarrow> 64 word" where
  "Uint64 bs = of_nat (be_get (take 8 bs))"

lemma be_put_numeral [simp]:
  "be_put (numeral k) v = be_put (pred_numeral k) (v div 256) @ [char_of v]"
  by (subst numeral_eq_Suc) (simp only: be_put.simps)

lemma length_be_put [simp]: "length (be_put n v) = n"
  by (induction n arbitrary: v) auto

lemma be_get_Nil [simp]: "be_get [] = 0"
  by (simp add: be_get_def)

lemma be_get_snoc [simp]: "be_get (xs @ [c]) = be_get xs * 256 + of_char c"
  by (simp add: be_get_def)

lemma be_get_be_put [simp]: "be_get (be_put n v) = v mod 256 ^ n"
proof (induction n arbitrary: v)
  case 0
  then show ?case by simp
next
  case (Suc n)
  have "v mod (256 * 256 ^ n) = 256 * (v div 256 mod 256 ^ n) + v mod 256"
    by (rule mod_mult2_eq)
  with Suc show ?case by simp
qed

lemma be_put_be_get: "be_put (length xs) (be_get xs) = xs"
proof (induction xs rule: rev_induct)
  case Nil
  show ?case by simp
next
  case (snoc c xs)
  have high: "(be_get xs * 256 + of_char c) div 256 = be_get xs"
    using of_char_mod_256 [of c, where 'a = nat] by simp
  have low: "char_of (be_get xs * 256 + of_char c) = c"
    by (metis char_of_mod_256 char_of_char mod_mult_self3)
  show ?case using snoc by (simp add: high low)
qed

lemma be_get_less: "be_get xs < 256 ^ length xs"
proof (induction xs rule: rev_induct)
  case (snoc c xs)
  have "of_char c < (256::nat)" using of_char_mod_256 [of c, where 'a = nat]
    by (metis mod_less_divisor zero_less_numeral)
  then have "be_get (xs @ [c]) < (be_get xs + 1) * 256" by simp
  also have "\<dots> \<le> 256 ^ length xs * 256"
    using snoc by (intro mult_le_mono1) simp
  finally show ?case by simp
qed simp

lemma length_PutUint [simp]:
  "length (PutUint16 a) = 2" "length (PutUint32 b) = 4" "length (PutUint64 c) = 8"
  by (simp_all only: PutUint16_def PutUint32_def PutUint64_def length_be_put)

lemma of_nat_be_get_be_put:
  "of_nat (be_get (be_put n (unat (w :: 'a::len word)))) = w" if "256 ^ n = (2::nat) ^ LENGTH('a)"
proof -
  have "unat w < 256 ^ n" using that by (simp add: unsigned_less)
  then show ?thesis by simp
qed

lemma Uint_PutUint [simp]:
  "Uint16 (PutUint16 a @ r) = a" "Uint32 (PutUint32 b @ r) = b" "Uint64 (PutUint64 c @ r) = c"
  unfolding Uint16_def Uint32_def Uint64_def PutUint16_def PutUint32_def PutUint64_def
  by (simp_all del: be_get_be_put be_put_numeral add: of_nat_be_get_be_put)

lemma Uint_PutUint_id [simp]:
  "Uint16 (PutUint16 a) = a" "Uint32 (PutUint32 b) = b" "Uint64 (PutUint64 c) = c"
  using Uint_PutUint [where r = "[]"] by simp_all

lemma PutUint32_Uint32: "length bs = 4 \<Longrightarrow> PutUint32 (Uint32 bs) = bs"
proof -
  assume len: "length bs = 4"
  then have "unat (of_nat (be_get bs) :: 32 word) = be_get bs"
    using be_get_less [of bs] by (simp add: unat_of_nat)
  with len show ?thesis
    using be_put_be_get [of bs] by (simp add: PutUint32_def Uint32_def del: be_put_numeral)
qed

lemma PutUint32_inject [simp]: "PutUint32 a = PutUint32 b \<longleftrightarrow> a = b"
  by (metis Uint_PutUint_id(2))

section \<open>Signed 64-bit integers\<close>

text \<open>
  \<open>int64\<close> (and \<open>int\<close> on the 64-bit targets KVLite ships for) is a mathematical integer with the
  wrap-around written out: \<open>wrap64\<close> is what an overflowing operation or conversion leaves.
\<close>

definition maxInt64 :: int where "maxInt64 = 9223372036854775807"
definition minInt64 :: int where "minInt64 = - 9223372036854775808"

definition wrap64 :: "int \<Rightarrow> int" where
  "wrap64 x = (x + 9223372036854775808) mod 18446744073709551616 - 9223372036854775808"

definition isInt64 :: "int \<Rightarrow> bool" where
  "isInt64 x \<longleftrightarrow> minInt64 \<le> x \<and> x \<le> maxInt64"

lemmas int64_defs = maxInt64_def minInt64_def isInt64_def

lemma isInt64_wrap64 [simp]: "isInt64 (wrap64 x)"
  by (simp add: wrap64_def int64_defs)

lemma wrap64_id [simp]: "isInt64 x \<Longrightarrow> wrap64 x = x"
  by (simp add: wrap64_def int64_defs)

text \<open>\<open>uint64(x)\<close> and \<open>int64(w)\<close>\<close>

definition uint64 :: "int \<Rightarrow> 64 word" where "uint64 x = word_of_int x"
definition int64 :: "64 word \<Rightarrow> int" where "int64 w = sint w"

lemma isInt64_int64 [simp]: "isInt64 (int64 w)"
  using sint_ge [of w] sint_lt [of w] by (simp add: int64_def int64_defs)

lemma int64_uint64 [simp]: "isInt64 x \<Longrightarrow> int64 (uint64 x) = x"
  by (simp add: int64_def uint64_def int64_defs signed_of_int signed_take_bit_int_eq_self)

section \<open>Time\<close>

text \<open>
  An instant is a number of nanoseconds since the Unix epoch, a \<open>time.Duration\<close> an \<open>int64\<close> number
  of nanoseconds. The clock \<open>cfg.now\<close> is the sequence of readings it will give: each call consumes
  one, so two calls in one operation may disagree. A frozen clock is a constant sequence.
\<close>

type_synonym time = int
type_synonym duration = int
type_synonym clock = "nat \<Rightarrow> time"

definition UnixNano :: "time \<Rightarrow> int" where "UnixNano t = wrap64 t"
definition timeAdd :: "time \<Rightarrow> duration \<Rightarrow> time" where "timeAdd t d = t + d"
definition timeUnix0 :: "int \<Rightarrow> time" where "timeUnix0 ns = ns"

text \<open>\<open>Time.Sub\<close> saturates.\<close>

definition timeSub :: "time \<Rightarrow> time \<Rightarrow> duration" where
  "timeSub t u = max minInt64 (min maxInt64 (t - u))"

definition nanosPerSecond :: int where "nanosPerSecond = 1000000000"
definition nanosPerMillisecond :: int where "nanosPerMillisecond = 1000000"

section \<open>Lists and maps\<close>

lemma map_of_AList_update [simp]: "map_of (AList.update k v al) = (map_of al)(k \<mapsto> v)"
  by (rule update_conv')

lemma map_of_AList_delete [simp]: "map_of (AList.delete k al) = (map_of al)(k := None)"
  by (rule delete_conv')

lemma prefix_append_take: "prefix p k \<Longrightarrow> p @ drop (length p) k = k"
  by (auto simp: prefix_def)

lemma set_map_filter_iff: "y \<in> set (List.map_filter g xs) \<longleftrightarrow> (\<exists>x \<in> set xs. g x = Some y)"
  by (induction xs) (auto simp: map_filter_simps split: option.splits)

lemma option_ext: "(\<And>v. x = Some v \<longleftrightarrow> y = Some v) \<Longrightarrow> x = y"
  by (cases x; cases y) auto

end
