(* ===== verification/Keys.thy ===== *)
theory Keys
  imports Prelude
begin

text \<open>
  The storage-key layout of \<open>keys.go\<close>: one leading kind byte, and for hashes and sets a
  four-byte big-endian length in front of the namespace, so that the member that follows can hold
  any bytes. The lemmas show that the layout is collision-free and that
  \<open>logicalKeyFromStorage\<close> recovers exactly the logical key a record belongs to.
\<close>

section \<open>Definitions\<close>

definition kindValue :: byte where "kindValue = CHR 0x01"
definition kindHash :: byte where "kindHash = CHR 0x02"
definition kindSet :: byte where "kindSet = CHR 0x03"
definition kindList :: byte where "kindList = CHR 0x04"
definition kindCollectionTTL :: byte where "kindCollectionTTL = CHR 0x05"

lemmas kind_defs = kindValue_def kindHash_def kindSet_def kindList_def kindCollectionTTL_def

definition valueKey :: "bytes \<Rightarrow> bytes" where
  "valueKey key = kindValue # key"

definition namespacePrefix :: "byte \<Rightarrow> bytes \<Rightarrow> bytes" where
  "namespacePrefix kind namespace =
     kind # PutUint32 (of_nat (length namespace)) @ namespace"

definition namespacedKey :: "byte \<Rightarrow> bytes \<Rightarrow> bytes \<Rightarrow> bytes" where
  "namespacedKey kind namespace member = namespacePrefix kind namespace @ member"

definition listKey :: "bytes \<Rightarrow> bytes" where
  "listKey name = kindList # name"

definition collectionTTLKey :: "bytes \<Rightarrow> bytes" where
  "collectionTTLKey key = kindCollectionTTL # key"

definition logicalKeyFromStorage :: "bytes \<Rightarrow> bytes option" where
  "logicalKeyFromStorage storageKey = (case storageKey of
      [] \<Rightarrow> None
    | kind # rest \<Rightarrow>
        if kind = kindValue \<or> kind = kindList \<or> kind = kindCollectionTTL then Some rest
        else if kind = kindHash \<or> kind = kindSet then
          (if length storageKey < 5 then None
           else let len = unat (Uint32 (take 4 (drop 1 storageKey))) in
             if length storageKey < 5 + len then None
             else Some (take len (drop 5 storageKey)))
        else None)"

text \<open>A namespace whose length fits the four-byte length field.\<close>

definition lenOk :: "bytes \<Rightarrow> bool" where
  "lenOk namespace \<longleftrightarrow> length namespace < 2 ^ 32"

section \<open>The layout is collision-free\<close>

lemma kind_distinct [simp]:
  "kindValue \<noteq> kindHash" "kindValue \<noteq> kindSet" "kindValue \<noteq> kindList"
  "kindValue \<noteq> kindCollectionTTL" "kindHash \<noteq> kindSet" "kindHash \<noteq> kindList"
  "kindHash \<noteq> kindCollectionTTL" "kindSet \<noteq> kindList" "kindSet \<noteq> kindCollectionTTL"
  "kindList \<noteq> kindCollectionTTL"
  "kindHash \<noteq> kindValue" "kindSet \<noteq> kindValue" "kindList \<noteq> kindValue"
  "kindCollectionTTL \<noteq> kindValue" "kindSet \<noteq> kindHash" "kindList \<noteq> kindHash"
  "kindCollectionTTL \<noteq> kindHash" "kindList \<noteq> kindSet" "kindCollectionTTL \<noteq> kindSet"
  "kindCollectionTTL \<noteq> kindList"
  by (simp_all add: kind_defs)

lemma lenOk_unat [simp]: "lenOk ns \<Longrightarrow> unat (of_nat (length ns) :: 32 word) = length ns"
  by (simp add: lenOk_def unat_of_nat)

lemma length_namespacePrefix [simp]: "length (namespacePrefix k ns) = 5 + length ns"
  by (simp add: namespacePrefix_def)

lemma prefix_namespacePrefix_iff:
  assumes "lenOk ns" "lenOk ns'"
  shows "prefix (namespacePrefix k ns) (namespacedKey k' ns' m) \<longleftrightarrow> k = k' \<and> ns = ns'"
proof
  assume "prefix (namespacePrefix k ns) (namespacedKey k' ns' m)"
  then obtain r where eq: "k' # PutUint32 (of_nat (length ns')) @ ns' @ m
      = k # PutUint32 (of_nat (length ns)) @ ns @ r"
    by (auto simp: prefix_def namespacedKey_def namespacePrefix_def)
  then have k: "k = k'"
    and "PutUint32 (of_nat (length ns')) = PutUint32 (of_nat (length ns))"
    and rest: "ns' @ m = ns @ r"
    by (simp_all add: append_eq_append_conv)
  then have "unat (of_nat (length ns') :: 32 word) = unat (of_nat (length ns) :: 32 word)"
    by simp
  with assms rest k show "k = k' \<and> ns = ns'"
    by (simp add: append_eq_append_conv)
qed (auto simp: namespacedKey_def prefix_def)

lemma namespacedKey_inject:
  assumes "lenOk ns" "lenOk ns'"
  shows "namespacedKey k ns m = namespacedKey k' ns' m' \<longleftrightarrow> k = k' \<and> ns = ns' \<and> m = m'"
proof
  assume eq: "namespacedKey k ns m = namespacedKey k' ns' m'"
  then have "prefix (namespacePrefix k ns) (namespacedKey k' ns' m')"
    by (metis namespacedKey_def prefixI)
  then have "k = k'" "ns = ns'"
    by (simp_all add: prefix_namespacePrefix_iff [OF assms])
  with eq show "k = k' \<and> ns = ns' \<and> m = m'"
    by (simp add: namespacedKey_def)
qed simp

lemma key_inject [simp]:
  "valueKey a = valueKey b \<longleftrightarrow> a = b"
  "listKey a = listKey b \<longleftrightarrow> a = b"
  "collectionTTLKey a = collectionTTLKey b \<longleftrightarrow> a = b"
  "namespacedKey k ns m = namespacedKey k ns m' \<longleftrightarrow> m = m'"
  by (simp_all add: valueKey_def listKey_def collectionTTLKey_def namespacedKey_def)

lemma key_kind_distinct [simp]:
  "valueKey a \<noteq> listKey b" "valueKey a \<noteq> collectionTTLKey b" "listKey a \<noteq> collectionTTLKey b"
  "listKey a \<noteq> valueKey b" "collectionTTLKey a \<noteq> valueKey b" "collectionTTLKey a \<noteq> listKey b"
  by (simp_all add: valueKey_def listKey_def collectionTTLKey_def)

lemma prefix_namespace_plain [simp]:
  "k \<noteq> kindValue \<Longrightarrow> \<not> prefix (namespacePrefix k ns) (valueKey a)"
  "k \<noteq> kindList \<Longrightarrow> \<not> prefix (namespacePrefix k ns) (listKey a)"
  "k \<noteq> kindCollectionTTL \<Longrightarrow> \<not> prefix (namespacePrefix k ns) (collectionTTLKey a)"
  by (simp_all add: namespacePrefix_def valueKey_def listKey_def collectionTTLKey_def)

lemma namespacedKey_plain_distinct [simp]:
  "k \<noteq> kindValue \<Longrightarrow> namespacedKey k ns m \<noteq> valueKey a"
  "k \<noteq> kindList \<Longrightarrow> namespacedKey k ns m \<noteq> listKey a"
  "k \<noteq> kindCollectionTTL \<Longrightarrow> namespacedKey k ns m \<noteq> collectionTTLKey a"
  "k \<noteq> kindValue \<Longrightarrow> valueKey a \<noteq> namespacedKey k ns m"
  "k \<noteq> kindList \<Longrightarrow> listKey a \<noteq> namespacedKey k ns m"
  "k \<noteq> kindCollectionTTL \<Longrightarrow> collectionTTLKey a \<noteq> namespacedKey k ns m"
  by (auto simp: namespacedKey_def namespacePrefix_def valueKey_def listKey_def
      collectionTTLKey_def)

lemma prefix_namespace_kind [simp]:
  "prefix (namespacePrefix k ns) (namespacedKey k' ns' m) \<Longrightarrow> k = k'"
  by (auto simp: namespacedKey_def namespacePrefix_def)

lemma prefix_namespacedKey [simp]: "prefix (namespacePrefix k ns) (namespacedKey k ns m)"
  by (simp add: namespacedKey_def)

lemma drop_namespacedKey [simp]:
  "drop (length (namespacePrefix k ns)) (namespacedKey k ns m) = m"
  by (simp add: namespacedKey_def del: length_namespacePrefix)

lemma drop_namespacedKey_5 [simp]: "drop (5 + length ns) (namespacedKey k ns m) = m"
  by (simp add: namespacedKey_def)

lemma prefix_namespacePrefixE:
  assumes "prefix (namespacePrefix k ns) sk"
  obtains m where "sk = namespacedKey k ns m"
  using assms by (auto simp: prefix_def namespacedKey_def)

section \<open>Recovering the logical key\<close>

lemma logicalKey_plain [simp]:
  "logicalKeyFromStorage (valueKey key) = Some key"
  "logicalKeyFromStorage (listKey key) = Some key"
  "logicalKeyFromStorage (collectionTTLKey key) = Some key"
  by (simp_all add: logicalKeyFromStorage_def valueKey_def listKey_def collectionTTLKey_def)

lemma logicalKey_namespaced:
  assumes "lenOk ns" and "kind = kindHash \<or> kind = kindSet"
  shows "logicalKeyFromStorage (namespacedKey kind ns m) = Some ns"
  using assms by (auto simp: logicalKeyFromStorage_def namespacedKey_def namespacePrefix_def)

text \<open>The records that make up one logical key.\<close>

definition recordOf :: "bytes \<Rightarrow> bytes \<Rightarrow> bool" where
  "recordOf key sk \<longleftrightarrow>
     sk = valueKey key \<or> sk = listKey key \<or> sk = collectionTTLKey key
     \<or> prefix (namespacePrefix kindHash key) sk \<or> prefix (namespacePrefix kindSet key) sk"

lemma namespace_decode:
  assumes len: "5 \<le> length (kind # rest)"
    and room: "5 + unat (Uint32 (take 4 rest)) \<le> length (kind # rest)"
  shows "prefix (namespacePrefix kind (take (unat (Uint32 (take 4 rest))) (drop 4 rest)))
           (kind # rest)"
proof -
  let ?n = "unat (Uint32 (take 4 rest))"
  let ?ns = "take ?n (drop 4 rest)"
  have "length ?ns = ?n" using len room by simp
  then have "PutUint32 (of_nat (length ?ns)) = take 4 rest"
    using len by (simp add: PutUint32_Uint32)
  then have "namespacePrefix kind ?ns @ drop ?n (drop 4 rest)
      = kind # take 4 rest @ ?ns @ drop ?n (drop 4 rest)"
    by (simp only: namespacePrefix_def append.assoc append_Cons)
  also have "\<dots> = kind # rest"
    by (simp only: append_take_drop_id)
  finally have "namespacePrefix kind ?ns @ drop ?n (drop 4 rest) = kind # rest" .
  then show ?thesis by (metis prefixI)
qed

lemma logicalKey_recordOf: "logicalKeyFromStorage sk = Some key \<Longrightarrow> recordOf key sk"
proof (cases sk)
  case (Cons kind rest)
  assume some: "logicalKeyFromStorage sk = Some key"
  show ?thesis
  proof (cases "kind = kindHash \<or> kind = kindSet")
    case True
    with some Cons have "5 \<le> length sk" "5 + unat (Uint32 (take 4 rest)) \<le> length sk"
      and "key = take (unat (Uint32 (take 4 rest))) (drop 4 rest)"
      by (auto simp: logicalKeyFromStorage_def Let_def split: if_splits)
    with namespace_decode [of kind rest] True Cons show ?thesis
      by (auto simp: recordOf_def)
  next
    case False
    with some Cons show ?thesis
      by (auto simp: logicalKeyFromStorage_def recordOf_def valueKey_def listKey_def
          collectionTTLKey_def split: if_splits)
  qed
qed (simp add: logicalKeyFromStorage_def)

text \<open>
  C4. For every logical key whose length fits the length field, the storage keys that
  \<open>logicalKeyFromStorage\<close> maps to it are exactly the records that can make it up: its scalar,
  list and TTL keys and everything under its hash and set prefixes. In particular a sibling such
  as \<open>user:10\<close> never falls under \<open>user:1\<close>.
\<close>

theorem logicalKey_iff_recordOf:
  assumes "lenOk key"
  shows "logicalKeyFromStorage sk = Some key \<longleftrightarrow>
     sk = valueKey key \<or> sk = listKey key \<or> sk = collectionTTLKey key
     \<or> prefix (namespacePrefix kindHash key) sk \<or> prefix (namespacePrefix kindSet key) sk"
proof
  assume "logicalKeyFromStorage sk = Some key"
  then show "sk = valueKey key \<or> sk = listKey key \<or> sk = collectionTTLKey key
     \<or> prefix (namespacePrefix kindHash key) sk \<or> prefix (namespacePrefix kindSet key) sk"
    using logicalKey_recordOf by (simp add: recordOf_def)
qed (auto simp: logicalKey_namespaced [OF assms] elim!: prefix_namespacePrefixE)

theorem logicalKey_iff_recordOf_witness:
  "logicalKeyFromStorage (namespacedKey kindHash ''user:1'' ''name'') = Some ''user:1''"
  using logicalKey_iff_recordOf [of "''user:1''" "namespacedKey kindHash ''user:1'' ''name''"]
  by (simp add: lenOk_def)

end
