(* ===== verification/Engine.thy ===== *)
theory Engine
  imports Prelude
begin

text \<open>
  The storage contract of \<open>engine.go\<close>. A Go interface value is a method table over some
  implementation state; \<open>Engine\<close> is that table, over the state type \<open>'s\<close>, and the owner-side
  operations that the core finds by type assertion are its optional fields. \<open>guardedEngine\<close> is the
  wrapper every DB handle holds.

  The locale \<open>engine_contract\<close> is what the core relies on from a driver: reads answer from a
  finite map, writes and deletes update it, a scan visits each record under the prefix once.
  \<open>local_engine\<close> adds that a driver brings no owner-side operations of its own.

  A context is the error \<open>ctx.Err()\<close> reports throughout the call, \<open>None\<close> for a live context.
\<close>

section \<open>The interface\<close>

type_synonym ctx = "goerror option"

definition Background :: ctx where
  [simp]: "Background = None"

text \<open>
  \<open>ScanPrefix\<close> hands records to a callback until the callback or the engine fails. Its field gives
  the records an engine would visit and the error it ends with; \<open>scanRun\<close> is the interplay with
  the callback, whose captured variables are the accumulator. It returns what the callback has
  accumulated and the error the scan ends with.
\<close>

record 's Engine =
  eng_Get :: "ctx \<Rightarrow> bytes \<Rightarrow> ('s, bytes option) op"
  eng_Put :: "ctx \<Rightarrow> bytes \<Rightarrow> bytes \<Rightarrow> ('s, unit) op"
  eng_Delete :: "ctx \<Rightarrow> bytes \<Rightarrow> ('s, unit) op"
  eng_ScanPrefix :: "ctx \<Rightarrow> bytes \<Rightarrow> 's \<Rightarrow> ((bytes \<times> bytes) list \<times> goerror option) \<times> 's"
  eng_Close :: "('s, unit) op"
  eng_PushList :: "(ctx \<Rightarrow> bytes \<Rightarrow> bytes list \<Rightarrow> bool \<Rightarrow> ('s, int \<times> goerror option) op) option"
  eng_AddSet :: "(ctx \<Rightarrow> bytes \<Rightarrow> bytes list \<Rightarrow> ('s, int \<times> goerror option) op) option"
  eng_RemoveSet :: "(ctx \<Rightarrow> bytes \<Rightarrow> bytes list \<Rightarrow> ('s, int \<times> goerror option) op) option"
  eng_DeleteHashFields :: "(ctx \<Rightarrow> bytes \<Rightarrow> bytes list \<Rightarrow> ('s, int \<times> goerror option) op) option"
  eng_ReplaceLogicalValue :: "(ctx \<Rightarrow> bytes \<Rightarrow> bytes \<Rightarrow> ('s, unit) op) option"

primrec scanRun ::
  "('a \<Rightarrow> bytes \<Rightarrow> bytes \<Rightarrow> ('d, 'a) op) \<Rightarrow>
   (bytes \<times> bytes) list \<Rightarrow> goerror option \<Rightarrow> 'a \<Rightarrow> ('d, 'a \<times> goerror option) op" where
  "scanRun callback [] final acc d = (Ok (acc, final), d)"
| "scanRun callback (item # items) final acc d =
     (case callback acc (fst item) (snd item) d of
        (Ok acc', d') \<Rightarrow> scanRun callback items final acc' d'
      | (Err e, d') \<Rightarrow> (Ok (acc, Some e), d')
      | (Panic p, d') \<Rightarrow> (Panic p, d'))"

section \<open>The guarded engine\<close>

record 's guardedEngine =
  g_inner :: "'s Engine"
  g_state :: 's
  g_closed :: bool

text \<open>A call on \<open>engine.inner\<close>.\<close>

definition onInner :: "('s, 'a) op \<Rightarrow> ('s guardedEngine, 'a) op" where
  "onInner m g = (case m (g_state g) of (r, s') \<Rightarrow> (r, g\<lparr>g_state := s'\<rparr>))"

definition guarded_Get :: "ctx \<Rightarrow> bytes \<Rightarrow> ('s guardedEngine, bytes option) op" where
  "guarded_Get ctx key g =
     (if g_closed g then (Err (sentinelErr ErrClosed), g)
      else onInner (eng_Get (g_inner g) ctx key) g)"

definition guarded_Put :: "ctx \<Rightarrow> bytes \<Rightarrow> bytes \<Rightarrow> ('s guardedEngine, unit) op" where
  "guarded_Put ctx key value g =
     (if g_closed g then (Err (sentinelErr ErrClosed), g)
      else onInner (eng_Put (g_inner g) ctx key value) g)"

definition guarded_Delete :: "ctx \<Rightarrow> bytes \<Rightarrow> ('s guardedEngine, unit) op" where
  "guarded_Delete ctx key g =
     (if g_closed g then (Err (sentinelErr ErrClosed), g)
      else onInner (eng_Delete (g_inner g) ctx key) g)"

definition guarded_ScanPrefix ::
  "ctx \<Rightarrow> bytes \<Rightarrow> 's guardedEngine \<Rightarrow> ((bytes \<times> bytes) list \<times> goerror option) \<times> 's guardedEngine" where
  "guarded_ScanPrefix ctx prfx g =
     (if g_closed g then (([], Some (sentinelErr ErrClosed)), g)
      else (case eng_ScanPrefix (g_inner g) ctx prfx (g_state g) of
          (r, s') \<Rightarrow> (r, g\<lparr>g_state := s'\<rparr>)))"

definition guarded_PushList ::
  "ctx \<Rightarrow> bytes \<Rightarrow> bytes list \<Rightarrow> bool \<Rightarrow> ('s guardedEngine, int \<times> goerror option) op" where
  "guarded_PushList ctx key items left g =
     (if g_closed g then (Ok (0, Some (sentinelErr ErrClosed)), g)
      else (case eng_PushList (g_inner g) of
          None \<Rightarrow> (Ok (0, Some (sentinelErr ErrAtomicListPushUnsupported)), g)
        | Some remote \<Rightarrow> onInner (remote ctx key items left) g))"

definition guarded_AddSet ::
  "ctx \<Rightarrow> bytes \<Rightarrow> bytes list \<Rightarrow> ('s guardedEngine, int \<times> goerror option) op" where
  "guarded_AddSet ctx name members g =
     (if g_closed g then (Ok (0, Some (sentinelErr ErrClosed)), g)
      else (case eng_AddSet (g_inner g) of
          None \<Rightarrow> (Ok (0, Some (sentinelErr ErrAtomicSetAddUnsupported)), g)
        | Some remote \<Rightarrow> onInner (remote ctx name members) g))"

definition guarded_RemoveSet ::
  "ctx \<Rightarrow> bytes \<Rightarrow> bytes list \<Rightarrow> ('s guardedEngine, int \<times> goerror option) op" where
  "guarded_RemoveSet ctx name members g =
     (if g_closed g then (Ok (0, Some (sentinelErr ErrClosed)), g)
      else (case eng_RemoveSet (g_inner g) of
          None \<Rightarrow> (Ok (0, Some (sentinelErr ErrAtomicSetRemoveUnsupported)), g)
        | Some remote \<Rightarrow> onInner (remote ctx name members) g))"

definition guarded_DeleteHashFields ::
  "ctx \<Rightarrow> bytes \<Rightarrow> bytes list \<Rightarrow> ('s guardedEngine, int \<times> goerror option) op" where
  "guarded_DeleteHashFields ctx name flds g =
     (if g_closed g then (Ok (0, Some (sentinelErr ErrClosed)), g)
      else (case eng_DeleteHashFields (g_inner g) of
          None \<Rightarrow> (Ok (0, Some (sentinelErr ErrAtomicHashDeleteUnsupported)), g)
        | Some remote \<Rightarrow> onInner (remote ctx name flds) g))"

definition guarded_ReplaceLogicalValue ::
  "ctx \<Rightarrow> bytes \<Rightarrow> bytes \<Rightarrow> ('s guardedEngine, unit) op" where
  "guarded_ReplaceLogicalValue ctx key encoded g =
     (if g_closed g then (Err (sentinelErr ErrClosed), g)
      else (case eng_ReplaceLogicalValue (g_inner g) of
          None \<Rightarrow> (Err (sentinelErr ErrAtomicReplaceUnsupported), g)
        | Some remote \<Rightarrow> onInner (remote ctx key encoded) g))"

definition guarded_Close :: "('s guardedEngine, unit) op" where
  "guarded_Close g =
     (if g_closed g then (Ok (), g)
      else onInner (eng_Close (g_inner g)) (g\<lparr>g_closed := True\<rparr>))"

text \<open>The guarded engine implements \<open>Engine\<close>, with every owner-side operation present.\<close>

definition guardedMethods :: "'s guardedEngine Engine" where
  "guardedMethods = \<lparr>eng_Get = guarded_Get, eng_Put = guarded_Put, eng_Delete = guarded_Delete,
     eng_ScanPrefix = guarded_ScanPrefix, eng_Close = guarded_Close,
     eng_PushList = Some guarded_PushList, eng_AddSet = Some guarded_AddSet,
     eng_RemoveSet = Some guarded_RemoveSet,
     eng_DeleteHashFields = Some guarded_DeleteHashFields,
     eng_ReplaceLogicalValue = Some guarded_ReplaceLogicalValue\<rparr>"

section \<open>The contract of a driver\<close>

locale engine_contract =
  fixes E :: "'s Engine"
    and ok :: "'s \<Rightarrow> bool"
    and view :: "'s \<Rightarrow> bytes \<Rightarrow> bytes option"
    and put_st :: "bytes \<Rightarrow> bytes \<Rightarrow> 's \<Rightarrow> 's"
    and del_st :: "bytes \<Rightarrow> 's \<Rightarrow> 's"
    and items_st :: "bytes \<Rightarrow> 's \<Rightarrow> (bytes \<times> bytes) list"
  assumes get: "ok s \<Longrightarrow> eng_Get E None k s = (Ok (view s k), s)"
    and put: "ok s \<Longrightarrow> eng_Put E None k v s = (Ok (), put_st k v s)"
    and delete: "ok s \<Longrightarrow> eng_Delete E None k s = (Ok (), del_st k s)"
    and scan: "ok s \<Longrightarrow> eng_ScanPrefix E None p s = ((items_st p s, None), s)"
    and view_put: "ok s \<Longrightarrow> view (put_st k v s) = (view s)(k \<mapsto> v)"
    and view_del: "ok s \<Longrightarrow> view (del_st k s) = (view s)(k := None)"
    and ok_put: "ok s \<Longrightarrow> ok (put_st k v s)"
    and ok_del: "ok s \<Longrightarrow> ok (del_st k s)"
    and items_distinct: "ok s \<Longrightarrow> distinct (map fst (items_st p s))"
    and items_set: "ok s \<Longrightarrow> set (items_st p s) = {(k, v). view s k = Some v \<and> prefix p k}"
begin

lemma items_lookup: "ok s \<Longrightarrow> (k, v) \<in> set (items_st p s) \<longleftrightarrow> view s k = Some v \<and> prefix p k"
  by (simp add: items_set)

lemma finite_view: "ok s \<Longrightarrow> finite (dom (view s))"
proof -
  assume "ok s"
  then have "dom (view s) = fst ` set (items_st [] s)"
    by (auto simp: items_set image_iff)
  then show ?thesis by simp
qed

end

locale local_engine = engine_contract E ok view put_st del_st items_st
  for E :: "'s Engine" and ok view put_st del_st items_st +
  assumes no_PushList: "eng_PushList E = None"
    and no_AddSet: "eng_AddSet E = None"
    and no_RemoveSet: "eng_RemoveSet E = None"
    and no_DeleteHashFields: "eng_DeleteHashFields E = None"
    and no_ReplaceLogicalValue: "eng_ReplaceLogicalValue E = None"

text \<open>The guard keeps the contract of the engine it wraps, as long as it is open.\<close>

context engine_contract
begin

definition guard_ok :: "'s guardedEngine \<Rightarrow> bool" where
  "guard_ok g \<longleftrightarrow> g_inner g = E \<and> \<not> g_closed g \<and> ok (g_state g)"

lemma guard_contract:
  "engine_contract guardedMethods guard_ok (\<lambda>g. view (g_state g))
     (\<lambda>k v g. g\<lparr>g_state := put_st k v (g_state g)\<rparr>)
     (\<lambda>k g. g\<lparr>g_state := del_st k (g_state g)\<rparr>) (\<lambda>p g. items_st p (g_state g))"
  by unfold_locales
    (simp_all add: guardedMethods_def guard_ok_def guarded_Get_def guarded_Put_def
      guarded_Delete_def guarded_ScanPrefix_def onInner_def get put delete scan view_put view_del
      ok_put ok_del items_distinct items_set)

lemmas guard_calls =
  engine_contract.get [OF guard_contract] engine_contract.put [OF guard_contract]
  engine_contract.delete [OF guard_contract] engine_contract.scan [OF guard_contract]

end

section \<open>Closing\<close>

lemma onInner_frame [frame_simps]:
  "g_inner (snd (onInner m g)) = g_inner g" "g_closed (snd (onInner m g)) = g_closed g"
  by (simp_all add: onInner_def split: prod.split)

lemma guarded_Close_idem:
  "guarded_Close (snd (guarded_Close g)) = (Ok (), snd (guarded_Close g))"
  by (simp add: guarded_Close_def frame_simps)

end
