(* ===== verification/Options.thy ===== *)
theory Options
  imports Prelude
begin

text \<open>
  Codecs (\<open>codec.go\<close>) and configuration (\<open>options.go\<close>, \<open>buildConfig\<close> of \<open>db.go\<close>).

  A Go value of type \<open>any\<close> is a byte slice, a byte, or some other value of the abstract type \<open>'v\<close>.
  A decode target is a pointer, described by what it points to: \<open>TPtr\<close> a plain value,
  \<open>TMapPtr\<close> a map whose keys are strings and \<open>TSlicePtr\<close> a slice, both by the zero value of their
  element type; the flag of \<open>TMapPtr\<close> says that the key type is \<open>string\<close> itself and not a defined
  type with underlying type \<open>string\<close>. \<open>encoding/json\<close> works on arbitrary Go types by reflection and is a pair of parameters of
  \<open>JSONCodec\<close>; the text of \<open>%T\<close> is a parameter of \<open>BytesCodec\<close>.
\<close>

section \<open>Codecs\<close>

datatype 'v any = ABytes bytes | AByte byte | AVal 'v

datatype 'v target = TNil | TNilPtr | TPtr "'v any" | TMapPtr bool "'v any" | TSlicePtr "'v any"

record 'v Codec =
  codec_Name :: bytes
  codec_Marshal :: "'v any \<Rightarrow> bytes res"
  codec_Unmarshal :: "bytes \<Rightarrow> 'v target \<Rightarrow> 'v any res"

definition wrapRes :: "bytes \<Rightarrow> 'a res \<Rightarrow> 'a res" where
  "wrapRes pre r = (case r of Err e \<Rightarrow> Err (errorfWrap pre e) | _ \<Rightarrow> r)"

definition JSONCodec_Marshal :: "('v any \<Rightarrow> bytes res) \<Rightarrow> 'v any \<Rightarrow> bytes res" where
  "JSONCodec_Marshal jsonMarshal value = wrapRes ''kvlite: encode json: '' (jsonMarshal value)"

definition JSONCodec_Unmarshal ::
  "(bytes \<Rightarrow> 'v target \<Rightarrow> 'v any res) \<Rightarrow> bytes \<Rightarrow> 'v target \<Rightarrow> 'v any res" where
  "JSONCodec_Unmarshal jsonUnmarshal data target =
     (if target = TNil
      then Err (errorfIs ErrInvalidArgument ''decode target cannot be nil'')
      else wrapRes ''kvlite: decode json: '' (jsonUnmarshal data target))"

definition JSONCodec ::
  "('v any \<Rightarrow> bytes res) \<Rightarrow> (bytes \<Rightarrow> 'v target \<Rightarrow> 'v any res) \<Rightarrow> 'v Codec" where
  "JSONCodec jsonMarshal jsonUnmarshal = \<lparr>codec_Name = ''json'',
     codec_Marshal = JSONCodec_Marshal jsonMarshal,
     codec_Unmarshal = JSONCodec_Unmarshal jsonUnmarshal\<rparr>"

definition bytesCodecName :: bytes where "bytesCodecName = ''bytes''"

definition BytesCodec_Marshal :: "('v any \<Rightarrow> bytes) \<Rightarrow> 'v any \<Rightarrow> bytes res" where
  "BytesCodec_Marshal typeName value = (case value of
      ABytes data \<Rightarrow> Ok data
    | _ \<Rightarrow> Err (errorfIs ErrInvalidArgument
             (''BytesCodec expects []byte, got '' @ typeName value)))"

definition BytesCodec_Unmarshal :: "bytes \<Rightarrow> 'v target \<Rightarrow> 'v any res" where
  "BytesCodec_Unmarshal data target = (case target of
      TPtr (ABytes _) \<Rightarrow> Ok (ABytes data)
    | _ \<Rightarrow> Err (errorfIs ErrInvalidArgument ''BytesCodec target must be *[]byte''))"

definition BytesCodec :: "('v any \<Rightarrow> bytes) \<Rightarrow> 'v Codec" where
  "BytesCodec typeName = \<lparr>codec_Name = bytesCodecName,
     codec_Marshal = BytesCodec_Marshal typeName,
     codec_Unmarshal = BytesCodec_Unmarshal\<rparr>"

section \<open>Configuration\<close>

record 'v config =
  cfg_codec :: "'v Codec"
  cfg_codecs :: "bytes \<Rightarrow> 'v Codec option"
  cfg_driver :: bytes
  cfg_driverExplicit :: bool
  cfg_blockCacheSize :: int
  cfg_writeBufferSize :: int
  cfg_maxWriteBuffers :: int
  cfg_maxBackgroundJobs :: int
  cfg_now :: clock

definition DriverRocksDB :: bytes where "DriverRocksDB = ''rocksdb''"

definition defaultBlockCacheSize :: int where "defaultBlockCacheSize = 64 * 2 ^ 20"
definition defaultWriteBufferSize :: int where "defaultWriteBufferSize = 16 * 2 ^ 20"

text \<open>The clock stands for \<open>time.Now\<close>.\<close>

definition defaultConfig :: "'v Codec \<Rightarrow> clock \<Rightarrow> 'v config" where
  "defaultConfig json clock = \<lparr>
     cfg_codec = json,
     cfg_codecs = [codec_Name json \<mapsto> json],
     cfg_driver = DriverRocksDB,
     cfg_driverExplicit = False,
     cfg_blockCacheSize = defaultBlockCacheSize,
     cfg_writeBufferSize = defaultWriteBufferSize,
     cfg_maxWriteBuffers = 2,
     cfg_maxBackgroundJobs = 2,
     cfg_now = clock\<rparr>"

type_synonym 'v Option = "'v config \<Rightarrow> 'v config res"

text \<open>A nil \<open>Codec\<close> is \<open>None\<close>.\<close>

definition WithCodec :: "'v Codec option \<Rightarrow> 'v Option" where
  "WithCodec c cfg = (case c of
      Some codec \<Rightarrow>
        if codec_Name codec = []
        then Err (errorfIs ErrInvalidArgument ''codec and codec name are required'')
        else Ok (cfg\<lparr>cfg_codec := codec,
                     cfg_codecs := (cfg_codecs cfg)(codec_Name codec \<mapsto> codec)\<rparr>)
    | None \<Rightarrow> Err (errorfIs ErrInvalidArgument ''codec and codec name are required''))"

definition WithRegisteredCodec :: "'v Codec option \<Rightarrow> 'v Option" where
  "WithRegisteredCodec c cfg = (case c of
      Some codec \<Rightarrow>
        if codec_Name codec = []
        then Err (errorfIs ErrInvalidArgument ''codec and codec name are required'')
        else Ok (cfg\<lparr>cfg_codecs := (cfg_codecs cfg)(codec_Name codec \<mapsto> codec)\<rparr>)
    | None \<Rightarrow> Err (errorfIs ErrInvalidArgument ''codec and codec name are required''))"

definition WithMemoryBudget :: "int \<Rightarrow> 'v Option" where
  "WithMemoryBudget n cfg =
     (if n < 24 * 2 ^ 20
      then Err (errorfIs ErrInvalidArgument ''memory budget must be at least 24 MiB'')
      else Ok (cfg\<lparr>cfg_blockCacheSize := n div 2, cfg_writeBufferSize := n div 8,
                   cfg_maxWriteBuffers := 2\<rparr>))"

text \<open>Nil options are skipped; the first failing option ends the loop.\<close>

primrec applyOptions :: "'v Option option list \<Rightarrow> 'v config \<Rightarrow> 'v config res" where
  "applyOptions [] cfg = Ok cfg"
| "applyOptions (opt # opts) cfg = (case opt of
      None \<Rightarrow> applyOptions opts cfg
    | Some f \<Rightarrow> (case f cfg of
          Ok cfg' \<Rightarrow> applyOptions opts cfg'
        | Err e \<Rightarrow> Err e
        | Panic p \<Rightarrow> Panic p))"

definition buildConfig :: "'v Codec \<Rightarrow> clock \<Rightarrow> 'v Option option list \<Rightarrow> 'v config res" where
  "buildConfig json clock options = applyOptions options (defaultConfig json clock)"

section \<open>Options of one write\<close>

record putConfig =
  put_ttl :: duration

type_synonym PutOption = "putConfig \<Rightarrow> putConfig res"

definition TTL :: "duration \<Rightarrow> PutOption" where
  "TTL d cfg =
     (if d \<le> 0 then Err (errorfIs ErrInvalidArgument ''ttl must be positive'')
      else Ok (cfg\<lparr>put_ttl := d\<rparr>))"

primrec applyPutOptions :: "PutOption option list \<Rightarrow> putConfig \<Rightarrow> putConfig res" where
  "applyPutOptions [] cfg = Ok cfg"
| "applyPutOptions (opt # opts) cfg = (case opt of
      None \<Rightarrow> applyPutOptions opts cfg
    | Some f \<Rightarrow> (case f cfg of
          Ok cfg' \<Rightarrow> applyPutOptions opts cfg'
        | Err e \<Rightarrow> Err e
        | Panic p \<Rightarrow> Panic p))"

section \<open>The codec table always holds the codec used for writes\<close>

definition codecRegistered :: "'v config \<Rightarrow> bool" where
  "codecRegistered cfg \<longleftrightarrow> cfg_codecs cfg (codec_Name (cfg_codec cfg)) = Some (cfg_codec cfg)"

text \<open>
  \<open>WithRegisteredCodec\<close> may replace the table entry of the codec already selected for writes
  when the names agree; the table then decodes with another codec than the one that encodes.
\<close>

lemma codecRegistered_default [simp]: "codecRegistered (defaultConfig j c)"
  by (simp add: codecRegistered_def defaultConfig_def)

lemma codecRegistered_WithCodec: "WithCodec c cfg = Ok cfg' \<Longrightarrow> codecRegistered cfg'"
  by (auto simp: WithCodec_def codecRegistered_def split: option.splits if_splits)

end
