(* ===== verification/DB.thy ===== *)
theory DB
  imports Keys Envelope Engine Options
begin

text \<open>
  The database handle of \<open>db.go\<close> and the logical-key deletion of \<open>logical_key.go\<close>. A method is
  an operation on the handle: it takes the handle and returns its result and the handle after the
  call. The mutexes serialise methods and have no counterpart in a single call.
\<close>

section \<open>The handle\<close>

record ('s, 'v) DB =
  db_engine :: "'s guardedEngine"
  db_cfg :: "'v config"
  db_backend :: bytes
  db_remote :: bool
  db_closed :: bool

definition newDB :: "'s Engine \<Rightarrow> 's \<Rightarrow> 'v config \<Rightarrow> bytes \<Rightarrow> ('s, 'v) DB" where
  "newDB storage state cfg backend =
     \<lparr>db_engine = \<lparr>g_inner = storage, g_state = state, g_closed = False\<rparr>,
      db_cfg = cfg, db_backend = backend, db_remote = False, db_closed = False\<rparr>"

text \<open>A call on \<open>db.engine\<close>, and a scan with a callback on the handle.\<close>

definition onEngine :: "('s guardedEngine, 'a) op \<Rightarrow> (('s, 'v) DB, 'a) op" where
  "onEngine m db = (case m (db_engine db) of (r, g) \<Rightarrow> (r, db\<lparr>db_engine := g\<rparr>))"

definition engineScan ::
  "ctx \<Rightarrow> bytes \<Rightarrow> ('a \<Rightarrow> bytes \<Rightarrow> bytes \<Rightarrow> (('s, 'v) DB, 'a) op) \<Rightarrow>
   'a \<Rightarrow> (('s, 'v) DB, 'a \<times> goerror option) op" where
  "engineScan ctx prfx callback acc db =
     (case guarded_ScanPrefix ctx prfx (db_engine db) of
        ((items, final), g) \<Rightarrow> scanRun callback items final acc (db\<lparr>db_engine := g\<rparr>))"

text \<open>\<open>db.cfg.now()\<close>\<close>

definition db_now :: "(('s, 'v) DB, time) op" where
  "db_now db = (Ok (cfg_now (db_cfg db) 0),
     db\<lparr>db_cfg := (db_cfg db)\<lparr>cfg_now := (\<lambda>i. cfg_now (db_cfg db) (Suc i))\<rparr>\<rparr>)"

text \<open>\<open>expiresAt > 0 && db.cfg.now().UnixNano() >= expiresAt\<close>\<close>

definition expiredNow :: "int \<Rightarrow> (('s, 'v) DB, bool) op" where
  "expiredNow expiresAt =
     (if expiresAt > 0 then bindE db_now (\<lambda>t. ret (UnixNano t \<ge> expiresAt)) else ret False)"

definition ensureOpen :: "(('s, 'v) DB, unit) op" where
  "ensureOpen db = (if db_closed db then Err (sentinelErr ErrClosed) else Ok (), db)"

definition errKeyRequired :: goerror where
  "errKeyRequired = errorfIs ErrInvalidArgument ''key is required''"

section \<open>Deleting a logical key\<close>

definition collectFound :: "ctx \<Rightarrow> bytes \<Rightarrow> bytes list \<Rightarrow> (('s, 'v) DB, bytes list) op" where
  "collectFound ctx storageKey keys =
     bindE (onEngine (guarded_Get ctx storageKey)) (\<lambda>r.
       ret (case r of Some _ \<Rightarrow> keys @ [storageKey] | None \<Rightarrow> keys))"

definition collectPrefix :: "ctx \<Rightarrow> bytes \<Rightarrow> bytes list \<Rightarrow> (('s, 'v) DB, bytes list) op" where
  "collectPrefix ctx prfx keys =
     bindE (engineScan ctx prfx (\<lambda>acc k v. ret (acc @ [k])) keys) (\<lambda>r.
       case r of
         (keys', None) \<Rightarrow> ret keys'
       | (keys', Some e) \<Rightarrow>
           if errors_Is e ErrDriverUnavailable then ret keys' else throw e)"

definition deleteKeys :: "ctx \<Rightarrow> bytes list \<Rightarrow> (('s, 'v) DB, unit) op" where
  "deleteKeys ctx keys = foldE (\<lambda>k _. onEngine (guarded_Delete ctx k)) keys ()"

definition deleteLogicalKey :: "ctx \<Rightarrow> bytes \<Rightarrow> (('s, 'v) DB, bool) op" where
  "deleteLogicalKey ctx key =
     bindE (foldE (collectFound ctx) [valueKey key, listKey key, collectionTTLKey key] [])
       (\<lambda>keys. bindE (foldE (collectPrefix ctx)
                 [namespacePrefix kindHash key, namespacePrefix kindSet key] keys)
       (\<lambda>keys. bindE (deleteKeys ctx keys)
       (\<lambda>_. ret (keys \<noteq> []))))"

section \<open>Writing\<close>

definition expiryFor :: "duration \<Rightarrow> (('s, 'v) DB, int) op" where
  "expiryFor ttl =
     (if ttl > 0 then bindE db_now (\<lambda>t. ret (UnixNano (timeAdd t ttl))) else ret 0)"

definition encodePayload :: "bytes \<Rightarrow> bytes \<Rightarrow> duration \<Rightarrow> (('s, 'v) DB, bytes) op" where
  "encodePayload codec payload ttl =
     bindE (expiryFor ttl) (\<lambda>expiresAt. liftR (marshalEnvelope codec payload expiresAt))"

definition encodeValue :: "'v any \<Rightarrow> PutOption option list \<Rightarrow> (('s, 'v) DB, bytes) op" where
  "encodeValue value options =
     bindE (liftR (applyPutOptions options \<lparr>put_ttl = 0\<rparr>)) (\<lambda>cfg db.
       bindE (liftR (codec_Marshal (cfg_codec (db_cfg db)) value)) (\<lambda>payload.
       bindE (expiryFor (put_ttl cfg)) (\<lambda>expiresAt.
         liftR (marshalEnvelope (codec_Name (cfg_codec (db_cfg db))) payload expiresAt))) db)"

definition replaceLogicalValue :: "ctx \<Rightarrow> bytes \<Rightarrow> bytes \<Rightarrow> (('s, 'v) DB, unit) op" where
  "replaceLogicalValue ctx key encoded =
     bindE (tryE (onEngine (guarded_ReplaceLogicalValue ctx key encoded))) (\<lambda>r.
       case r of
         Inr _ \<Rightarrow> ret ()
       | Inl e \<Rightarrow>
           if \<not> errors_Is e ErrAtomicReplaceUnsupported then throw e
           else bindE (wrapE ''kvlite: put: '' (deleteLogicalKey ctx key)) (\<lambda>_.
                  wrapE ''kvlite: put: '' (onEngine (guarded_Put ctx (valueKey key) encoded))))"

definition DB_Put :: "ctx \<Rightarrow> bytes \<Rightarrow> 'v any \<Rightarrow> PutOption option list \<Rightarrow> (('s, 'v) DB, unit) op" where
  "DB_Put ctx key value options =
     (if key = [] then throw errKeyRequired
      else bindE ensureOpen (\<lambda>_.
        bindE (encodeValue value options) (replaceLogicalValue ctx key)))"

definition PutStoredValue ::
  "ctx \<Rightarrow> bytes \<Rightarrow> bytes \<Rightarrow> bytes \<Rightarrow> PutOption option list \<Rightarrow> (('s, 'v) DB, unit) op" where
  "PutStoredValue ctx key codec value options =
     (if key = [] then throw errKeyRequired
      else if codec = [] then throw (errorfIs ErrInvalidArgument ''codec is required'')
      else bindE ensureOpen (\<lambda>_.
        bindE (liftR (applyPutOptions options \<lparr>put_ttl = 0\<rparr>)) (\<lambda>cfg.
        bindE (encodePayload codec value (put_ttl cfg)) (replaceLogicalValue ctx key))))"

definition PutBytes ::
  "ctx \<Rightarrow> bytes \<Rightarrow> bytes \<Rightarrow> PutOption option list \<Rightarrow> (('s, 'v) DB, unit) op" where
  "PutBytes ctx key value options = PutStoredValue ctx key bytesCodecName value options"

text \<open>\<open>put\<close>, the write of one hash field.\<close>

definition DB_put :: "ctx \<Rightarrow> bytes \<Rightarrow> 'v any \<Rightarrow> PutOption option list \<Rightarrow> (('s, 'v) DB, unit) op" where
  "DB_put ctx key value options =
     bindE ensureOpen (\<lambda>_.
       if key = [] then throw errKeyRequired
       else bindE (encodeValue value options) (\<lambda>encoded.
         wrapE ''kvlite: put: '' (onEngine (guarded_Put ctx key encoded))))"

section \<open>Reading\<close>

record StoredValue =
  sv_Codec :: bytes
  sv_Payload :: bytes
  sv_ExpiresAt :: int

definition GetStoredValue :: "ctx \<Rightarrow> bytes \<Rightarrow> (('s, 'v) DB, StoredValue) op" where
  "GetStoredValue ctx key =
     (if key = [] then throw errKeyRequired
      else bindE ensureOpen (\<lambda>_.
        bindE (wrapE ''kvlite: get: '' (onEngine (guarded_Get ctx (valueKey key)))) (\<lambda>r.
          case r of
            None \<Rightarrow> throw (sentinelErr ErrNotFound)
          | Some data \<Rightarrow>
              bindE (liftR (unmarshalEnvelope data)) (\<lambda>value.
              bindE (expiredNow (env_expiresAt value)) (\<lambda>expired.
                if expired
                then bindE (ignoreE (onEngine (guarded_Delete ctx (valueKey key))))
                       (\<lambda>_. throw (sentinelErr ErrNotFound))
                else ret \<lparr>sv_Codec = env_codec value, sv_Payload = env_payload value,
                          sv_ExpiresAt = env_expiresAt value\<rparr>)))))"

definition GetBytes :: "ctx \<Rightarrow> bytes \<Rightarrow> (('s, 'v) DB, bytes) op" where
  "GetBytes ctx key = bindE (GetStoredValue ctx key) (\<lambda>value. ret (sv_Payload value))"

definition decode :: "bytes \<Rightarrow> 'v target \<Rightarrow> (('s, 'v) DB, 'v any) op" where
  "decode data target =
     bindE (liftR (unmarshalEnvelope data)) (\<lambda>value.
     bindE (expiredNow (env_expiresAt value)) (\<lambda>expired db.
       if expired then throw (sentinelErr ErrNotFound) db
       else (case cfg_codecs (db_cfg db) (env_codec value) of
           None \<Rightarrow> throw (errorfIs ErrCodecUnavailable (env_codec value)) db
         | Some codec \<Rightarrow> liftR (codec_Unmarshal codec (env_payload value) target) db)))"

text \<open>\<open>get\<close>, on a storage key.\<close>

definition DB_get :: "ctx \<Rightarrow> bytes \<Rightarrow> 'v target \<Rightarrow> (('s, 'v) DB, 'v any) op" where
  "DB_get ctx key target =
     bindE ensureOpen (\<lambda>_.
     bindE (wrapE ''kvlite: get: '' (onEngine (guarded_Get ctx key))) (\<lambda>r.
       case r of
         None \<Rightarrow> throw (sentinelErr ErrNotFound)
       | Some data \<Rightarrow>
           bindE (tryE (decode data target)) (\<lambda>d.
             case d of
               Inr v \<Rightarrow> ret v
             | Inl e \<Rightarrow>
                 if errors_Is e ErrNotFound
                 then bindE (ignoreE (onEngine (guarded_Delete ctx key))) (\<lambda>_. throw e)
                 else throw e)))"

definition DB_Get :: "ctx \<Rightarrow> bytes \<Rightarrow> 'v target \<Rightarrow> (('s, 'v) DB, 'v any) op" where
  "DB_Get ctx key target =
     (if key = [] then throw errKeyRequired else DB_get ctx (valueKey key) target)"

definition Has :: "ctx \<Rightarrow> bytes \<Rightarrow> (('s, 'v) DB, bool) op" where
  "Has ctx key =
     (if key = [] then throw errKeyRequired
      else bindE ensureOpen (\<lambda>_.
        bindE (onEngine (guarded_Get ctx (valueKey key))) (\<lambda>r.
          case r of
            None \<Rightarrow> ret False
          | Some data \<Rightarrow>
              bindE (liftR (unmarshalEnvelope data)) (\<lambda>value.
              bindE (expiredNow (env_expiresAt value)) (\<lambda>expired.
                if expired
                then bindE (ignoreE (onEngine (guarded_Delete ctx (valueKey key)))) (\<lambda>_. ret False)
                else ret True)))))"

definition DB_Delete :: "ctx \<Rightarrow> bytes \<Rightarrow> (('s, 'v) DB, unit) op" where
  "DB_Delete ctx key =
     (if key = [] then throw errKeyRequired
      else bindE ensureOpen (\<lambda>_.
        bindE (wrapE ''kvlite: delete: '' (deleteLogicalKey ctx key)) (\<lambda>_. ret ())))"

definition DB_Close :: "(('s, 'v) DB, unit) op" where
  "DB_Close db =
     (if db_closed db then (Ok (), db)
      else onEngine guarded_Close (db\<lparr>db_closed := True\<rparr>))"

end
