(* ===== verification/MemDriver.thy ===== *)
theory MemDriver
  imports Engine
begin

text \<open>
  The built-in memory driver of \<open>memdriver.go\<close>. Its Go map is an association list with distinct
  keys; the iteration order of the Go map does not matter because \<open>ScanPrefix\<close> sorts. The driver is
  shown to satisfy the engine contract, which gives every theorem of the core and of the protocol
  extensions for it.
\<close>

section \<open>Definitions\<close>

definition DriverMemory :: bytes where "DriverMemory = ''memory''"

record memoryDriverEngine =
  mem_data :: "(bytes \<times> bytes) list"
  mem_closed :: bool

definition memoryDriver_Open :: memoryDriverEngine where
  "memoryDriver_Open = \<lparr>mem_data = [], mem_closed = False\<rparr>"

definition mem_Get :: "ctx \<Rightarrow> bytes \<Rightarrow> (memoryDriverEngine, bytes option) op" where
  "mem_Get ctx key s = (case ctx of
      Some e \<Rightarrow> (Err e, s)
    | None \<Rightarrow>
        if mem_closed s then (Err (sentinelErr ErrClosed), s)
        else (Ok (map_of (mem_data s) key), s))"

definition mem_Put :: "ctx \<Rightarrow> bytes \<Rightarrow> bytes \<Rightarrow> (memoryDriverEngine, unit) op" where
  "mem_Put ctx key value s = (case ctx of
      Some e \<Rightarrow> (Err e, s)
    | None \<Rightarrow>
        if mem_closed s then (Err (sentinelErr ErrClosed), s)
        else (Ok (), s\<lparr>mem_data := AList.update key value (mem_data s)\<rparr>))"

definition mem_Delete :: "ctx \<Rightarrow> bytes \<Rightarrow> (memoryDriverEngine, unit) op" where
  "mem_Delete ctx key s = (case ctx of
      Some e \<Rightarrow> (Err e, s)
    | None \<Rightarrow>
        if mem_closed s then (Err (sentinelErr ErrClosed), s)
        else (Ok (), s\<lparr>mem_data := AList.delete key (mem_data s)\<rparr>))"

text \<open>\<open>engine.data[key]\<close>, nil for a missing key.\<close>

definition mem_at :: "memoryDriverEngine \<Rightarrow> bytes \<Rightarrow> bytes" where
  "mem_at s key = (case map_of (mem_data s) key of Some v \<Rightarrow> v | None \<Rightarrow> [])"

definition mem_items :: "bytes \<Rightarrow> memoryDriverEngine \<Rightarrow> (bytes \<times> bytes) list" where
  "mem_items prfx s =
     (let keys = sort (filter (\<lambda>key. prefix prfx key) (map fst (mem_data s)))
      in map (\<lambda>key. (key, mem_at s key)) keys)"

text \<open>The context is consulted before each callback, so an empty scan never reports it.\<close>

definition mem_ScanPrefix ::
  "ctx \<Rightarrow> bytes \<Rightarrow> memoryDriverEngine \<Rightarrow>
    ((bytes \<times> bytes) list \<times> goerror option) \<times> memoryDriverEngine" where
  "mem_ScanPrefix ctx prfx s =
     (if mem_closed s then (([], Some (sentinelErr ErrClosed)), s)
      else let items = mem_items prfx s in
        (case ctx of
           None \<Rightarrow> ((items, None), s)
         | Some e \<Rightarrow> (([], if items = [] then None else Some e), s)))"

definition mem_Close :: "(memoryDriverEngine, unit) op" where
  "mem_Close s =
     (if mem_closed s then (Ok (), s)
      else (Ok (), \<lparr>mem_data = [], mem_closed = True\<rparr>))"

definition memoryDriver :: "memoryDriverEngine Engine" where
  "memoryDriver = \<lparr>eng_Get = mem_Get, eng_Put = mem_Put, eng_Delete = mem_Delete,
     eng_ScanPrefix = mem_ScanPrefix, eng_Close = mem_Close,
     eng_PushList = None, eng_AddSet = None, eng_RemoveSet = None,
     eng_DeleteHashFields = None, eng_ReplaceLogicalValue = None\<rparr>"

section \<open>The driver satisfies the contract\<close>

definition mem_ok :: "memoryDriverEngine \<Rightarrow> bool" where
  "mem_ok s \<longleftrightarrow> \<not> mem_closed s \<and> distinct (map fst (mem_data s))"

definition mem_view :: "memoryDriverEngine \<Rightarrow> bytes \<Rightarrow> bytes option" where
  "mem_view s = map_of (mem_data s)"

definition mem_put :: "bytes \<Rightarrow> bytes \<Rightarrow> memoryDriverEngine \<Rightarrow> memoryDriverEngine" where
  "mem_put k v s = s\<lparr>mem_data := AList.update k v (mem_data s)\<rparr>"

definition mem_del :: "bytes \<Rightarrow> memoryDriverEngine \<Rightarrow> memoryDriverEngine" where
  "mem_del k s = s\<lparr>mem_data := AList.delete k (mem_data s)\<rparr>"

lemma mem_items_keys:
  "map fst (mem_items p s) = sort (filter (\<lambda>k. prefix p k) (map fst (mem_data s)))"
  by (simp add: mem_items_def comp_def)

lemma mem_items_set:
  assumes "mem_ok s"
  shows "set (mem_items p s) = {(k, v). mem_view s k = Some v \<and> prefix p k}"
proof -
  have "mem_at s k = v" if "(k, v) \<in> set (mem_data s)" for k v
    using that assms by (simp add: mem_at_def mem_ok_def)
  with assms show ?thesis
    by (force simp: mem_items_def mem_view_def mem_ok_def image_iff map_of_eq_Some_iff)
qed

interpretation mem: local_engine memoryDriver mem_ok mem_view mem_put mem_del mem_items
proof unfold_locales
  fix s p
  assume ok: "mem_ok s"
  show "distinct (map fst (mem_items p s))"
    using ok by (simp add: mem_items_keys mem_ok_def)
  show "set (mem_items p s) = {(k, v). mem_view s k = Some v \<and> prefix p k}"
    using ok by (rule mem_items_set)
qed (simp_all add: memoryDriver_def mem_Get_def mem_Put_def mem_Delete_def mem_ScanPrefix_def
    mem_ok_def mem_view_def mem_put_def mem_del_def distinct_update distinct_delete)

text \<open>
  C8. The memory driver implements a finite map: a scan returns exactly the live records under
  the prefix, each once, in byte order, with their current values, whatever sequence of writes
  and deletes produced the store.
\<close>

theorem mem_scan_sorted_complete:
  assumes "mem_ok s"
  shows "\<exists>items. mem_ScanPrefix Background p s = ((items, None), s) \<and>
     sorted (map fst items) \<and> distinct (map fst items) \<and>
     (\<forall>k v. (k, v) \<in> set items \<longleftrightarrow> mem_Get Background k s = (Ok (Some v), s) \<and> prefix p k)"
proof (intro exI conjI)
  show "mem_ScanPrefix Background p s = ((mem_items p s, None), s)"
    using mem.scan [OF assms, of p] by (simp add: memoryDriver_def)
  show "distinct (map fst (mem_items p s))"
    using assms by (rule mem.items_distinct)
  show "\<forall>k v. (k, v) \<in> set (mem_items p s) \<longleftrightarrow>
      mem_Get Background k s = (Ok (Some v), s) \<and> prefix p k"
    using mem.get [OF assms] mem.items_lookup [OF assms] by (simp add: memoryDriver_def)
qed (simp add: mem_items_keys)

theorem mem_scan_sorted_complete_witness:
  "\<exists>items. mem_ScanPrefix Background ''a''
       \<lparr>mem_data = [(''b'', ''1''), (''ab'', ''2''), (''aa'', ''3'')], mem_closed = False\<rparr>
     = ((items, None),
        \<lparr>mem_data = [(''b'', ''1''), (''ab'', ''2''), (''aa'', ''3'')], mem_closed = False\<rparr>) \<and>
     (''aa'', ''3'') \<in> set items"
proof -
  let ?s = "\<lparr>mem_data = [(''b'', ''1''), (''ab'', ''2''), (''aa'', ''3'')], mem_closed = False\<rparr>"
  have "mem_ok ?s" by (simp add: mem_ok_def)
  from mem_scan_sorted_complete [OF this, of "''a''"] show ?thesis
    by (auto simp: mem_Get_def)
qed

end
