(* ===== verification/DBLaws.thy ===== *)
theory DBLaws
  imports DB MemDriver
begin

text \<open>
  What the methods of \<open>DB\<close> do on a driver that keeps the engine contract: each engine call
  becomes an equation on the handle, each method a change of the record map, and the results are
  read off the interpretation of the contract by the memory driver.
\<close>

section \<open>Frozen clocks\<close>

definition clockIs :: "time \<Rightarrow> ('s, 'v) DB \<Rightarrow> bool" where
  "clockIs t db \<longleftrightarrow> cfg_now (db_cfg db) = (\<lambda>_. t)"

lemma db_now_frozen [op_simps]: "clockIs t db \<Longrightarrow> db_now db = (Ok t, db)"
  by (cases db) (simp add: clockIs_def db_now_def)

lemma expiredNow_frozen [op_simps]:
  "clockIs t db \<Longrightarrow> expiredNow e db = (Ok (0 < e \<and> e \<le> UnixNano t), db)"
  by (simp add: expiredNow_def bindE_def ret_def op_simps)

lemma expiryFor_frozen [op_simps]:
  "clockIs t db \<Longrightarrow> expiryFor d db = (Ok (if 0 < d then UnixNano (t + d) else 0), db)"
  by (simp add: expiryFor_def bindE_def ret_def op_simps timeAdd_def)

section \<open>Engine calls of a handle, under the contract\<close>

context local_engine
begin

definition dbOk :: "('s, 'v) DB \<Rightarrow> bool" where
  "dbOk db \<longleftrightarrow> \<not> db_closed db \<and> guard_ok (db_engine db)"

definition dbView :: "('s, 'v) DB \<Rightarrow> bytes \<Rightarrow> bytes option" where
  "dbView db = view (g_state (db_engine db))"

definition dbItems :: "bytes \<Rightarrow> ('s, 'v) DB \<Rightarrow> (bytes \<times> bytes) list" where
  "dbItems p db = items_st p (g_state (db_engine db))"

definition dbPut :: "bytes \<Rightarrow> bytes \<Rightarrow> ('s, 'v) DB \<Rightarrow> ('s, 'v) DB" where
  "dbPut k v db = db\<lparr>db_engine := (db_engine db)\<lparr>g_state := put_st k v (g_state (db_engine db))\<rparr>\<rparr>"

definition dbDel :: "bytes \<Rightarrow> ('s, 'v) DB \<Rightarrow> ('s, 'v) DB" where
  "dbDel k db = db\<lparr>db_engine := (db_engine db)\<lparr>g_state := del_st k (g_state (db_engine db))\<rparr>\<rparr>"

definition dbDels :: "bytes list \<Rightarrow> ('s, 'v) DB \<Rightarrow> ('s, 'v) DB" where
  "dbDels ks db = fold dbDel ks db"

lemma db_Get_eq [op_simps]:
  "dbOk db \<Longrightarrow> onEngine (guarded_Get None k) db = (Ok (dbView db k), db)"
  by (simp add: dbOk_def dbView_def onEngine_def guarded_Get_def onInner_def guard_ok_def get)

lemma db_Put_eq [op_simps]:
  "dbOk db \<Longrightarrow> onEngine (guarded_Put None k v) db = (Ok (), dbPut k v db)"
  by (simp add: dbOk_def dbPut_def onEngine_def guarded_Put_def onInner_def guard_ok_def put)

lemma db_Delete_eq [op_simps]:
  "dbOk db \<Longrightarrow> onEngine (guarded_Delete None k) db = (Ok (), dbDel k db)"
  by (simp add: dbOk_def dbDel_def onEngine_def guarded_Delete_def onInner_def guard_ok_def delete)

lemma db_Scan_eq [op_simps]:
  "dbOk db \<Longrightarrow> engineScan None p cb acc db = scanRun cb (dbItems p db) None acc db"
  by (simp add: dbOk_def dbItems_def engineScan_def guarded_ScanPrefix_def guard_ok_def scan)

lemma ensureOpen_eq [op_simps]: "dbOk db \<Longrightarrow> ensureOpen db = (Ok (), db)"
  by (simp add: dbOk_def ensureOpen_def)

lemma dbOk_upd [simp]:
  "dbOk db \<Longrightarrow> dbOk (dbPut k v db)" "dbOk db \<Longrightarrow> dbOk (dbDel k db)"
  by (simp_all add: dbOk_def dbPut_def dbDel_def guard_ok_def ok_put ok_del)

lemma dbView_upd [simp]:
  "dbOk db \<Longrightarrow> dbView (dbPut k v db) = (dbView db)(k \<mapsto> v)"
  "dbOk db \<Longrightarrow> dbView (dbDel k db) = (dbView db)(k := None)"
  by (simp_all add: dbOk_def dbView_def dbPut_def dbDel_def guard_ok_def view_put view_del)

lemma db_frame [simp]:
  "db_cfg (dbPut k v db) = db_cfg db" "db_cfg (dbDel k db) = db_cfg db"
  "db_closed (dbPut k v db) = db_closed db" "db_closed (dbDel k db) = db_closed db"
  "db_backend (dbPut k v db) = db_backend db" "db_backend (dbDel k db) = db_backend db"
  "db_remote (dbPut k v db) = db_remote db" "db_remote (dbDel k db) = db_remote db"
  by (simp_all add: dbPut_def dbDel_def)

lemma clockIs_upd [simp]:
  "clockIs t (dbPut k v db) = clockIs t db" "clockIs t (dbDel k db) = clockIs t db"
  by (simp_all add: clockIs_def)

lemma dbDels_simps [simp]:
  "dbDels [] db = db" "dbDels (k # ks) db = dbDels ks (dbDel k db)"
  "dbDels (ks @ ls) db = dbDels ls (dbDels ks db)"
  by (simp_all add: dbDels_def)

lemma dbDels_frame [simp]:
  "db_cfg (dbDels ks db) = db_cfg db" "db_closed (dbDels ks db) = db_closed db"
  "db_backend (dbDels ks db) = db_backend db" "db_remote (dbDels ks db) = db_remote db"
  "clockIs t (dbDels ks db) = clockIs t db"
  by (induction ks arbitrary: db) simp_all

lemma dbOk_dbDels [simp]: "dbOk db \<Longrightarrow> dbOk (dbDels ks db)"
  by (induction ks arbitrary: db) simp_all

lemma dbView_dbDels [simp]: "dbOk db \<Longrightarrow> dbView (dbDels ks db) = dbView db |` (- set ks)"
proof (induction ks arbitrary: db)
  case (Cons k ks)
  then show ?case by (auto simp: restrict_map_def fun_eq_iff)
qed (simp add: restrict_map_def)

lemma deleteKeys_eq [op_simps]: "dbOk db \<Longrightarrow> deleteKeys None ks db = (Ok (), dbDels ks db)"
  unfolding deleteKeys_def
  by (induction ks arbitrary: db) (simp_all add: ret_def bindE_def op_simps)

lemma scanRun_collect [simp]:
  "scanRun (\<lambda>acc k v. ret (acc @ [k])) items final acc d = (Ok (acc @ map fst items, final), d)"
  by (induction items arbitrary: acc) (simp_all add: ret_def)

text \<open>The records of a logical key that are present, in the order they are found.\<close>

definition logicalRecords :: "bytes \<Rightarrow> ('s, 'v) DB \<Rightarrow> bytes list" where
  "logicalRecords key db =
     filter (\<lambda>k. dbView db k \<noteq> None) [valueKey key, listKey key, collectionTTLKey key]
       @ map fst (dbItems (namespacePrefix kindHash key) db)
       @ map fst (dbItems (namespacePrefix kindSet key) db)"

definition dropKey :: "bytes \<Rightarrow> ('s, 'v) DB \<Rightarrow> ('s, 'v) DB" where
  "dropKey key db = dbDels (logicalRecords key db) db"

lemma dbItems_set: "dbOk db \<Longrightarrow> set (dbItems p db) = {(k, v). dbView db k = Some v \<and> prefix p k}"
  by (simp add: dbOk_def guard_ok_def dbItems_def dbView_def items_set)

lemma dbItems_distinct: "dbOk db \<Longrightarrow> distinct (map fst (dbItems p db))"
  by (simp add: dbOk_def guard_ok_def dbItems_def items_distinct)

lemma dbItems_keys:
  "dbOk db \<Longrightarrow> fst ` set (dbItems p db) = {k. dbView db k \<noteq> None \<and> prefix p k}"
  by (force simp: dbItems_set image_iff)

lemma dbItems_empty_iff:
  "dbOk db \<Longrightarrow> dbItems p db = [] \<longleftrightarrow> (\<forall>k. prefix p k \<longrightarrow> dbView db k = None)"
proof -
  assume "dbOk db"
  have "dbItems p db = [] \<longleftrightarrow> fst ` set (dbItems p db) = {}" by simp
  also have "\<dots> \<longleftrightarrow> (\<forall>k. prefix p k \<longrightarrow> dbView db k = None)"
    unfolding dbItems_keys [OF \<open>dbOk db\<close>] by auto
  finally show ?thesis .
qed

lemma set_logicalRecords:
  "dbOk db \<Longrightarrow> set (logicalRecords key db) = {sk. dbView db sk \<noteq> None \<and> recordOf key sk}"
  by (auto simp: logicalRecords_def dbItems_keys recordOf_def)

lemma foldE_collectFound [op_simps]:
  "dbOk db \<Longrightarrow> foldE (collectFound None) ks acc db
     = (Ok (acc @ filter (\<lambda>k. dbView db k \<noteq> None) ks), db)"
proof (induction ks arbitrary: acc)
  case (Cons k ks)
  then have "collectFound None k acc db
      = (Ok (if dbView db k \<noteq> None then acc @ [k] else acc), db)"
    by (simp add: collectFound_def bindE_def ret_def op_simps split: option.split)
  with Cons show ?case by (simp add: bindE_def)
qed (simp add: ret_def)

lemma foldE_collectPrefix [op_simps]:
  "dbOk db \<Longrightarrow> foldE (collectPrefix None) ps acc db
     = (Ok (acc @ concat (map (\<lambda>p. map fst (dbItems p db)) ps)), db)"
  by (induction ps arbitrary: acc)
    (simp_all add: collectPrefix_def bindE_def ret_def op_simps)

lemma deleteLogicalKey_eq [op_simps]:
  "dbOk db \<Longrightarrow> deleteLogicalKey None key db
     = (Ok (\<exists>sk. dbView db sk \<noteq> None \<and> recordOf key sk), dropKey key db)"
proof -
  assume ok: "dbOk db"
  have "deleteLogicalKey None key db
      = (Ok (logicalRecords key db \<noteq> []), dbDels (logicalRecords key db) db)"
    unfolding deleteLogicalKey_def bindE_def foldE_collectFound [OF ok]
    by (simp only: prod.case res.case foldE_collectPrefix [OF ok] deleteKeys_eq [OF ok] ret_def
        logicalRecords_def append.assoc list.map concat.simps append_Nil append_Nil2)
  moreover have "logicalRecords key db \<noteq> [] \<longleftrightarrow> set (logicalRecords key db) \<noteq> {}" by simp
  ultimately show ?thesis
    using set_logicalRecords [OF ok, of key] by (simp add: dropKey_def)
qed

lemma dropKey_frame [simp]:
  "db_cfg (dropKey k db) = db_cfg db" "db_closed (dropKey k db) = db_closed db"
  "db_backend (dropKey k db) = db_backend db" "db_remote (dropKey k db) = db_remote db"
  "clockIs t (dropKey k db) = clockIs t db"
  by (simp_all add: dropKey_def)

lemma dbOk_dropKey [simp]: "dbOk db \<Longrightarrow> dbOk (dropKey key db)"
  by (simp add: dropKey_def)

lemma dbView_dropKey:
  "dbOk db \<Longrightarrow> dbView (dropKey key db) sk = (if recordOf key sk then None else dbView db sk)"
  by (auto simp: dropKey_def set_logicalRecords restrict_map_def)

lemma dropKey_noop:
  "dbOk db \<Longrightarrow> (\<And>sk. recordOf key sk \<Longrightarrow> dbView db sk = None) \<Longrightarrow> dropKey key db = db"
proof -
  assume "dbOk db" "\<And>sk. recordOf key sk \<Longrightarrow> dbView db sk = None"
  then have "set (logicalRecords key db) = {}"
    using set_logicalRecords [of db key] by auto
  then show ?thesis by (simp add: dropKey_def)
qed

lemma replaceLogicalValue_eq [op_simps]:
  "dbOk db \<Longrightarrow> replaceLogicalValue None key encoded db
     = (Ok (), dbPut (valueKey key) encoded (dropKey key db))"
proof -
  assume ok: "dbOk db"
  then have "onEngine (guarded_ReplaceLogicalValue None key encoded) db
      = (Err (sentinelErr ErrAtomicReplaceUnsupported), db)"
    by (simp add: onEngine_def guarded_ReplaceLogicalValue_def dbOk_def guard_ok_def
        no_ReplaceLogicalValue)
  with ok show ?thesis
    by (simp add: replaceLogicalValue_def tryE_def bindE_def wrapE_def ret_def op_simps)
qed

text \<open>The expiry a write with time-to-live \<open>d\<close> at time \<open>t\<close> stores; zero is no expiry.\<close>

lemma encodePayload_eq [op_simps]:
  "clockIs t db \<Longrightarrow> length c \<le> 65535 \<Longrightarrow>
   encodePayload c p d db = (Ok (envBytes c p (if 0 < d then UnixNano (t + d) else 0)), db)"
  by (simp add: encodePayload_def bindE_def liftR_def op_simps)

lemma encodeValue_eq:
  assumes "clockIs t db" "applyPutOptions opts \<lparr>put_ttl = 0\<rparr> = Ok \<lparr>put_ttl = d\<rparr>"
    and "codec_Marshal (cfg_codec (db_cfg db)) v = Ok p"
    and "length (codec_Name (cfg_codec (db_cfg db))) \<le> 65535"
  shows "encodeValue v opts db
     = (Ok (envBytes (codec_Name (cfg_codec (db_cfg db))) p
             (if 0 < d then UnixNano (t + d) else 0)), db)"
  using assms by (simp add: encodeValue_def bindE_def liftR_def op_simps)

lemma DB_Put_eq:
  assumes "dbOk db" "clockIs t db" "key \<noteq> []"
    and "applyPutOptions opts \<lparr>put_ttl = 0\<rparr> = Ok \<lparr>put_ttl = d\<rparr>"
    and "codec_Marshal (cfg_codec (db_cfg db)) v = Ok p"
    and "length (codec_Name (cfg_codec (db_cfg db))) \<le> 65535"
  shows "DB_Put None key v opts db
     = (Ok (), dbPut (valueKey key)
         (envBytes (codec_Name (cfg_codec (db_cfg db))) p (if 0 < d then UnixNano (t + d) else 0))
         (dropKey key db))"
  using assms by (simp add: DB_Put_def bindE_def op_simps encodeValue_eq)

lemma DB_Delete_eq [op_simps]:
  "dbOk db \<Longrightarrow> key \<noteq> [] \<Longrightarrow> DB_Delete None key db = (Ok (), dropKey key db)"
  by (simp add: DB_Delete_def bindE_def wrapE_def ret_def op_simps)

text \<open>What a read finds under a storage key at time \<open>t\<close>.\<close>

definition liveEnvelope :: "time \<Rightarrow> bytes \<Rightarrow> envelope option res" where
  "liveEnvelope t data = (case unmarshalEnvelope data of
      Ok e \<Rightarrow> Ok (if 0 < env_expiresAt e \<and> env_expiresAt e \<le> UnixNano t then None else Some e)
    | Err er \<Rightarrow> Err er
    | Panic p \<Rightarrow> Panic p)"

lemma GetStoredValue_eq [op_simps]:
  assumes "dbOk db" "clockIs t db" "key \<noteq> []"
  shows "GetStoredValue None key db = (case dbView db (valueKey key) of
      None \<Rightarrow> (Err (sentinelErr ErrNotFound), db)
    | Some data \<Rightarrow> (case liveEnvelope t data of
          Ok None \<Rightarrow> (Err (sentinelErr ErrNotFound), dbDel (valueKey key) db)
        | Ok (Some e) \<Rightarrow> (Ok \<lparr>sv_Codec = env_codec e, sv_Payload = env_payload e,
                             sv_ExpiresAt = env_expiresAt e\<rparr>, db)
        | Err er \<Rightarrow> (Err er, db)
        | Panic p \<Rightarrow> (Panic p, db)))"
  using assms
  by (auto simp: GetStoredValue_def liveEnvelope_def bindE_def wrapE_def throw_def ret_def
      liftR_def ignoreE_def op_simps split: option.split res.split)

lemma decode_eq [op_simps]:
  assumes "clockIs t db"
  shows "decode data target db = (case liveEnvelope t data of
      Ok None \<Rightarrow> (Err (sentinelErr ErrNotFound), db)
    | Ok (Some e) \<Rightarrow> (case cfg_codecs (db_cfg db) (env_codec e) of
          None \<Rightarrow> (Err (errorfIs ErrCodecUnavailable (env_codec e)), db)
        | Some codec \<Rightarrow> (codec_Unmarshal codec (env_payload e) target, db))
    | Err er \<Rightarrow> (Err er, db)
    | Panic p \<Rightarrow> (Panic p, db))"
  using assms
  by (auto simp: decode_def liveEnvelope_def bindE_def throw_def liftR_def op_simps
      split: option.split res.split)

end

section \<open>Open handles on the memory driver\<close>

definition memOpen :: "(memoryDriverEngine, 'v) DB \<Rightarrow> bool" where
  "memOpen db \<longleftrightarrow> \<not> db_closed db \<and> \<not> g_closed (db_engine db)
     \<and> g_inner (db_engine db) = memoryDriver \<and> mem_ok (g_state (db_engine db))"

text \<open>The records of the store, as the driver returns them.\<close>

definition storeView :: "(memoryDriverEngine, 'v) DB \<Rightarrow> bytes \<Rightarrow> bytes option" where
  "storeView db = map_of (mem_data (g_state (db_engine db)))"

text \<open>The same handle with its clock stopped at \<open>t\<close>.\<close>

definition atTime :: "time \<Rightarrow> ('s, 'v) DB \<Rightarrow> ('s, 'v) DB" where
  "atTime t db = db\<lparr>db_cfg := (db_cfg db)\<lparr>cfg_now := (\<lambda>_. t)\<rparr>\<rparr>"

lemma memOpen_dbOk: "mem.dbOk db \<longleftrightarrow> memOpen db"
  by (auto simp: memOpen_def mem.dbOk_def mem.guard_ok_def)

lemma storeView_dbView: "mem.dbView db = storeView db"
  by (simp add: storeView_def mem.dbView_def mem_view_def)

lemma atTime_simps [simp]:
  "clockIs t (atTime t db)" "memOpen (atTime t db') = memOpen db'"
  "storeView (atTime t db') = storeView db'"
  "cfg_codec (db_cfg (atTime t db)) = cfg_codec (db_cfg db)"
  "cfg_codecs (db_cfg (atTime t db)) = cfg_codecs (db_cfg db)"
  by (simp_all add: atTime_def clockIs_def memOpen_def storeView_def)

lemmas atTime_clock [op_simps] =
  db_now_frozen [OF atTime_simps(1)] expiredNow_frozen [OF atTime_simps(1)]
  expiryFor_frozen [OF atTime_simps(1)]

lemma recordOf_iff_logicalKey:
  "lenOk key \<Longrightarrow> recordOf key sk \<longleftrightarrow> logicalKeyFromStorage sk = Some key"
  using logicalKey_recordOf [of sk key]
  by (auto simp: recordOf_def logicalKey_namespaced elim!: prefix_namespacePrefixE)

text \<open>An open memory handle with the bytes codec over given records, for concrete instances.\<close>

definition memDB :: "(bytes \<times> bytes) list \<Rightarrow> (memoryDriverEngine, unit) DB" where
  "memDB records = newDB memoryDriver \<lparr>mem_data = records, mem_closed = False\<rparr>
     (defaultConfig (BytesCodec (\<lambda>_. ''unit'')) (\<lambda>_. 0)) DriverMemory"

lemma memDB_simps [simp]:
  "memOpen (memDB records) = distinct (map fst records)"
  "storeView (memDB records) = map_of records"
  "cfg_codec (db_cfg (memDB records)) = BytesCodec (\<lambda>_. ''unit'')"
  "codecRegistered (db_cfg (memDB records))"
  "clockIs 0 (memDB records)"
  by (simp_all add: memDB_def newDB_def memOpen_def storeView_def mem_ok_def defaultConfig_def
      codecRegistered_def clockIs_def)

lemma BytesCodec_simps [simp]:
  "codec_Name (BytesCodec f) = bytesCodecName"
  "codec_Marshal (BytesCodec f) (ABytes d) = Ok d"
  "codec_Unmarshal (BytesCodec f) d (TPtr (ABytes old)) = Ok (ABytes d)"
  "length bytesCodecName \<le> 65535"
  by (simp_all add: BytesCodec_def BytesCodec_Marshal_def BytesCodec_Unmarshal_def
      bytesCodecName_def)

end
