(* ===== verification/DBProps.thy ===== *)
theory DBProps
  imports DBLaws
begin

text \<open>
  Properties of the scalar API of \<open>db.go\<close> on the memory driver: one representation per logical
  key, exact expiry, exact deletion.
\<close>

lemma envBytes_live:
  assumes "length c \<le> 65535" "isInt64 e"
  shows "mem.liveEnvelope t (envBytes c p e)
     = Ok (if 0 < e \<and> e \<le> UnixNano t then None
           else Some \<lparr>env_expiresAt = e, env_codec = c, env_payload = p\<rparr>)"
  using assms by (simp add: mem.liveEnvelope_def)

lemma encodeValue_frame:
  "encodeValue v opts (atTime t db) = (r, db1) \<Longrightarrow> db1 = atTime t db"
  by (auto simp: encodeValue_def bindE_def liftR_def op_simps split: res.splits prod.splits)

text \<open>
  C1. A successful \<open>Put\<close> leaves exactly one record for its logical key, the scalar record, and
  does not touch the records of any other logical key: hash fields, set members, list and TTL
  records of the same key are gone, those of siblings are unchanged.
\<close>

theorem put_one_representation:
  assumes "memOpen db" "lenOk key"
    and "DB_Put Background key v opts (atTime t db) = (Ok (), db')"
  shows "\<exists>data. storeView db' (valueKey key) = Some data \<and>
    (\<forall>sk. sk \<noteq> valueKey key \<longrightarrow> storeView db' sk =
       (if logicalKeyFromStorage sk = Some key then None else storeView db sk))"
proof -
  let ?db = "atTime t db"
  have ok: "mem.dbOk ?db" using assms(1) by (simp add: memOpen_dbOk)
  have "key \<noteq> []" using assms(3) by (auto simp: DB_Put_def throw_def)
  with assms(3) ok obtain data db1 where enc: "encodeValue v opts ?db = (Ok data, db1)"
    and rep: "replaceLogicalValue None key data db1 = (Ok (), db')"
    by (auto simp: DB_Put_def bindE_Ok_iff op_simps)
  have db1: "db1 = ?db" using enc by (rule encodeValue_frame)
  with rep ok have db': "db' = mem.dbPut (valueKey key) data (mem.dropKey key ?db)"
    by (simp add: op_simps)
  have "storeView db' sk = (if sk = valueKey key then Some data
      else if logicalKeyFromStorage sk = Some key then None else storeView db sk)" for sk
    using ok assms(2) unfolding db'
    by (simp add: mem.dbView_dropKey recordOf_iff_logicalKey flip: storeView_dbView)
       (simp add: storeView_dbView)
  then show ?thesis by auto
qed


theorem put_one_representation_witness:
  "\<exists>data. storeView (snd (DB_Put Background ''k'' (ABytes ''v'') []
       (atTime 5 (memDB [(listKey ''k'', ''x''), (valueKey ''kk'', ''y'')])))) (valueKey ''k'')
     = Some data"
proof -
  let ?db = "memDB [(listKey ''k'', ''x''), (valueKey ''kk'', ''y'')]"
  let ?r = "DB_Put Background ''k'' (ABytes ''v'') [] (atTime 5 ?db)"
  have "fst ?r = Ok ()"
    by (simp add: mem.DB_Put_eq [where d = 0 and p = "''v''" and t = 5] memOpen_dbOk)
  then have "?r = (Ok (), snd ?r)" by (metis prod.collapse)
  from put_one_representation [OF _ _ this] show ?thesis by (auto simp: lenOk_def)
qed

text \<open>
  C3. A value written with a time-to-live is readable up to its deadline and not after: at any
  later reading \<open>t'\<close> of the clock, \<open>Get\<close> decodes the value exactly when \<open>t' < t + d\<close>; from the
  deadline on it reports \<open>ErrNotFound\<close> and has removed the record.
\<close>

theorem put_ttl_get:
  assumes "memOpen db" "key \<noteq> []" "codecRegistered (db_cfg db)"
    and "length (codec_Name (cfg_codec (db_cfg db))) \<le> 65535"
    and "codec_Marshal (cfg_codec (db_cfg db)) v = Ok p"
    and "codec_Unmarshal (cfg_codec (db_cfg db)) p target = Ok v'"
    and "0 < d" "0 < t + d" "isInt64 (t + d)" "isInt64 t'"
    and "DB_Put Background key v [Some (TTL d)] (atTime t db) = (r, db1)"
    and "DB_Get Background key target (atTime t' db1) = (r', db2)"
  shows "r = Ok () \<and>
    (if t' < t + d then r' = Ok v' \<and> storeView db2 = storeView db1
     else r' = Err (sentinelErr ErrNotFound) \<and> storeView db2 = (storeView db1)(valueKey key := None))"
proof -
  let ?db = "atTime t db" and ?c = "codec_Name (cfg_codec (db_cfg db))"
  have ok: "mem.dbOk ?db" using assms(1) by (simp add: memOpen_dbOk)
  let ?db1 = "mem.dbPut (valueKey key) (envBytes ?c p (t + d)) (mem.dropKey key ?db)"
  have put: "r = Ok ()" "db1 = ?db1"
    using assms(11) mem.DB_Put_eq [OF ok atTime_simps(1) assms(2), of "[Some (TTL d)]" d v p] assms(4-9)
    by (simp_all add: UnixNano_def TTL_def)
  have ok1: "mem.dbOk (atTime t' ?db1)"
    using mem.dbOk_upd(1) [OF mem.dbOk_dropKey [OF ok]] by (simp add: memOpen_dbOk)
  have view1: "mem.dbView (atTime t' ?db1) (valueKey key) = Some (envBytes ?c p (t + d))"
    using mem.dbView_upd(1) [OF mem.dbOk_dropKey [OF ok]] by (simp add: storeView_dbView)
  have codecs: "cfg_codecs (db_cfg (atTime t' ?db1)) ?c = Some (cfg_codec (db_cfg db))"
    using assms(3) by (simp add: codecRegistered_def)
  show ?thesis
  proof (cases "t' < t + d")
    case True
    then have "DB_Get Background key target (atTime t' ?db1) = (Ok v', atTime t' ?db1)"
      using ok1 view1 codecs assms(2,4,6,8-10)
      by (simp add: DB_Get_def DB_get_def bindE_def wrapE_def tryE_def ret_def op_simps
          mem.decode_eq [OF atTime_simps(1)] envBytes_live UnixNano_def)
    with True put assms(12) show ?thesis by simp
  next
    case False
    then have "DB_Get Background key target (atTime t' ?db1)
        = (Err (sentinelErr ErrNotFound), mem.dbDel (valueKey key) (atTime t' ?db1))"
      using ok1 view1 assms(2,4,8-10)
      by (simp add: DB_Get_def DB_get_def bindE_def wrapE_def tryE_def throw_def ignoreE_def
          op_simps mem.decode_eq [OF atTime_simps(1)] envBytes_live UnixNano_def)
    with False put assms(12) ok1 show ?thesis
      by (simp flip: storeView_dbView) (simp add: storeView_dbView)
  qed
qed

theorem put_ttl_get_witness:
  "fst (DB_Get Background ''k'' (TPtr (ABytes []))
     (atTime 109 (snd (DB_Put Background ''k'' (ABytes ''v'') [Some (TTL 10)] (atTime 100 (memDB []))))))
   = Ok (ABytes ''v'') \<and>
   fst (DB_Get Background ''k'' (TPtr (ABytes []))
     (atTime 110 (snd (DB_Put Background ''k'' (ABytes ''v'') [Some (TTL 10)] (atTime 100 (memDB []))))))
   = Err (sentinelErr ErrNotFound)"
proof -
  let ?p = "DB_Put Background ''k'' (ABytes ''v'') [Some (TTL 10)] (atTime 100 (memDB []))"
  let ?g = "\<lambda>t'. DB_Get Background ''k'' (TPtr (ABytes [])) (atTime t' (snd ?p))"
  have "fst ?p = Ok () \<and> (if t' < 100 + 10 then fst (?g t') = Ok (ABytes ''v'') \<and>
      storeView (snd (?g t')) = storeView (snd ?p)
      else fst (?g t') = Err (sentinelErr ErrNotFound) \<and>
      storeView (snd (?g t')) = (storeView (snd ?p))(valueKey ''k'' := None))" if "isInt64 t'" for t'
    by (rule put_ttl_get [where db = "memDB []" and p = "''v''"])
      (use that in \<open>simp_all add: int64_defs\<close>)
  from this [of 109] this [of 110] show ?thesis by (simp add: int64_defs)
qed

text \<open>
  C9. \<open>Delete\<close> of a non-empty key, with a live context, always succeeds on an open handle and removes exactly the records whose logical
  key is the given one, whatever their kind; every other record is unchanged.
\<close>

theorem delete_exact:
  assumes "memOpen db" "key \<noteq> []" "lenOk key"
  shows "\<exists>db'. DB_Delete Background key db = (Ok (), db') \<and>
    (\<forall>sk. storeView db' sk =
       (if logicalKeyFromStorage sk = Some key then None else storeView db sk))"
proof -
  have ok: "mem.dbOk db" using assms(1) by (simp add: memOpen_dbOk)
  then have "DB_Delete Background key db = (Ok (), mem.dropKey key db)"
    using assms(2) by (simp add: mem.DB_Delete_eq)
  moreover have "storeView (mem.dropKey key db) sk =
       (if logicalKeyFromStorage sk = Some key then None else storeView db sk)" for sk
    using mem.dbView_dropKey [OF ok] assms(3)
    by (simp add: recordOf_iff_logicalKey storeView_dbView)
  ultimately show ?thesis by blast
qed

theorem delete_exact_witness:
  "\<exists>db'. DB_Delete Background ''user:1''
       (memDB [(namespacedKey kindHash ''user:1'' ''f'', ''x''), (valueKey ''user:10'', ''y'')])
     = (Ok (), db') \<and> storeView db' (namespacedKey kindHash ''user:1'' ''f'') = None
     \<and> storeView db' (valueKey ''user:10'') = Some ''y''"
proof -
  let ?db = "memDB [(namespacedKey kindHash ''user:1'' ''f'', ''x''), (valueKey ''user:10'', ''y'')]"
  have "memOpen ?db" by simp
  moreover have "logicalKeyFromStorage (namespacedKey kindHash ''user:1'' ''f'') = Some ''user:1''"
    by (simp add: logicalKey_namespaced lenOk_def)
  ultimately show ?thesis
    using delete_exact [of ?db "''user:1''"] by (auto simp: lenOk_def)
qed

end
