(* ===== verification/ListFormat.thy ===== *)
theory ListFormat
  imports Prelude
begin

text \<open>
  The length-delimited list record of \<open>collections.go\<close> (\<open>encodeList\<close>, \<open>decodeList\<close>) and the
  index arithmetic of \<open>normalizeRange\<close>.
\<close>

section \<open>Definitions\<close>

definition encodeItem :: "bytes \<Rightarrow> bytes" where
  "encodeItem item = PutUint32 (of_nat (length item)) @ item"

definition encodeList :: "bytes list \<Rightarrow> bytes" where
  "encodeList items = PutUint32 (of_nat (length items)) @ concat (map encodeItem items)"

definition errTruncatedList :: goerror where
  "errTruncatedList = errorsNew ''kvlite: truncated list encoding''"

definition errTruncatedItem :: goerror where
  "errTruncatedItem = errorsNew ''kvlite: truncated list item''"

text \<open>The loop of \<open>decodeList\<close>: \<open>n\<close> iterations are left, \<open>offset\<close> and \<open>items\<close> are its variables.\<close>

primrec decodeListLoop :: "bytes \<Rightarrow> nat \<Rightarrow> nat \<Rightarrow> bytes list \<Rightarrow> (nat \<times> bytes list) res" where
  "decodeListLoop data 0 offset items = Ok (offset, items)"
| "decodeListLoop data (Suc n) offset items =
     (if offset + 4 > length data then Err errTruncatedList
      else let len = unat (Uint32 (take 4 (drop offset data))); offset' = offset + 4 in
        if offset' + len > length data then Err errTruncatedItem
        else decodeListLoop data n (offset' + len) (items @ [take len (drop offset' data)]))"

definition decodeList :: "bytes \<Rightarrow> bytes list res" where
  "decodeList data =
     (if length data < 4 then Err (errorsNew ''kvlite: invalid list encoding'')
      else let count = unat (Uint32 (take 4 data)) in
        if count > (length data - 4) div 4 then Err (errorsNew ''kvlite: invalid list item count'')
        else (case decodeListLoop data count 4 [] of
            Ok (offset, items) \<Rightarrow>
              if offset \<noteq> length data then Err (errorsNew ''kvlite: trailing list data'')
              else Ok items
          | Err e \<Rightarrow> Err e
          | Panic p \<Rightarrow> Panic p))"

definition normalizeRange :: "int \<Rightarrow> int \<Rightarrow> int \<Rightarrow> int \<times> int \<times> bool" where
  "normalizeRange len start stop =
     (let start = (if start < 0 then len + start else start);
          stop = (if stop < 0 then len + stop else stop);
          start = (if start < 0 then 0 else start);
          stop = (if stop \<ge> len then len - 1 else stop)
      in (start, stop, len > 0 \<and> start < len \<and> stop \<ge> start))"

section \<open>Round trips\<close>

definition listOk :: "bytes list \<Rightarrow> bool" where
  "listOk items \<longleftrightarrow> length items < 2 ^ 32 \<and> (\<forall>item \<in> set items. length item < 2 ^ 32)"

lemma unat_of_nat_32 [simp]: "n < 2 ^ 32 \<Longrightarrow> unat (of_nat n :: 32 word) = n"
  by (simp add: unat_of_nat)

lemma length_encodeItem [simp]: "length (encodeItem i) = 4 + length i"
  by (simp add: encodeItem_def)

lemma decodeListLoop_encode:
  assumes "\<forall>i \<in> set items. length i < 2 ^ 32"
  shows "decodeListLoop (pre @ concat (map encodeItem items)) (length items) (length pre) acc
     = Ok (length pre + length (concat (map encodeItem items)), acc @ items)"
  using assms
proof (induction items arbitrary: pre acc)
  case (Cons i items)
  from Cons.prems have len: "length i < 2 ^ 32" by simp
  show ?case
    using Cons.IH [of "pre @ encodeItem i" "acc @ [i]"] Cons.prems len
    by (simp add: encodeItem_def Let_def add.assoc)
qed simp

lemma length_concat_encodeItem: "4 * length items \<le> length (concat (map encodeItem items))"
  by (induction items) simp_all

lemma decodeList_encodeList: "listOk items \<Longrightarrow> decodeList (encodeList items) = Ok items"
proof -
  assume ok: "listOk items"
  let ?n = "PutUint32 (of_nat (length items))"
  have "decodeListLoop (encodeList items) (length items) 4 []
      = Ok (length (encodeList items), items)"
    using decodeListLoop_encode [of items ?n "[]"] ok
    by (simp add: encodeList_def listOk_def)
  moreover have "length items \<le> (length (encodeList items) - 4) div 4"
    using length_concat_encodeItem [of items] by (simp add: encodeList_def)
  ultimately show ?thesis
    using ok by (simp add: decodeList_def listOk_def) (simp add: encodeList_def)
qed

lemma decodeListLoop_Ok:
  assumes "decodeListLoop data n off acc = Ok (off', items)" and "off \<le> length data"
  shows "\<exists>new. items = acc @ new \<and> length new = n \<and> off' \<le> length data \<and>
     take off' data = take off data @ concat (map encodeItem new) \<and>
     (\<forall>i \<in> set new. length i < 2 ^ 32)"
  using assms
proof (induction n arbitrary: off acc)
  case (Suc n)
  let ?w = "Uint32 (take 4 (drop off data))"
  let ?i = "take (unat ?w) (drop (off + 4) data)"
  from Suc.prems have bounds: "off + 4 + unat ?w \<le> length data"
    and rec: "decodeListLoop data n (off + 4 + unat ?w) (acc @ [?i]) = Ok (off', items)"
    by (auto simp: Let_def split: if_splits)
  from Suc.IH [OF rec bounds] obtain new where
    new: "items = (acc @ [?i]) @ new" "length new = n" "off' \<le> length data"
      "take off' data = take (off + 4 + unat ?w) data @ concat (map encodeItem new)"
      "\<forall>i \<in> set new. length i < 2 ^ 32" by blast
  have len: "length ?i = unat ?w" using bounds by simp
  have "PutUint32 ?w = take 4 (drop off data)"
    using bounds by (simp add: PutUint32_Uint32)
  then have "encodeItem ?i = take (4 + unat ?w) (drop off data)"
    unfolding encodeItem_def len by (simp add: take_add add.commute)
  then have "take (off + 4 + unat ?w) data = take off data @ encodeItem ?i"
    by (simp add: take_add add.assoc)
  moreover have "unat ?w < 2 ^ 32"
    using unsigned_less [of ?w, where 'a = nat] by simp
  ultimately show ?case
    using new len by (intro exI [of _ "?i # new"]) auto
qed simp

lemma decodeList_sound:
  assumes ok: "decodeList data = Ok items"
  shows "encodeList items = data" "listOk items"
proof -
  let ?c = "unat (Uint32 (take 4 data))"
  from ok have len: "4 \<le> length data"
    and loop: "decodeListLoop data ?c 4 [] = Ok (length data, items)"
    by (auto simp: decodeList_def Let_def split: if_splits res.splits)
  from decodeListLoop_Ok [OF loop len] have n: "length items = ?c"
    and enc: "data = take 4 data @ concat (map encodeItem items)"
    and small: "\<forall>i \<in> set items. length i < 2 ^ 32" by auto
  have "PutUint32 (of_nat (length items)) = take 4 data"
    using len by (simp add: n PutUint32_Uint32)
  with enc show "encodeList items = data" by (simp add: encodeList_def)
  have "?c < 2 ^ 32"
    using unsigned_less [of "Uint32 (take 4 data)", where 'a = nat] by simp
  with n small show "listOk items" by (simp add: listOk_def)
qed

text \<open>
  C6. \<open>decodeList\<close> is a two-sided inverse of \<open>encodeList\<close>: a list whose length and items fit
  their 32-bit length fields decodes to itself, and any bytes that \<open>decodeList\<close> accepts are the
  encoding of what it returns, with nothing missing and nothing left over.
\<close>

theorem list_codec_inverse:
  "(listOk items \<longrightarrow> decodeList (encodeList items) = Ok items) \<and>
   (decodeList data = Ok items' \<longrightarrow> encodeList items' = data \<and> listOk items')"
  using decodeList_encodeList decodeList_sound by blast

theorem list_codec_inverse_witness:
  "decodeList (encodeList [''a'', '''', ''bc'']) = Ok [''a'', '''', ''bc'']"
  using list_codec_inverse [of "[''a'', '''', ''bc'']"] by (simp add: listOk_def)

section \<open>Index ranges\<close>

lemma normalizeRange_alt:
  "normalizeRange len start stop =
     (let lo = max 0 (if start < 0 then len + start else start);
          hi = min (len - 1) (if stop < 0 then len + stop else stop)
      in (lo, hi, 0 < len \<and> lo < len \<and> lo \<le> hi))"
  by (simp add: normalizeRange_def Let_def max_def min_def) auto

text \<open>
  C7. \<open>normalizeRange\<close> selects exactly the elements whose index lies between the two bounds once
  a negative bound is counted from the end, and whenever it reports a non-empty range both indices
  are valid, so the slice expression that uses them cannot panic.
\<close>

theorem normalizeRange_selects:
  assumes "normalizeRange len start stop = (lo, hi, ok)" and "0 \<le> len"
  shows "(ok \<longrightarrow> 0 \<le> lo \<and> lo \<le> hi \<and> hi < len) \<and>
    (\<forall>i. 0 \<le> i \<and> i < len \<longrightarrow>
      ((ok \<and> lo \<le> i \<and> i \<le> hi) \<longleftrightarrow>
        (if start < 0 then len + start else start) \<le> i \<and>
        i \<le> (if stop < 0 then len + stop else stop)))"
proof -
  define a where "a = (if start < 0 then len + start else start)"
  define b where "b = (if stop < 0 then len + stop else stop)"
  from assms(1) have lo: "lo = max 0 a" and hi: "hi = min (len - 1) b"
    and ok: "ok \<longleftrightarrow> 0 < len \<and> lo < len \<and> lo \<le> hi"
    unfolding normalizeRange_alt a_def b_def Let_def by auto
  show ?thesis
    unfolding a_def [symmetric] b_def [symmetric] ok lo hi using assms(2) by auto
qed

theorem normalizeRange_selects_witness:
  "\<exists>lo hi. normalizeRange 5 (- 3) 100 = (lo, hi, True) \<and> 0 \<le> lo \<and> hi < 5 \<and> lo \<le> 2 \<and> 4 \<le> hi"
proof -
  have "normalizeRange 5 (- 3) 100 = (2, 4, True)" by (simp add: normalizeRange_def)
  from normalizeRange_selects [OF this] this show ?thesis by auto
qed

end
