(* ===== verification/Collections.thy ===== *)
theory Collections
  imports DB ListFormat
begin

text \<open>
  Hashes, sets and lists of \<open>collections.go\<close>. A method with results \<open>(int, error)\<close> or
  \<open>([]string, error)\<close> that may return a partial result together with an error returns the pair.
\<close>

section \<open>Hashes\<close>

definition HSet ::
  "ctx \<Rightarrow> bytes \<Rightarrow> bytes \<Rightarrow> 'v any \<Rightarrow> PutOption option list \<Rightarrow> (('s, 'v) DB, unit) op" where
  "HSet ctx name field value options =
     (if name = [] \<or> field = []
      then throw (errorfIs ErrInvalidArgument ''hash name and field are required'')
      else DB_put ctx (namespacedKey kindHash name field) value options)"

definition HGet :: "ctx \<Rightarrow> bytes \<Rightarrow> bytes \<Rightarrow> 'v target \<Rightarrow> (('s, 'v) DB, 'v any) op" where
  "HGet ctx name field target = DB_get ctx (namespacedKey kindHash name field) target"

text \<open>The loops of \<open>HDelete\<close> and \<open>SRemove\<close>, and of \<open>SAdd\<close>, over storage keys.\<close>

primrec removeLoop :: "ctx \<Rightarrow> bytes list \<Rightarrow> int \<Rightarrow> (('s, 'v) DB, int \<times> goerror option) op" where
  "removeLoop ctx [] removed = ret (removed, None)"
| "removeLoop ctx (key # keys) removed =
     bindE (tryE (onEngine (guarded_Get ctx key))) (\<lambda>r.
       case r of
         Inl e \<Rightarrow> ret (removed, Some e)
       | Inr None \<Rightarrow> removeLoop ctx keys removed
       | Inr (Some _) \<Rightarrow>
           bindE (tryE (onEngine (guarded_Delete ctx key))) (\<lambda>d.
             case d of
               Inl e \<Rightarrow> ret (removed, Some e)
             | Inr _ \<Rightarrow> removeLoop ctx keys (removed + 1)))"

primrec addLoop :: "ctx \<Rightarrow> bytes list \<Rightarrow> int \<Rightarrow> (('s, 'v) DB, int \<times> goerror option) op" where
  "addLoop ctx [] added = ret (added, None)"
| "addLoop ctx (key # keys) added =
     bindE (tryE (onEngine (guarded_Get ctx key))) (\<lambda>r.
       case r of
         Inl e \<Rightarrow> ret (added, Some e)
       | Inr (Some _) \<Rightarrow> addLoop ctx keys added
       | Inr None \<Rightarrow>
           bindE (tryE (onEngine (guarded_Put ctx key [CHR 0x01]))) (\<lambda>d.
             case d of
               Inl e \<Rightarrow> ret (added, Some e)
             | Inr _ \<Rightarrow> addLoop ctx keys (added + 1)))"

text \<open>
  \<open>n, err := remote(); if !errors.Is(err, unsupported) { return n, err }\<close>, then the local code.
\<close>

definition ownerSide ::
  "sentinel \<Rightarrow> ('s guardedEngine, int \<times> goerror option) op \<Rightarrow>
   (('s, 'v) DB, int \<times> goerror option) op \<Rightarrow> (('s, 'v) DB, int \<times> goerror option) op" where
  "ownerSide unsupported remote local =
     bindE (onEngine remote) (\<lambda>r.
       case r of
         (n, None) \<Rightarrow> ret (n, None)
       | (n, Some e) \<Rightarrow> if errors_Is e unsupported then local else ret (n, Some e))"

text \<open>\<open>if err := db.ensureOpen(); err != nil { return zero, err }\<close>\<close>

definition whenOpen ::
  "'a \<Rightarrow> (('s, 'v) DB, 'a \<times> goerror option) op \<Rightarrow> (('s, 'v) DB, 'a \<times> goerror option) op" where
  "whenOpen zero m db =
     (if db_closed db then (Ok (zero, Some (sentinelErr ErrClosed)), db) else m db)"

definition HDelete :: "ctx \<Rightarrow> bytes \<Rightarrow> bytes list \<Rightarrow> (('s, 'v) DB, int \<times> goerror option) op" where
  "HDelete ctx name flds = whenOpen 0
     (ownerSide ErrAtomicHashDeleteUnsupported (guarded_DeleteHashFields ctx name flds)
       (removeLoop ctx (map (namespacedKey kindHash name) flds) 0))"

definition hGetAllCallback ::
  "bool \<Rightarrow> 'v any \<Rightarrow> nat \<Rightarrow> (bytes \<Rightarrow> 'v any option) \<times> bytes list \<Rightarrow> bytes \<Rightarrow> bytes \<Rightarrow>
   (('s, 'v) DB, (bytes \<Rightarrow> 'v any option) \<times> bytes list) op" where
  "hGetAllCallback plainKey zero prefixLen acc key data =
     bindE (tryE (decode data (TPtr zero))) (\<lambda>r.
       case r of
         Inr v \<Rightarrow>
           if plainKey then ret ((fst acc)(drop prefixLen key \<mapsto> v), snd acc)
           else panic ''reflect.Value.SetMapIndex: value of type string is not assignable''
       | Inl e \<Rightarrow>
           if errors_Is e ErrNotFound then ret (fst acc, snd acc @ [key]) else throw e)"

definition HGetAll :: "ctx \<Rightarrow> bytes \<Rightarrow> 'v target \<Rightarrow> (('s, 'v) DB, bytes \<Rightarrow> 'v any option) op" where
  "HGetAll ctx name target =
     bindE ensureOpen (\<lambda>_.
       case target of
         TMapPtr plainKey zero \<Rightarrow>
           bindE (engineScan ctx (namespacePrefix kindHash name)
                   (hGetAllCallback plainKey zero (length (namespacePrefix kindHash name)))
                   (Map.empty, [])) (\<lambda>r.
             case r of
               (acc, Some e) \<Rightarrow> throw e
             | ((result, expired), None) \<Rightarrow>
                 bindE (foldE (\<lambda>k _. ignoreE (onEngine (guarded_Delete ctx k))) expired ())
                   (\<lambda>_. ret result))
       | _ \<Rightarrow> throw (errorfIs ErrInvalidArgument
                ''HGetAll target must be a non-nil pointer to map[string]T''))"

section \<open>Sets\<close>

definition SAdd :: "ctx \<Rightarrow> bytes \<Rightarrow> bytes list \<Rightarrow> (('s, 'v) DB, int \<times> goerror option) op" where
  "SAdd ctx name members = whenOpen 0
     (ownerSide ErrAtomicSetAddUnsupported (guarded_AddSet ctx name members)
       (addLoop ctx (map (namespacedKey kindSet name) members) 0))"

definition SRemove :: "ctx \<Rightarrow> bytes \<Rightarrow> bytes list \<Rightarrow> (('s, 'v) DB, int \<times> goerror option) op" where
  "SRemove ctx name members = whenOpen 0
     (ownerSide ErrAtomicSetRemoveUnsupported (guarded_RemoveSet ctx name members)
       (removeLoop ctx (map (namespacedKey kindSet name) members) 0))"

definition SContains :: "ctx \<Rightarrow> bytes \<Rightarrow> bytes \<Rightarrow> (('s, 'v) DB, bool) op" where
  "SContains ctx name member =
     bindE ensureOpen (\<lambda>_.
     bindE (onEngine (guarded_Get ctx (namespacedKey kindSet name member))) (\<lambda>r.
       ret (r \<noteq> None)))"

definition SMembers :: "ctx \<Rightarrow> bytes \<Rightarrow> (('s, 'v) DB, bytes list \<times> goerror option) op" where
  "SMembers ctx name = whenOpen []
     (bindE (engineScan ctx (namespacePrefix kindSet name)
              (\<lambda>acc key _. ret (acc @ [drop (length (namespacePrefix kindSet name)) key])) [])
       (\<lambda>r. ret (sort (fst r), snd r)))"

section \<open>Lists\<close>

definition readList :: "ctx \<Rightarrow> bytes \<Rightarrow> (('s, 'v) DB, bytes list) op" where
  "readList ctx key =
     bindE (onEngine (guarded_Get ctx key)) (\<lambda>r.
       case r of None \<Rightarrow> ret [] | Some data \<Rightarrow> liftR (decodeList data))"

definition writeList :: "ctx \<Rightarrow> bytes \<Rightarrow> bytes list \<Rightarrow> (('s, 'v) DB, unit) op" where
  "writeList ctx key items = onEngine (guarded_Put ctx key (encodeList items))"

text \<open>\<open>return 0, err\<close> where an operation fails.\<close>

definition zeroOnErr :: "(('s, 'v) DB, int) op \<Rightarrow> (('s, 'v) DB, int \<times> goerror option) op" where
  "zeroOnErr m = bindE (tryE m) (\<lambda>r. case r of
      Inl e \<Rightarrow> ret (0, Some e)
    | Inr n \<Rightarrow> ret (n, None))"

definition pushEncodedList ::
  "ctx \<Rightarrow> bytes \<Rightarrow> bytes list \<Rightarrow> bool \<Rightarrow> (('s, 'v) DB, int \<times> goerror option) op" where
  "pushEncodedList ctx key encoded left =
     ownerSide ErrAtomicListPushUnsupported (guarded_PushList ctx key encoded left)
       (zeroOnErr (bindE (readList ctx key) (\<lambda>items.
          let items = (if left then encoded @ items else items @ encoded) in
          bindE (writeList ctx key items) (\<lambda>_. ret (int (length items))))))"

primrec encodeItems :: "'v Codec \<Rightarrow> 'v any list \<Rightarrow> bytes list res" where
  "encodeItems codec [] = Ok []"
| "encodeItems codec (value # values) = (case codec_Marshal codec value of
      Err e \<Rightarrow> Err e
    | Panic p \<Rightarrow> Panic p
    | Ok payload \<Rightarrow> (case marshalEnvelope (codec_Name codec) payload 0 of
          Err e \<Rightarrow> Err e
        | Panic p \<Rightarrow> Panic p
        | Ok item \<Rightarrow> (case encodeItems codec values of
              Err e \<Rightarrow> Err e
            | Panic p \<Rightarrow> Panic p
            | Ok items \<Rightarrow> Ok (item # items))))"

definition DB_push ::
  "ctx \<Rightarrow> bytes \<Rightarrow> bool \<Rightarrow> 'v any list \<Rightarrow> (('s, 'v) DB, int \<times> goerror option) op" where
  "DB_push ctx name left values = whenOpen 0 (\<lambda>db.
     case encodeItems (cfg_codec (db_cfg db)) values of
       Err e \<Rightarrow> (Ok (0, Some e), db)
     | Panic p \<Rightarrow> (Panic p, db)
     | Ok encoded \<Rightarrow> pushEncodedList ctx (listKey name) encoded left db)"

definition RPush :: "ctx \<Rightarrow> bytes \<Rightarrow> 'v any list \<Rightarrow> (('s, 'v) DB, int \<times> goerror option) op" where
  "RPush ctx name values = DB_push ctx name False values"

definition LPush :: "ctx \<Rightarrow> bytes \<Rightarrow> 'v any list \<Rightarrow> (('s, 'v) DB, int \<times> goerror option) op" where
  "LPush ctx name values = DB_push ctx name True values"

text \<open>\<open>xs[lo : hi+1]\<close> for a range that \<open>normalizeRange\<close> reported valid.\<close>

definition slice :: "'a list \<Rightarrow> int \<Rightarrow> int \<Rightarrow> 'a list" where
  "slice xs lo hi = take (nat (hi + 1 - lo)) (drop (nat lo) xs)"

definition sliceElem :: "'v target \<Rightarrow> 'v any option" where
  "sliceElem target = (case target of
      TSlicePtr zero \<Rightarrow> Some zero
    | TPtr (ABytes _) \<Rightarrow> Some (AByte CHR 0x00)
    | _ \<Rightarrow> None)"

definition LRange :: "ctx \<Rightarrow> bytes \<Rightarrow> int \<Rightarrow> int \<Rightarrow> 'v target \<Rightarrow> (('s, 'v) DB, 'v any list) op" where
  "LRange ctx name start stop target =
     bindE ensureOpen (\<lambda>_.
       case sliceElem target of
         None \<Rightarrow> throw (errorfIs ErrInvalidArgument
                   ''LRange target must be a non-nil pointer to []T'')
       | Some zero \<Rightarrow>
           bindE (readList ctx (listKey name)) (\<lambda>items.
             case normalizeRange (int (length items)) start stop of
               (lo, hi, True) \<Rightarrow>
                 foldE (\<lambda>item result. bindE (decode item (TPtr zero)) (\<lambda>v. ret (result @ [v])))
                   (slice items lo hi) []
             | (lo, hi, False) \<Rightarrow> ret []))"

end
