(* ===== verification/Transport.thy ===== *)
theory Transport
  imports Collections
begin

text \<open>
  The record stores of \<open>transport.go\<close> that protocol extensions use. \<open>dbTransport\<close> and \<open>dbProtocol\<close>
  hold nothing but the handle, so their methods are operations on it. \<open>Lock\<close> and \<open>Unlock\<close> bracket
  one command and have no counterpart in the model of a single command.
\<close>

section \<open>The transport store\<close>

definition dbTransport_Get :: "ctx \<Rightarrow> bytes \<Rightarrow> (('s, 'v) DB, bytes option) op" where
  "dbTransport_Get ctx key = bindE ensureOpen (\<lambda>_. onEngine (guarded_Get ctx key))"

definition dbTransport_Put :: "ctx \<Rightarrow> bytes \<Rightarrow> bytes \<Rightarrow> (('s, 'v) DB, unit) op" where
  "dbTransport_Put ctx key value = bindE ensureOpen (\<lambda>_. onEngine (guarded_Put ctx key value))"

definition dbTransport_Delete :: "ctx \<Rightarrow> bytes \<Rightarrow> (('s, 'v) DB, unit) op" where
  "dbTransport_Delete ctx key = bindE ensureOpen (\<lambda>_. onEngine (guarded_Delete ctx key))"

definition dbTransport_ScanPrefix ::
  "ctx \<Rightarrow> bytes \<Rightarrow> ('a \<Rightarrow> bytes \<Rightarrow> bytes \<Rightarrow> (('s, 'v) DB, 'a) op) \<Rightarrow>
   'a \<Rightarrow> (('s, 'v) DB, 'a \<times> goerror option) op" where
  "dbTransport_ScanPrefix ctx prfx callback acc = whenOpen acc (engineScan ctx prfx callback acc)"

definition dbTransport_PushList ::
  "ctx \<Rightarrow> bytes \<Rightarrow> bytes list \<Rightarrow> bool \<Rightarrow> (('s, 'v) DB, int \<times> goerror option) op" where
  "dbTransport_PushList ctx key items left = whenOpen 0 (pushEncodedList ctx key items left)"

section \<open>The protocol store\<close>

definition dbProtocol_Get :: "ctx \<Rightarrow> bytes \<Rightarrow> (('s, 'v) DB, bytes option) op" where
  "dbProtocol_Get ctx key = dbTransport_Get ctx key"

definition dbProtocol_Put :: "ctx \<Rightarrow> bytes \<Rightarrow> bytes \<Rightarrow> (('s, 'v) DB, unit) op" where
  "dbProtocol_Put ctx key value = dbTransport_Put ctx key value"

definition dbProtocol_Delete :: "ctx \<Rightarrow> bytes \<Rightarrow> (('s, 'v) DB, unit) op" where
  "dbProtocol_Delete ctx key = dbTransport_Delete ctx key"

definition dbProtocol_ScanPrefix ::
  "ctx \<Rightarrow> bytes \<Rightarrow> ('a \<Rightarrow> bytes \<Rightarrow> bytes \<Rightarrow> (('s, 'v) DB, 'a) op) \<Rightarrow>
   'a \<Rightarrow> (('s, 'v) DB, 'a \<times> goerror option) op" where
  "dbProtocol_ScanPrefix ctx prfx callback acc = dbTransport_ScanPrefix ctx prfx callback acc"

definition dbProtocol_PushList ::
  "ctx \<Rightarrow> bytes \<Rightarrow> bytes list \<Rightarrow> bool \<Rightarrow> (('s, 'v) DB, int \<times> goerror option) op" where
  "dbProtocol_PushList ctx key items left = dbTransport_PushList ctx key items left"

definition dbProtocol_Now :: "(('s, 'v) DB, time) op" where
  "dbProtocol_Now = db_now"

definition dbProtocol_DeleteLogicalKey :: "ctx \<Rightarrow> bytes \<Rightarrow> (('s, 'v) DB, bool) op" where
  "dbProtocol_DeleteLogicalKey ctx key = bindE ensureOpen (\<lambda>_. deleteLogicalKey ctx key)"

definition dbProtocol_ValueKey :: "bytes \<Rightarrow> bytes" where
  "dbProtocol_ValueKey key = valueKey key"

definition dbProtocol_HashKey :: "bytes \<Rightarrow> bytes \<Rightarrow> bytes" where
  "dbProtocol_HashKey name field = namespacedKey kindHash name field"

definition dbProtocol_HashPrefix :: "bytes \<Rightarrow> bytes" where
  "dbProtocol_HashPrefix name = namespacePrefix kindHash name"

definition dbProtocol_SetKey :: "bytes \<Rightarrow> bytes \<Rightarrow> bytes" where
  "dbProtocol_SetKey name member = namespacedKey kindSet name member"

definition dbProtocol_SetPrefix :: "bytes \<Rightarrow> bytes" where
  "dbProtocol_SetPrefix name = namespacePrefix kindSet name"

definition dbProtocol_ListKey :: "bytes \<Rightarrow> bytes" where
  "dbProtocol_ListKey name = listKey name"

definition dbProtocol_CollectionTTLKey :: "bytes \<Rightarrow> bytes" where
  "dbProtocol_CollectionTTLKey name = collectionTTLKey name"

definition dbProtocol_LogicalKey :: "bytes \<Rightarrow> bytes option" where
  "dbProtocol_LogicalKey storageKey = logicalKeyFromStorage storageKey"

definition dbProtocol_EncodeRecord :: "bytes \<Rightarrow> bytes \<Rightarrow> int \<Rightarrow> bytes res" where
  "dbProtocol_EncodeRecord codec payload expiresAt = marshalEnvelope codec payload expiresAt"

definition dbProtocol_DecodeRecord :: "bytes \<Rightarrow> StoredValue res" where
  "dbProtocol_DecodeRecord data = (case unmarshalEnvelope data of
      Err e \<Rightarrow> Err e
    | Panic p \<Rightarrow> Panic p
    | Ok value \<Rightarrow> Ok \<lparr>sv_Codec = env_codec value, sv_Payload = env_payload value,
                       sv_ExpiresAt = env_expiresAt value\<rparr>)"

definition dbProtocol_EncodeList :: "bytes list \<Rightarrow> bytes" where
  "dbProtocol_EncodeList items = encodeList items"

definition dbProtocol_DecodeList :: "bytes \<Rightarrow> bytes list res" where
  "dbProtocol_DecodeList data = decodeList data"

lemmas protocol_keys [simp] =
  dbProtocol_ValueKey_def dbProtocol_HashKey_def dbProtocol_HashPrefix_def dbProtocol_SetKey_def
  dbProtocol_SetPrefix_def dbProtocol_ListKey_def dbProtocol_CollectionTTLKey_def
  dbProtocol_LogicalKey_def

end
