(* ===== verification/HandleProps.thy ===== *)
theory HandleProps
  imports DBProps Transport
begin

text \<open>
  Properties of a handle that hold for any driver or need a failing one: a closed handle rejects
  every call, and what a \<open>Put\<close> leaves behind when it fails.
\<close>

section \<open>Closed handles\<close>

text \<open>
  The two forms of a refused call: an error, or for methods with a result beside the error, the zero
  value with the error. The handle, and the driver in it, are as before.
\<close>

definition refuses :: "(('s, 'v) DB, 'a) op \<Rightarrow> ('s, 'v) DB \<Rightarrow> bool" where
  "refuses m db \<longleftrightarrow> m db = (Err (sentinelErr ErrClosed), db)"

definition refusesWith :: "'a \<Rightarrow> (('s, 'v) DB, 'a \<times> goerror option) op \<Rightarrow> ('s, 'v) DB \<Rightarrow> bool" where
  "refusesWith zero m db \<longleftrightarrow> m db = (Ok (zero, Some (sentinelErr ErrClosed)), db)"

lemma refuses_ensureOpen: "db_closed db \<Longrightarrow> refuses (bindE ensureOpen f) db"
  by (simp add: refuses_def bindE_def ensureOpen_def)

lemma refusesWith_whenOpen: "db_closed db \<Longrightarrow> refusesWith zero (whenOpen zero m) db"
  by (simp add: refusesWith_def whenOpen_def)

lemma refuses_bindE: "refuses m db \<Longrightarrow> refuses (bindE m f) db"
  by (simp add: refuses_def bindE_def)

lemma DB_Close_closes: "DB_Close db = (r, db') \<Longrightarrow> db_closed db'"
  by (auto simp: DB_Close_def onEngine_def split: if_splits prod.splits)

text \<open>
  C11. Once a handle is closed, whatever the driver and whatever its \<open>Close\<close> returned, every method
  that reads or writes records reports \<open>ErrClosed\<close> and leaves handle and driver untouched: the scalar
  methods, hashes, sets and lists, and the stores that transports and protocols use. Keys, codec and
  field names are not empty, which is checked first. Closing again succeeds and does nothing.
\<close>

theorem closed_handle_rejects:
  assumes "DB_Close db = (r, db')" "key \<noteq> []" "codec \<noteq> []" "field \<noteq> []"
  shows "refuses (DB_Put ctx key v opts) db' \<and> refuses (PutStoredValue ctx key codec value opts) db' \<and>
    refuses (PutBytes ctx key value opts) db' \<and> refuses (DB_Get ctx key target) db' \<and>
    refuses (GetStoredValue ctx key) db' \<and> refuses (GetBytes ctx key) db' \<and>
    refuses (Has ctx key) db' \<and> refuses (DB_Delete ctx key) db' \<and>
    refuses (HSet ctx key field v opts) db' \<and> refuses (HGet ctx name field2 target) db' \<and>
    refusesWith 0 (HDelete ctx name flds) db' \<and> refuses (HGetAll ctx name target) db' \<and>
    refusesWith 0 (SAdd ctx name members) db' \<and> refusesWith 0 (SRemove ctx name members) db' \<and>
    refuses (SContains ctx name member) db' \<and> refusesWith [] (SMembers ctx name) db' \<and>
    refusesWith 0 (RPush ctx name values) db' \<and> refusesWith 0 (LPush ctx name values) db' \<and>
    refuses (LRange ctx name start stop target) db' \<and>
    refuses (dbTransport_Get ctx sk) db' \<and> refuses (dbTransport_Put ctx sk value) db' \<and>
    refuses (dbTransport_Delete ctx sk) db' \<and> refusesWith acc (dbTransport_ScanPrefix ctx sk callback acc) db' \<and>
    refusesWith 0 (dbTransport_PushList ctx sk items left) db' \<and>
    refuses (dbProtocol_Get ctx sk) db' \<and> refuses (dbProtocol_Put ctx sk value) db' \<and>
    refuses (dbProtocol_Delete ctx sk) db' \<and> refusesWith acc (dbProtocol_ScanPrefix ctx sk callback acc) db' \<and>
    refusesWith 0 (dbProtocol_PushList ctx sk items left) db' \<and> refuses (dbProtocol_DeleteLogicalKey ctx name) db' \<and>
    DB_Close db' = (Ok (), db')"
proof -
  have closed: "db_closed db'" using assms(1) by (rule DB_Close_closes)
  note [simp] = refuses_ensureOpen [OF closed] refusesWith_whenOpen [OF closed]
  show ?thesis
  proof (intro conjI)
    show "refuses (HSet ctx key field v opts) db'" using assms(2,4) by (simp add: HSet_def DB_put_def)
    show "refuses (DB_Get ctx key target) db'" using assms(2) by (simp add: DB_Get_def DB_get_def)
    show "refuses (GetBytes ctx key) db'" unfolding GetBytes_def using assms(2)
      by (intro refuses_bindE) (simp add: GetStoredValue_def)
    show "DB_Close db' = (Ok (), db')" using closed by (simp add: DB_Close_def)
  qed (use assms(2,3) in \<open>simp_all add: DB_Put_def PutStoredValue_def PutBytes_def bytesCodecName_def GetStoredValue_def
      Has_def DB_Delete_def HGet_def DB_get_def HDelete_def HGetAll_def SAdd_def SRemove_def SContains_def SMembers_def
      RPush_def LPush_def DB_push_def LRange_def dbTransport_Get_def dbTransport_Put_def dbTransport_Delete_def
      dbTransport_ScanPrefix_def dbTransport_PushList_def dbProtocol_Get_def dbProtocol_Put_def dbProtocol_Delete_def
      dbProtocol_ScanPrefix_def dbProtocol_PushList_def dbProtocol_DeleteLogicalKey_def\<close>)
qed

theorem closed_handle_rejects_witness:
  "let db' = snd (DB_Close (memDB [(valueKey ''k'', ''v'')])) in
   DB_Get Background ''k'' TNil db' = (Err (sentinelErr ErrClosed), db') \<and>
   SAdd Background ''k'' [''m''] db' = (Ok (0, Some (sentinelErr ErrClosed)), db')"
proof -
  let ?db = "memDB [(valueKey ''k'', ''v'')]"
  have "DB_Close ?db = (fst (DB_Close ?db), snd (DB_Close ?db))" by simp
  note all = closed_handle_rejects [OF this, of "''k''" "''c''" "''f''", unfolded refuses_def refusesWith_def]
  show ?thesis unfolding Let_def by (simp only: all list.distinct simp_thms)
qed

section \<open>Failing writes\<close>

lemma encodeValue_engine:
  "encodeValue v opts db = (r, db1) \<Longrightarrow> db_engine db1 = db_engine db \<and> db_closed db1 = db_closed db"
  by (auto simp: encodeValue_def bindE_def liftR_def expiryFor_def db_now_def ret_def split: res.splits if_splits)

text \<open>
  C10. On the memory driver, with a context that stays live, a \<open>Put\<close> that returns an error has left
  the driver exactly as it was, whatever the clock does: there a write can only fail before its first
  change, in the key, the options, the codec or the envelope. With a driver whose writes fail this is
  not so, as the next property of this theory shows.
\<close>

theorem put_error_keeps_store:
  assumes "memOpen db" "DB_Put Background key v opts db = (Err e, db')"
  shows "db_engine db' = db_engine db"
proof -
  obtain r1 db1 where enc: "encodeValue v opts db = (r1, db1)" by fastforce
  note frame = encodeValue_engine [OF enc]
  then have ok: "mem.dbOk db1" using assms(1) by (simp add: memOpen_dbOk memOpen_def)
  show ?thesis
  proof (cases "key = []")
    case True
    with assms(2) show ?thesis by (simp add: DB_Put_def throw_def)
  next
    case False
    have "\<not> db_closed db" using assms(1) by (simp add: memOpen_def)
    with assms(2) ok enc frame False show ?thesis
      by (cases r1) (auto simp: DB_Put_def ensureOpen_def bindE_def op_simps)
  qed
qed

theorem put_error_keeps_store_witness:
  "db_engine (snd (DB_Put Background ''k'' (AByte CHR ''x'') [] (memDB [(valueKey ''k'', ''o'')])))
   = db_engine (memDB [(valueKey ''k'', ''o'')])"
proof -
  let ?r = "DB_Put Background ''k'' (AByte CHR ''x'') [] (memDB [(valueKey ''k'', ''o'')])"
  have "\<exists>e. fst ?r = Err e"
    by (simp add: DB_Put_def encodeValue_def bindE_def liftR_def op_simps memOpen_dbOk
        BytesCodec_def BytesCodec_Marshal_def)
  then obtain e where "?r = (Err e, snd ?r)" by (metis prod.collapse)
  from put_error_keeps_store [OF _ this] show ?thesis by simp
qed

text \<open>
  A driver that works like the memory driver but fails to write some records, as one does whose disk
  is full.
\<close>

definition failingPuts :: "(bytes \<Rightarrow> bytes \<Rightarrow> goerror option) \<Rightarrow> memoryDriverEngine Engine" where
  "failingPuts bad = memoryDriver\<lparr>eng_Put := (\<lambda>ctx key value s.
     case bad key value of Some e \<Rightarrow> (Err e, s) | None \<Rightarrow> mem_Put ctx key value s)\<rparr>"

definition onDriver :: "'s Engine \<Rightarrow> ('s, 'v) DB \<Rightarrow> ('s, 'v) DB" where
  "onDriver E db = db\<lparr>db_engine := (db_engine db)\<lparr>g_inner := E\<rparr>\<rparr>"

text \<open>
  An operation that does not write records does on this driver what it does on the memory driver.
\<close>

definition sameOn :: "'s Engine \<Rightarrow> 's Engine \<Rightarrow> (('s, 'v) DB, 'a) op \<Rightarrow> bool" where
  "sameOn E E0 m \<longleftrightarrow> (\<forall>db. m (onDriver E db) = apsnd (onDriver E) (m (onDriver E0 db)) \<and>
     snd (m (onDriver E0 db)) = onDriver E0 (snd (m (onDriver E0 db))))"

lemma onDriver_simps [simp]:
  "db_engine (onDriver E db) = (db_engine db)\<lparr>g_inner := E\<rparr>" "db_closed (onDriver E db) = db_closed db"
  "db_cfg (onDriver E db) = db_cfg db" "onDriver E (onDriver E0 db) = onDriver E db"
  by (simp_all add: onDriver_def)

lemma onDriver_self: "g_inner (db_engine db) = E \<Longrightarrow> onDriver E db = db"
  by (simp add: onDriver_def)

lemma sameOnI:
  assumes "\<And>db. \<exists>r db'. m (onDriver E0 db) = (r, onDriver E0 db') \<and> m (onDriver E db) = (r, onDriver E db')"
  shows "sameOn E E0 m"
  unfolding sameOn_def
proof
  fix db
  from assms [of db] obtain r db' where "m (onDriver E0 db) = (r, onDriver E0 db')" "m (onDriver E db) = (r, onDriver E db')" by blast
  then show "m (onDriver E db) = apsnd (onDriver E) (m (onDriver E0 db)) \<and> snd (m (onDriver E0 db)) = onDriver E0 (snd (m (onDriver E0 db)))"
    by simp
qed

lemma sameOnE:
  assumes "sameOn E E0 m"
  obtains r db' where "m (onDriver E0 db) = (r, onDriver E0 db')" "m (onDriver E db) = (r, onDriver E db')"
proof
  let ?d = "snd (m (onDriver E0 db))"
  have d: "m (onDriver E db) = apsnd (onDriver E) (m (onDriver E0 db))" "?d = onDriver E0 ?d"
    using assms unfolding sameOn_def by blast+
  show "m (onDriver E0 db) = (fst (m (onDriver E0 db)), onDriver E0 ?d)" using d(2) by (simp add: prod_eq_iff)
  show "m (onDriver E db) = (fst (m (onDriver E0 db)), onDriver E ?d)" using d(1) by (simp add: prod_eq_iff)
qed

lemma sameOn_ret: "sameOn E E0 (ret x)" and sameOn_throw: "sameOn E E0 (throw e)"
  by (rule sameOnI, auto simp: ret_def throw_def)+

lemma sameOn_bindE:
  assumes "sameOn E E0 m" "\<And>x. sameOn E E0 (f x)"
  shows "sameOn E E0 (bindE m f)"
proof (rule sameOnI)
  fix db
  obtain r db' where m: "m (onDriver E0 db) = (r, onDriver E0 db')" "m (onDriver E db) = (r, onDriver E db')"
    using sameOnE [OF assms(1)] by blast
  show "\<exists>r db'. bindE m f (onDriver E0 db) = (r, onDriver E0 db') \<and> bindE m f (onDriver E db) = (r, onDriver E db')"
  proof (cases r)
    case (Ok x)
    obtain r2 db2 where "f x (onDriver E0 db') = (r2, onDriver E0 db2)" "f x (onDriver E db') = (r2, onDriver E db2)"
      using sameOnE [OF assms(2)] by blast
    then show ?thesis using m Ok by (auto simp: bindE_def)
  qed (use m in \<open>auto simp: bindE_def\<close>)
qed

lemma sameOn_foldE: "(\<And>x acc. sameOn E E0 (f x acc)) \<Longrightarrow> sameOn E E0 (foldE f xs acc)"
  by (induction xs arbitrary: acc) (simp_all add: sameOn_ret sameOn_bindE)

lemma sameOn_onInner:
  fixes E E0 :: "'s Engine"
  assumes "\<And>s. call E s = call E0 s"
    and "\<And>g. guarded g = (if g_closed g then (refused, g) else onInner (call (g_inner g)) g)"
  shows "sameOn E E0 (onEngine guarded :: (('s, 'v) DB, 'a) op)"
proof (rule sameOnI)
  fix db :: "('s, 'v) DB"
  obtain r s where "call E0 (g_state (db_engine db)) = (r, s)" by fastforce
  then show "\<exists>r db'. onEngine guarded (onDriver E0 db) = (r, onDriver E0 db') \<and> onEngine guarded (onDriver E db) = (r, onDriver E db')"
  proof (cases "g_closed (db_engine db)")
    case True
    then show ?thesis using assms(2) by (auto simp: onEngine_def onDriver_def)
  next
    case False
    then show ?thesis using assms \<open>call E0 _ = _\<close>
      by (intro exI [of _ r] exI [of _ "db\<lparr>db_engine := (db_engine db)\<lparr>g_state := s\<rparr>\<rparr>"])
        (simp add: onEngine_def onInner_def onDriver_def)
  qed
qed

lemma sameOn_collectPrefix:
  fixes E E0 :: "'s Engine"
  assumes "eng_ScanPrefix E = eng_ScanPrefix E0"
  shows "sameOn E E0 (collectPrefix ctx p keys :: (('s, 'v) DB, bytes list) op)"
proof -
  have "sameOn E E0 (engineScan ctx p (\<lambda>acc k v. ret (acc @ [k])) keys :: (('s, 'v) DB, bytes list \<times> goerror option) op)"
  proof (rule sameOnI)
    fix db :: "('s, 'v) DB"
    obtain its final s where s: "eng_ScanPrefix E0 ctx p (g_state (db_engine db)) = ((its, final), s)" by (metis prod.collapse)
    show "\<exists>r db'. engineScan ctx p (\<lambda>acc k v. ret (acc @ [k])) keys (onDriver E0 db) = (r, onDriver E0 db') \<and>
        engineScan ctx p (\<lambda>acc k v. ret (acc @ [k])) keys (onDriver E db) = (r, onDriver E db')"
    proof (cases "g_closed (db_engine db)")
      case True
      then show ?thesis by (auto simp: engineScan_def guarded_ScanPrefix_def onDriver_def)
    next
      case False
      then show ?thesis using s assms
        by (intro exI [of _ "Ok (keys @ map fst its, final)"] exI [of _ "db\<lparr>db_engine := (db_engine db)\<lparr>g_state := s\<rparr>\<rparr>"])
          (simp add: engineScan_def guarded_ScanPrefix_def mem.scanRun_collect onDriver_def)
    qed
  qed
  then show ?thesis
    unfolding collectPrefix_def by (intro sameOn_bindE) (auto simp: sameOn_ret sameOn_throw split: prod.split option.split)
qed

lemma sameOn_deleteLogicalKey:
  assumes "eng_Get E = eng_Get E0" "eng_Delete E = eng_Delete E0" "eng_ScanPrefix E = eng_ScanPrefix E0"
  shows "sameOn E E0 (deleteLogicalKey ctx key)"
proof -
  have "sameOn E E0 (onEngine (guarded_Get ctx k))" for k
    by (rule sameOn_onInner [where call = "\<lambda>E. eng_Get E ctx k"]) (simp_all add: assms guarded_Get_def)
  moreover have "sameOn E E0 (onEngine (guarded_Delete ctx k))" for k
    by (rule sameOn_onInner [where call = "\<lambda>E. eng_Delete E ctx k"]) (simp_all add: assms guarded_Delete_def)
  ultimately show ?thesis
    unfolding deleteLogicalKey_def collectFound_def deleteKeys_def
    by (intro sameOn_bindE sameOn_foldE sameOn_collectPrefix sameOn_ret assms(3))
qed

text \<open>
  C36. A \<open>Put\<close> whose write fails has lost the old value. The records of the key are deleted before the
  new one is written: when the driver then reports an error for that write, \<open>Put\<close> returns this error,
  and the key, scalar or collection, is gone. Other keys are not touched.
\<close>

theorem failed_write_loses_value:
  assumes "memOpen db" "key \<noteq> []" "lenOk key" "encodeValue v opts (atTime t db) = (Ok data, atTime t db)"
    "bad (valueKey key) data = Some e"
    "DB_Put Background key v opts (onDriver (failingPuts bad) (atTime t db)) = (r, db')"
  shows "r = Err (errorfWrap ''kvlite: put: '' e) \<and>
    (\<forall>sk. storeView db' sk = (if logicalKeyFromStorage sk = Some key then None else storeView db sk))"
proof -
  let ?E = "failingPuts bad" and ?db = "atTime t db"
  have ok: "mem.dbOk ?db" "\<not> db_closed ?db" "\<not> g_closed (db_engine ?db)" "onDriver memoryDriver ?db = ?db"
    using assms(1) by (simp_all add: memOpen_dbOk) (simp_all add: memOpen_def atTime_def onDriver_self)
  have E: "eng_Get ?E = eng_Get memoryDriver" "eng_Delete ?E = eng_Delete memoryDriver"
    "eng_ScanPrefix ?E = eng_ScanPrefix memoryDriver" "eng_ReplaceLogicalValue ?E = None"
    by (simp_all add: failingPuts_def memoryDriver_def)
  have "apsnd (onDriver ?E) (encodeValue v opts ?db) = encodeValue v opts (onDriver ?E ?db)"
    by (simp add: encodeValue_def bindE_def liftR_def expiryFor_def db_now_def ret_def atTime_def onDriver_def split: res.split)
  then have enc: "encodeValue v opts (onDriver ?E ?db) = (Ok data, onDriver ?E ?db)" using assms(4) by simp
  have "deleteLogicalKey None key (onDriver ?E ?db) = apsnd (onDriver ?E) (deleteLogicalKey None key (onDriver memoryDriver ?db))"
    using sameOn_deleteLogicalKey [OF E(1-3)] unfolding sameOn_def by blast
  then have del: "\<exists>b. deleteLogicalKey None key (onDriver ?E ?db) = (Ok b, onDriver ?E (mem.dropKey key ?db))"
    unfolding ok(4) mem.deleteLogicalKey_eq [OF ok(1)] by simp
  have rep: "onEngine (guarded_ReplaceLogicalValue None key data) (onDriver ?E ?db)
      = (Err (sentinelErr ErrAtomicReplaceUnsupported), onDriver ?E ?db)"
    using ok(3) by (simp add: onEngine_def guarded_ReplaceLogicalValue_def E onDriver_def)
  let ?dr = "mem.dropKey key ?db"
  have dr: "mem.dbOk ?dr" using ok(1) by simp
  then have "\<not> g_closed (db_engine ?dr)" by (simp add: mem.dbOk_def mem.guard_ok_def)
  then have put: "onEngine (guarded_Put None (valueKey key) data) (onDriver ?E ?dr) = (Err e, onDriver ?E ?dr)"
    using assms(5) by (simp add: onEngine_def guarded_Put_def onInner_def failingPuts_def onDriver_def)
  have "DB_Put None key v opts (onDriver ?E ?db) = (Err (errorfWrap ''kvlite: put: '' e), onDriver ?E ?dr)"
    using assms(2) ok(2) enc rep del put
    by (auto simp: DB_Put_def ensureOpen_def replaceLogicalValue_def bindE_def tryE_def wrapE_def)
  then have r: "r = Err (errorfWrap ''kvlite: put: '' e)" "db' = onDriver ?E ?dr" using assms(6) by simp_all
  have "storeView db' sk = mem.dbView ?dr sk" for sk
    by (simp add: r storeView_dbView) (simp add: storeView_def)
  then show ?thesis
    using r(1) mem.dbView_dropKey [OF ok(1)] assms(3) by (simp add: recordOf_iff_logicalKey storeView_dbView)
qed

theorem failed_write_loses_value_witness:
  "let full = (\<lambda>_ _. Some (errorsNew ''no space left on device''));
     r = DB_Put Background ''k'' (ABytes ''new'') [] (onDriver (failingPuts full) (atTime 1 (memDB [(valueKey ''k'', ''old'')])))
   in fst r = Err (errorfWrap ''kvlite: put: '' (errorsNew ''no space left on device'')) \<and> storeView (snd r) (valueKey ''k'') = None"
proof -
  let ?db = "memDB [(valueKey ''k'', ''old'')]" and ?full = "\<lambda>_ _. Some (errorsNew ''no space left on device'')"
  let ?r = "DB_Put Background ''k'' (ABytes ''new'') [] (onDriver (failingPuts ?full) (atTime 1 ?db))"
  have "encodeValue (ABytes ''new'') [] (atTime 1 ?db) = (Ok (envBytes bytesCodecName ''new'' 0), atTime 1 ?db)"
    using mem.encodeValue_eq [OF atTime_simps(1), of "[]" 0 1 ?db "ABytes ''new''" "''new''"] by simp
  from failed_write_loses_value [OF _ _ _ this, of "''k''" ?full "errorsNew ''no space left on device''" "fst ?r" "snd ?r"]
  show ?thesis by (simp add: Let_def lenOk_def)
qed

end
