(* ===== verification/CollectionProps.thy ===== *)
theory CollectionProps
  imports Collections DBLaws
begin

text \<open>
  What the collection methods do on a driver that keeps the engine contract, and the properties
  that follow for the memory driver: sets behave as sets and report exact counts, pushes append or
  prepend, a hash read returns the live fields and removes the expired ones.
\<close>

section \<open>Evaluation under the contract\<close>

context local_engine
begin

lemma whenOpen_eq [op_simps]: "dbOk db \<Longrightarrow> whenOpen z m db = m db"
  by (simp add: whenOpen_def dbOk_def)

lemma ownerSide_eq [op_simps]:
  assumes "dbOk db"
  shows "ownerSide ErrAtomicSetAddUnsupported (guarded_AddSet None n ms) local db = local db"
    and "ownerSide ErrAtomicSetRemoveUnsupported (guarded_RemoveSet None n ms) local db = local db"
    and "ownerSide ErrAtomicHashDeleteUnsupported (guarded_DeleteHashFields None n ms) local db
           = local db"
    and "ownerSide ErrAtomicListPushUnsupported (guarded_PushList None n ms left) local db = local db"
  using assms
  by (simp_all add: ownerSide_def onEngine_def bindE_def dbOk_def guard_ok_def
      guarded_AddSet_def guarded_RemoveSet_def guarded_DeleteHashFields_def guarded_PushList_def
      no_AddSet no_RemoveSet no_DeleteHashFields no_PushList)

lemma removeLoop_eq:
  "dbOk db \<Longrightarrow> \<exists>db'. removeLoop None keys n db
       = (Ok (n + int (card {k \<in> set keys. dbView db k \<noteq> None}), None), db')
     \<and> dbOk db' \<and> dbView db' = dbView db |` (- set keys) \<and> db_cfg db' = db_cfg db"
proof (induction keys arbitrary: n db)
  case (Cons k keys)
  show ?case
  proof (cases "dbView db k")
    case None
    then have *: "{a \<in> set (k # keys). dbView db a \<noteq> None} = {a \<in> set keys. dbView db a \<noteq> None}"
      and "dbView db |` (- set (k # keys)) = dbView db |` (- set keys)"
      by (auto simp: restrict_map_def fun_eq_iff)
    with None Cons.prems Cons.IH [of db n] show ?thesis
      unfolding * by (simp add: bindE_def tryE_def op_simps)
  next
    case (Some v)
    let ?A = "{a \<in> set keys. dbView (dbDel k db) a \<noteq> None}"
    have "{a \<in> set (k # keys). dbView db a \<noteq> None} = insert k ?A"
      using Some Cons.prems by auto
    then have card: "card {a \<in> set (k # keys). dbView db a \<noteq> None} = Suc (card ?A)"
      using Cons.prems by simp
    have view: "dbView (dbDel k db) |` (- set keys) = dbView db |` (- set (k # keys))"
      using Cons.prems by (auto simp: restrict_map_def fun_eq_iff)
    have step: "removeLoop None (k # keys) n db = removeLoop None keys (n + 1) (dbDel k db)"
      using Some Cons.prems by (simp add: bindE_def tryE_def op_simps)
    from Cons.IH [OF dbOk_upd(2) [OF Cons.prems], of "n + 1" k] show ?thesis
      unfolding step card view by (simp only: of_nat_Suc ac_simps db_frame)
  qed
qed (simp add: ret_def restrict_map_def)

lemma addLoop_eq:
  "dbOk db \<Longrightarrow> \<exists>db'. addLoop None keys n db
       = (Ok (n + int (card {k \<in> set keys. dbView db k = None}), None), db')
     \<and> dbOk db' \<and> db_cfg db' = db_cfg db
     \<and> dbView db' = (\<lambda>k. if k \<in> set keys \<and> dbView db k = None then Some [CHR 0x01] else dbView db k)"
proof (induction keys arbitrary: n db)
  case (Cons k keys)
  show ?case
  proof (cases "dbView db k")
    case (Some v)
    then have *: "{a \<in> set (k # keys). dbView db a = None} = {a \<in> set keys. dbView db a = None}"
      and "(\<lambda>a. if a \<in> set (k # keys) \<and> dbView db a = None then Some [CHR 0x01] else dbView db a)
        = (\<lambda>a. if a \<in> set keys \<and> dbView db a = None then Some [CHR 0x01] else dbView db a)"
      by (auto simp: fun_eq_iff)
    with Some Cons.prems Cons.IH [of db n] show ?thesis
      unfolding * by (simp add: bindE_def tryE_def op_simps)
  next
    case None
    let ?db = "dbPut k [CHR 0x01] db"
    let ?A = "{a \<in> set keys. dbView ?db a = None}"
    have "{a \<in> set (k # keys). dbView db a = None} = insert k ?A"
      using None Cons.prems by auto
    then have card: "card {a \<in> set (k # keys). dbView db a = None} = Suc (card ?A)"
      using Cons.prems by simp
    have view: "(\<lambda>a. if a \<in> set keys \<and> dbView ?db a = None then Some [CHR 0x01] else dbView ?db a)
      = (\<lambda>a. if a \<in> set (k # keys) \<and> dbView db a = None then Some [CHR 0x01] else dbView db a)"
      using None Cons.prems by (auto simp: fun_eq_iff)
    have step: "addLoop None (k # keys) n db = addLoop None keys (n + 1) ?db"
      using None Cons.prems by (simp add: bindE_def tryE_def op_simps)
    from Cons.IH [OF dbOk_upd(1) [OF Cons.prems], of "n + 1" k "[CHR 0x01]"] show ?thesis
      unfolding step card view by (simp only: of_nat_Suc ac_simps db_frame)
  qed
qed (simp add: ret_def fun_eq_iff)

lemma readList_eq [op_simps]:
  "dbOk db \<Longrightarrow> readList None key db =
     (case dbView db key of None \<Rightarrow> Ok [] | Some data \<Rightarrow> decodeList data, db)"
  by (simp add: readList_def bindE_def ret_def liftR_def op_simps split: option.split)

lemma writeList_eq [op_simps]:
  "dbOk db \<Longrightarrow> writeList None key items db = (Ok (), dbPut key (encodeList items) db)"
  by (simp add: writeList_def op_simps)

lemma scanRun_drop:
  "scanRun (\<lambda>acc key _. ret (acc @ [drop n key])) items final acc d
     = (Ok (acc @ map (drop n \<circ> fst) items, final), d)"
  by (induction items arbitrary: acc) (simp_all add: ret_def)

end

section \<open>Sets\<close>

text \<open>The members of a set, as the store has them.\<close>

definition setMembers :: "bytes \<Rightarrow> (memoryDriverEngine, 'v) DB \<Rightarrow> bytes set" where
  "setMembers name db = {m. storeView db (namespacedKey kindSet name m) \<noteq> None}"

lemma inj_namespacedKey: "inj (namespacedKey k ns)"
  by (rule injI) (simp add: namespacedKey_def)

text \<open>
  The interface of a string set: additions and removals report how many members changed, and the
  client may account for the size of the set from these counts alone.
\<close>

datatype setCommand = AddMembers "bytes list" | RemoveMembers "bytes list"

definition setEffect :: "setCommand \<Rightarrow> bytes set \<Rightarrow> bytes set" where
  "setEffect c S = (case c of AddMembers ms \<Rightarrow> S \<union> set ms | RemoveMembers ms \<Rightarrow> S - set ms)"

text \<open>A client that runs commands and keeps a balance of the counts they report.\<close>

primrec runSet ::
  "(bytes list \<Rightarrow> ('d, int \<times> goerror option) op) \<Rightarrow> (bytes list \<Rightarrow> ('d, int \<times> goerror option) op) \<Rightarrow>
   setCommand list \<Rightarrow> int \<Rightarrow> ('d, int) op" where
  "runSet add remove [] balance = ret balance"
| "runSet add remove (c # cs) balance = (case c of
      AddMembers ms \<Rightarrow> bindE (add ms) (\<lambda>r. runSet add remove cs (balance + fst r))
    | RemoveMembers ms \<Rightarrow> bindE (remove ms) (\<lambda>r. runSet add remove cs (balance - fst r)))"

locale string_set =
  fixes ok :: "'d \<Rightarrow> bool"
    and elems :: "'d \<Rightarrow> bytes set"
    and add :: "bytes list \<Rightarrow> ('d, int \<times> goerror option) op"
    and remove :: "bytes list \<Rightarrow> ('d, int \<times> goerror option) op"
  assumes add_law: "ok d \<Longrightarrow> \<exists>d'. add ms d = (Ok (int (card (set ms - elems d)), None), d')
        \<and> ok d' \<and> elems d' = elems d \<union> set ms"
    and remove_law: "ok d \<Longrightarrow> \<exists>d'. remove ms d = (Ok (int (card (set ms \<inter> elems d)), None), d')
        \<and> ok d' \<and> elems d' = elems d - set ms"
    and finite_elems: "ok d \<Longrightarrow> finite (elems d)"
begin

lemma card_add: "finite S \<Longrightarrow> card (S \<union> set ms) = card S + card (set ms - S)"
  by (metis Diff_disjoint List.finite_set Un_Diff_cancel card_Un_disjoint finite_Diff)

lemma card_remove: "finite S \<Longrightarrow> int (card (S - set ms)) = int (card S) - int (card (set ms \<inter> S))"
  by (metis Int_commute List.finite_set card_Diff_subset_Int card_mono finite_Int inf_le1 of_nat_diff)

lemma runSet_counts:
  "ok d \<Longrightarrow> \<exists>d'. runSet add remove cs balance d = (Ok (balance + int (card (elems d')) - int (card (elems d))), d')
     \<and> ok d' \<and> elems d' = fold setEffect cs (elems d)"
proof (induction cs arbitrary: balance d)
  case (Cons c cs)
  show ?case
  proof (cases c)
    case (AddMembers ms)
    from add_law [OF Cons.prems] obtain d1 where d1:
      "add ms d = (Ok (int (card (set ms - elems d)), None), d1)" "ok d1"
      "elems d1 = elems d \<union> set ms" by blast
    from Cons.IH [OF d1(2), of "balance + int (card (set ms - elems d))"] show ?thesis
      using AddMembers d1 card_add [OF finite_elems [OF Cons.prems]]
      by (auto simp: bindE_def setEffect_def)
  next
    case (RemoveMembers ms)
    from remove_law [OF Cons.prems] obtain d1 where d1:
      "remove ms d = (Ok (int (card (set ms \<inter> elems d)), None), d1)" "ok d1"
      "elems d1 = elems d - set ms" by blast
    from Cons.IH [OF d1(2), of "balance - int (card (set ms \<inter> elems d))"] show ?thesis
      using RemoveMembers d1 card_remove [OF finite_elems [OF Cons.prems]]
      by (auto simp: bindE_def setEffect_def)
  qed
qed (simp add: ret_def)

end

lemma card_set_keys:
  "card {k \<in> set (map (namespacedKey kindSet name) ms). P k}
     = card {m \<in> set ms. P (namespacedKey kindSet name m)}"
proof -
  have "{k \<in> set (map (namespacedKey kindSet name) ms). P k}
      = namespacedKey kindSet name ` {m \<in> set ms. P (namespacedKey kindSet name m)}" by auto
  then show ?thesis by (simp add: card_image inj_on_subset [OF inj_namespacedKey])
qed

lemma SAdd_mem:
  assumes "memOpen db"
  shows "\<exists>db'. SAdd None name ms db = (Ok (int (card (set ms - setMembers name db)), None), db')
     \<and> memOpen db' \<and> db_cfg db' = db_cfg db
     \<and> storeView db' = (\<lambda>k. if k \<in> namespacedKey kindSet name ` set ms \<and> storeView db k = None
          then Some [CHR 0x01] else storeView db k)"
proof -
  have ok: "mem.dbOk db" using assms by (simp add: memOpen_dbOk)
  have "{m \<in> set ms. storeView db (namespacedKey kindSet name m) = None} = set ms - setMembers name db"
    by (auto simp: setMembers_def)
  moreover have "SAdd None name ms db = addLoop None (map (namespacedKey kindSet name) ms) 0 db"
    using ok by (simp add: SAdd_def op_simps)
  ultimately show ?thesis
    using mem.addLoop_eq [OF ok, of "map (namespacedKey kindSet name) ms" 0]
    unfolding storeView_dbView memOpen_dbOk card_set_keys by simp
qed

lemma SRemove_mem:
  assumes "memOpen db"
  shows "\<exists>db'. SRemove None name ms db = (Ok (int (card (set ms \<inter> setMembers name db)), None), db')
     \<and> memOpen db' \<and> db_cfg db' = db_cfg db
     \<and> storeView db' = storeView db |` (- namespacedKey kindSet name ` set ms)"
proof -
  have ok: "mem.dbOk db" using assms by (simp add: memOpen_dbOk)
  have "{m \<in> set ms. storeView db (namespacedKey kindSet name m) \<noteq> None} = set ms \<inter> setMembers name db"
    by (auto simp: setMembers_def)
  moreover have "SRemove None name ms db = removeLoop None (map (namespacedKey kindSet name) ms) 0 db"
    using ok by (simp add: SRemove_def op_simps)
  ultimately show ?thesis
    using mem.removeLoop_eq [OF ok, of "map (namespacedKey kindSet name) ms" 0]
    unfolding storeView_dbView memOpen_dbOk card_set_keys by auto
qed

lemma finite_setMembers: "finite (setMembers name db)"
proof -
  have "namespacedKey kindSet name ` setMembers name db \<subseteq> dom (storeView db)"
    by (auto simp: setMembers_def)
  then show ?thesis
    by (metis finite_dom_map_of finite_imageD finite_subset inj_namespacedKey inj_on_subset
        storeView_def subset_UNIV)
qed

interpretation cset: string_set memOpen "setMembers name" "SAdd None name" "SRemove None name"
  for name :: bytes
proof
  fix d :: "(memoryDriverEngine, 'v) DB" and ms
  assume ok: "memOpen d"
  from SAdd_mem [OF ok, of name ms]
  show "\<exists>d'. SAdd None name ms d = (Ok (int (card (set ms - setMembers name d)), None), d')
      \<and> memOpen d' \<and> setMembers name d' = setMembers name d \<union> set ms"
    by (elim exE, intro exI) (auto simp: setMembers_def inj_image_mem_iff [OF inj_namespacedKey])
  from SRemove_mem [OF ok, of name ms]
  show "\<exists>d'. SRemove None name ms d = (Ok (int (card (set ms \<inter> setMembers name d)), None), d')
      \<and> memOpen d' \<and> setMembers name d' = setMembers name d - set ms"
    by (elim exE, intro exI)
      (auto simp: setMembers_def restrict_map_def inj_image_mem_iff [OF inj_namespacedKey]
        split: if_splits)
qed (rule finite_setMembers)

lemma SMembers_mem:
  "memOpen db \<Longrightarrow> SMembers None name db = (Ok (sorted_list_of_set (setMembers name db), None), db)"
proof -
  assume "memOpen db"
  then have ok: "mem.dbOk db" by (simp add: memOpen_dbOk)
  let ?p = "namespacePrefix kindSet name"
  let ?ks = "map fst (mem.dbItems ?p db)"
  have ks: "set ?ks = namespacedKey kindSet name ` setMembers name db"
    using mem.dbItems_keys [OF ok, of ?p]
    by (auto simp: setMembers_def storeView_dbView namespacedKey_def prefix_def image_iff)
  have "set (map (drop (length ?p)) ?ks) = setMembers name db"
    unfolding set_map [of _ ?ks] ks by (force simp: namespacedKey_def)
  moreover have "distinct (map (drop (length ?p)) ?ks)"
    using mem.dbItems_distinct [OF ok, of ?p]
    unfolding distinct_map [of _ ?ks] ks by (auto simp: inj_on_def namespacedKey_def)
  ultimately have "sort (map (drop (length ?p)) ?ks) = sorted_list_of_set (setMembers name db)"
    by (metis distinct_remdups_id sorted_list_of_set_sort_remdups)
  then show ?thesis
    using ok by (simp add: SMembers_def bindE_def ret_def op_simps mem.scanRun_drop)
qed

text \<open>
  C16. \<open>SAdd\<close> unites the set with its arguments, counts exactly the distinct members that were
  new, and touches no record outside the set; \<open>SMembers\<close> then lists the set once each in sorted
  order and \<open>SContains\<close> decides membership.
\<close>

theorem sadd_set_semantics:
  assumes "memOpen db"
  shows "\<exists>db'. SAdd Background name ms db = (Ok (int (card (set ms - setMembers name db)), None), db')
    \<and> setMembers name db' = setMembers name db \<union> set ms
    \<and> (\<forall>sk. \<not> prefix (namespacePrefix kindSet name) sk \<longrightarrow> storeView db' sk = storeView db sk)
    \<and> SMembers Background name db'
        = (Ok (sorted_list_of_set (setMembers name db \<union> set ms), None), db')
    \<and> (\<forall>m. SContains Background name m db' = (Ok (m \<in> setMembers name db \<union> set ms), db'))"
proof -
  from SAdd_mem [OF assms, of name ms] obtain db' where db':
    "SAdd None name ms db = (Ok (int (card (set ms - setMembers name db)), None), db')"
    "memOpen db'"
    "storeView db' = (\<lambda>k. if k \<in> namespacedKey kindSet name ` set ms \<and> storeView db k = None
          then Some [CHR 0x01] else storeView db k)" by blast
  have mem: "setMembers name db' = setMembers name db \<union> set ms"
    by (auto simp: setMembers_def db'(3) inj_image_mem_iff [OF inj_namespacedKey])
  have "mem.dbOk db'" using db'(2) by (simp add: memOpen_dbOk)
  then have "SContains None name m db' = (Ok (m \<in> setMembers name db'), db')" for m
    by (simp add: SContains_def bindE_def ret_def op_simps setMembers_def storeView_dbView)
  moreover have "\<not> prefix (namespacePrefix kindSet name) sk \<Longrightarrow> storeView db' sk = storeView db sk" for sk
    by (auto simp: db'(3))
  ultimately show ?thesis
    using db'(1) SMembers_mem [OF db'(2), of name] mem by auto
qed

theorem sadd_set_semantics_witness:
  "\<exists>db'. SAdd Background ''s'' [''b'', ''a'', ''b''] (memDB []) = (Ok (2, None), db')
     \<and> SMembers Background ''s'' db' = (Ok ([''a'', ''b''], None), db')"
proof -
  have none: "setMembers ''s'' (memDB []) = {}" by (simp add: setMembers_def)
  have "card {''b'', ''a''} = 2" by simp
  moreover have "sorted_list_of_set {''b'', ''a''} = [''a'', ''b'']" by code_simp
  ultimately show ?thesis
    using sadd_set_semantics [of "memDB []" "''s''" "[''b'', ''a'', ''b'']"]
    unfolding none by (auto simp: insert_commute)
qed

text \<open>
  C17. The counts returned by \<open>SAdd\<close> and \<open>SRemove\<close> account for the size of the set: over any
  sequence of the two, the balance of the counts is the change in cardinality, and the set is
  what the sequence of unions and differences gives.
\<close>

theorem set_counts_balance:
  assumes "memOpen db"
  shows "\<exists>db'. runSet (SAdd Background name) (SRemove Background name) cs 0 db
      = (Ok (int (card (setMembers name db')) - int (card (setMembers name db))), db')
    \<and> setMembers name db' = fold setEffect cs (setMembers name db)"
  using cset.runSet_counts [OF assms, where cs = cs and balance = 0 and name = name] by auto

theorem set_counts_balance_witness:
  "\<exists>db'. runSet (SAdd Background ''s'') (SRemove Background ''s'')
      [AddMembers [''a'', ''b''], RemoveMembers [''a'', ''c'']] 0 (memDB []) = (Ok 1, db')"
proof -
  have none: "setMembers ''s'' (memDB []) = {}" by (simp add: setMembers_def)
  have sets: "fold setEffect [AddMembers [''a'', ''b''], RemoveMembers [''a'', ''c'']] {} = {''b''}"
    by (simp add: setEffect_def insert_Diff_if)
  have opn: "memOpen (memDB [])" by simp
  from set_counts_balance [OF opn, of "''s''" "[AddMembers [''a'', ''b''], RemoveMembers [''a'', ''c'']]"]
  show ?thesis unfolding none sets by (elim exE conjE, intro exI) (simp del: runSet.simps)
qed

section \<open>Lists\<close>

text \<open>The encoded items of a list; a missing record is the empty list.\<close>

definition storedList :: "bytes \<Rightarrow> (memoryDriverEngine, 'v) DB \<Rightarrow> bytes list res" where
  "storedList name db = (case storeView db (listKey name) of
      None \<Rightarrow> Ok [] | Some data \<Rightarrow> decodeList data)"

definition decodeAll :: "time \<Rightarrow> 'v config \<Rightarrow> 'v any \<Rightarrow> bytes list \<Rightarrow> 'v any list \<Rightarrow> bool" where
  "decodeAll t cfg zero items vs \<longleftrightarrow> list_all2 (\<lambda>item v. \<exists>e codec.
     mem.liveEnvelope t item = Ok (Some e) \<and> cfg_codecs cfg (env_codec e) = Some codec \<and>
     codec_Unmarshal codec (env_payload e) (TPtr zero) = Ok v) items vs"

lemma slice_all: "slice xs 0 (int (length xs) - 1) = xs"
  by (simp add: slice_def)

lemma foldE_decode:
  assumes "clockIs t db" "decodeAll t (db_cfg db) zero items vs"
  shows "foldE (\<lambda>item result. bindE (decode item (TPtr zero)) (\<lambda>v. ret (result @ [v]))) items acc db
     = (Ok (acc @ vs), db)"
  using assms(2)
proof (induction items arbitrary: vs acc)
  case (Cons item items)
  then obtain v ws e codec where vs: "vs = v # ws" and dec: "mem.liveEnvelope t item = Ok (Some e)"
    "cfg_codecs (db_cfg db) (env_codec e) = Some codec"
    "codec_Unmarshal codec (env_payload e) (TPtr zero) = Ok v"
    and rest: "decodeAll t (db_cfg db) zero items ws"
    by (auto simp: decodeAll_def list_all2_Cons1)
  have "decode item (TPtr zero) db = (Ok v, db)"
    using dec by (simp add: mem.decode_eq [OF assms(1)])
  with Cons.IH [OF rest] vs show ?case by (simp add: bindE_def ret_def)
qed (simp add: decodeAll_def ret_def)

lemma LRange_all:
  assumes "memOpen db" "clockIs t db" "storedList name db = Ok items" "sliceElem target = Some zero"
    and "decodeAll t (db_cfg db) zero items vs"
  shows "LRange None name 0 (- 1) target db = (Ok vs, db)"
proof -
  have ok: "mem.dbOk db" using assms(1) by (simp add: memOpen_dbOk)
  have rd: "readList None (listKey name) db = (Ok items, db)"
    using ok assms(3) by (simp add: op_simps storedList_def storeView_dbView)
  show ?thesis
  proof (cases "items = []")
    case True
    with rd ok assms show ?thesis
      by (simp add: LRange_def bindE_def ret_def op_simps normalizeRange_alt decodeAll_def)
  next
    case False
    then have "normalizeRange (int (length items)) 0 (- 1) = (0, int (length items) - 1, True)"
      by (simp add: normalizeRange_alt Let_def)
    with rd ok assms show ?thesis
      by (simp add: LRange_def bindE_def op_simps slice_all foldE_decode)
  qed
qed

lemma encodeItems_decodeAll:
  assumes "encodeItems codec vals = Ok enc" "cfg_codecs cfg (codec_Name codec) = Some codec"
    and "\<forall>v \<in> set vals. \<forall>p. codec_Marshal codec v = Ok p \<longrightarrow> codec_Unmarshal codec p (TPtr zero) = Ok v"
  shows "decodeAll t cfg zero enc vals"
  using assms(1,3)
proof (induction vals arbitrary: enc)
  case (Cons v vals)
  from Cons.prems(1) obtain p item items where enc: "enc = item # items"
    and m: "codec_Marshal codec v = Ok p"
    and env: "marshalEnvelope (codec_Name codec) p 0 = Ok item"
    and rest: "encodeItems codec vals = Ok items"
    by (auto split: res.splits)
  from env have nm: "length (codec_Name codec) \<le> 65535" using marshalEnvelope_Ok_iff by blast
  with env have "item = envBytes (codec_Name codec) p 0" by simp
  with nm have "mem.liveEnvelope t item = Ok (Some \<lparr>env_expiresAt = 0, env_codec = codec_Name codec, env_payload = p\<rparr>)"
    by (simp add: mem.liveEnvelope_def int64_defs)
  with Cons.IH [OF rest] Cons.prems(2) m assms(2) enc show ?case
    by (simp add: decodeAll_def)
qed (simp add: decodeAll_def)

lemma DB_push_mem:
  assumes "memOpen db" "storedList name db = Ok items"
    and "encodeItems (cfg_codec (db_cfg db)) vals = Ok enc"
  shows "DB_push None name left vals db
     = (Ok (int (length items + length enc), None),
        mem.dbPut (listKey name) (encodeList (if left then enc @ items else items @ enc)) db)"
proof -
  have ok: "mem.dbOk db" using assms(1) by (simp add: memOpen_dbOk)
  have rd: "readList None (listKey name) db = (Ok items, db)"
    using ok assms(2) by (simp add: op_simps storedList_def storeView_dbView)
  with ok assms(3) show ?thesis
    by (simp add: DB_push_def pushEncodedList_def zeroOnErr_def bindE_def tryE_def ret_def op_simps)
qed

text \<open>
  C18. Pushing values whose codec round-trips extends what \<open>LRange 0 -1\<close> returns by exactly these
  values, in the order given, at the end for \<open>RPush\<close> and at the front for \<open>LPush\<close>; the count
  returned is the new length and no other record changes.
\<close>

theorem push_then_range:
  assumes "memOpen db" "clockIs t db" "storedList name db = Ok items"
    and "encodeItems (cfg_codec (db_cfg db)) vals = Ok enc" "listOk (items @ enc)"
    and "codecRegistered (db_cfg db)" "sliceElem target = Some zero"
    and "\<forall>v \<in> set vals. \<forall>p. codec_Marshal (cfg_codec (db_cfg db)) v = Ok p
           \<longrightarrow> codec_Unmarshal (cfg_codec (db_cfg db)) p (TPtr zero) = Ok v"
    and "decodeAll t (db_cfg db) zero items vs"
  shows "LRange Background name 0 (- 1) target db = (Ok vs, db) \<and>
    (\<exists>db'. RPush Background name vals db = (Ok (int (length vs + length vals), None), db')
      \<and> LRange Background name 0 (- 1) target db' = (Ok (vs @ vals), db')
      \<and> (\<forall>sk. sk \<noteq> listKey name \<longrightarrow> storeView db' sk = storeView db sk)) \<and>
    (\<exists>db'. LPush Background name vals db = (Ok (int (length vs + length vals), None), db')
      \<and> LRange Background name 0 (- 1) target db' = (Ok (vals @ vs), db')
      \<and> (\<forall>sk. sk \<noteq> listKey name \<longrightarrow> storeView db' sk = storeView db sk))"
proof -
  have ok: "mem.dbOk db" using assms(1) by (simp add: memOpen_dbOk)
  have enc: "decodeAll t (db_cfg db) zero enc vals"
    using encodeItems_decodeAll [OF assms(4) _ assms(8)] assms(6) by (simp add: codecRegistered_def)
  have len: "length vs = length items" "length enc = length vals"
    using assms(9) enc by (simp_all add: decodeAll_def list_all2_lengthD)
  have push: "\<exists>db'. DB_push None name left vals db = (Ok (int (length vs + length vals), None), db')
      \<and> LRange None name 0 (- 1) target db' = (Ok (if left then vals @ vs else vs @ vals), db')
      \<and> (\<forall>sk. sk \<noteq> listKey name \<longrightarrow> storeView db' sk = storeView db sk)" for left
  proof -
    let ?items = "if left then enc @ items else items @ enc"
    let ?db = "mem.dbPut (listKey name) (encodeList ?items) db"
    have "listOk ?items" using assms(5) by (auto simp: listOk_def)
    then have "storedList name ?db = Ok ?items"
      using mem.dbView_upd(1) [OF ok]
      by (simp add: storedList_def decodeList_encodeList flip: storeView_dbView)
    moreover have "decodeAll t (db_cfg ?db) zero ?items (if left then vals @ vs else vs @ vals)"
      using assms(9) enc by (simp add: decodeAll_def list_all2_appendI)
    ultimately have "LRange None name 0 (- 1) target ?db = (Ok (if left then vals @ vs else vs @ vals), ?db)"
      using LRange_all [of ?db t name ?items target zero] assms(2,7) mem.dbOk_upd(1) [OF ok]
      by (simp add: memOpen_dbOk)
    with DB_push_mem [OF assms(1,3,4), of left] mem.dbView_upd(1) [OF ok] show ?thesis
      by (auto simp: len storeView_dbView)
  qed
  show ?thesis
    using LRange_all [OF assms(1-3,7,9)] push [of False] push [of True]
    by (simp add: RPush_def LPush_def)
qed

theorem push_then_range_witness:
  "\<exists>db'. LPush Background ''l'' [ABytes ''a'', ABytes ''b''] (memDB []) = (Ok (2, None), db')
     \<and> LRange Background ''l'' 0 (- 1) (TSlicePtr (ABytes [])) db' = (Ok [ABytes ''a'', ABytes ''b''], db')"
proof -
  have enc: "encodeItems (cfg_codec (db_cfg (memDB []))) [ABytes ''a'', ABytes ''b'']
      = Ok [envBytes bytesCodecName ''a'' 0, envBytes bytesCodecName ''b'' 0]"
    by simp
  have "\<exists>db'. LPush Background ''l'' [ABytes ''a'', ABytes ''b''] (memDB [])
      = (Ok (int (length ([] :: unit any list) + length [ABytes ''a'', ABytes ''b'' :: unit any]), None), db')
     \<and> LRange Background ''l'' 0 (- 1) (TSlicePtr (ABytes [])) db'
      = (Ok ([ABytes ''a'', ABytes ''b''] @ []), db')
     \<and> (\<forall>sk. sk \<noteq> listKey ''l'' \<longrightarrow> storeView db' sk = storeView (memDB []) sk)"
    by (rule push_then_range [OF _ _ _ enc, where t = 0 and items = "[]" and zero = "ABytes []",
          THEN conjunct2, THEN conjunct2])
      (simp_all add: storedList_def listOk_def sliceElem_def decodeAll_def envBytes_def
        bytesCodecName_def envelopeMagic_def)
  then show ?thesis by (simp del: Background_def) blast
qed

section \<open>Hashes\<close>

text \<open>What a hash read sees of a field at time \<open>t\<close>.\<close>

datatype 'v fieldState = FieldAbsent | FieldExpired | FieldLive "'v any" | FieldBad

definition fieldState :: "time \<Rightarrow> 'v config \<Rightarrow> 'v any \<Rightarrow> bytes option \<Rightarrow> 'v fieldState" where
  "fieldState t cfg zero r = (case r of
      None \<Rightarrow> FieldAbsent
    | Some data \<Rightarrow> (case mem.liveEnvelope t data of
          Ok None \<Rightarrow> FieldExpired
        | Ok (Some e) \<Rightarrow> (case cfg_codecs cfg (env_codec e) of
              None \<Rightarrow> FieldBad
            | Some codec \<Rightarrow> (case codec_Unmarshal codec (env_payload e) (TPtr zero) of
                  Ok v \<Rightarrow> FieldLive v | _ \<Rightarrow> FieldBad))
        | _ \<Rightarrow> FieldBad))"

definition fieldValue :: "'v fieldState \<Rightarrow> 'v any option" where
  "fieldValue s = (case s of FieldLive v \<Rightarrow> Some v | _ \<Rightarrow> None)"

definition liveFields :: "time \<Rightarrow> 'v any \<Rightarrow> bytes \<Rightarrow> (memoryDriverEngine, 'v) DB \<Rightarrow> bytes \<Rightarrow> 'v any option" where
  "liveFields t zero name db f =
     fieldValue (fieldState t (db_cfg db) zero (storeView db (namespacedKey kindHash name f)))"

lemma fieldValue_simps [simp]:
  "fieldValue FieldAbsent = None" "fieldValue FieldExpired = None"
  "fieldValue (FieldLive v) = Some v" "fieldValue FieldBad = None"
  by (simp_all add: fieldValue_def)

lemma fieldState_None [simp]: "fieldState t cfg zero None = FieldAbsent"
  by (simp add: fieldState_def)

lemma fieldState_Some [simp]: "fieldState t cfg zero (Some data) \<noteq> FieldAbsent"
  by (simp add: fieldState_def split: res.split option.split)

lemma fieldState_Expired_iff:
  "fieldState t cfg zero r = FieldExpired \<longleftrightarrow>
     (\<exists>data. r = Some data \<and> fieldValue (fieldState t cfg zero r) = None
        \<and> fieldState t cfg zero r \<noteq> FieldBad)"
  by (cases r; cases "fieldState t cfg zero r") auto

lemma decode_fieldState:
  assumes "clockIs t db" "fieldState t (db_cfg db) zero (Some data) \<noteq> FieldBad"
  shows "decode data (TPtr zero) db = (case fieldState t (db_cfg db) zero (Some data) of
      FieldLive v \<Rightarrow> Ok v | _ \<Rightarrow> Err (sentinelErr ErrNotFound), db)"
  using assms(2)
  by (auto simp: mem.decode_eq [OF assms(1)] fieldState_def split: res.splits option.splits)

lemma hGetAllCallback_eq:
  assumes "clockIs t db" "fieldState t (db_cfg db) zero (Some data) \<noteq> FieldBad"
  shows "hGetAllCallback True zero n acc key data db
     = (Ok (case fieldState t (db_cfg db) zero (Some data) of
          FieldLive v \<Rightarrow> ((fst acc)(drop n key \<mapsto> v), snd acc)
        | _ \<Rightarrow> (fst acc, snd acc @ [key])), db)"
  using assms
  by (simp add: hGetAllCallback_def bindE_def tryE_def ret_def decode_fieldState
      split: fieldState.split)

lemma scanRun_fields:
  assumes "clockIs t db" "\<forall>x \<in> set items. fieldState t (db_cfg db) zero (Some (snd x)) \<noteq> FieldBad"
  shows "scanRun (hGetAllCallback True zero n) items None acc db
     = (Ok ((fst acc ++ map_of (rev (List.map_filter (\<lambda>x. map_option (Pair (drop n (fst x)))
                (fieldValue (fieldState t (db_cfg db) zero (Some (snd x))))) items)),
             snd acc @ map fst (filter (\<lambda>x. fieldValue (fieldState t (db_cfg db) zero (Some (snd x))) = None) items)),
           None), db)"
  using assms(2)
proof (induction items arbitrary: acc)
  case (Cons x items)
  let ?s = "fieldState t (db_cfg db) zero (Some (snd x))"
  let ?acc = "case ?s of FieldLive v \<Rightarrow> ((fst acc)(drop n (fst x) \<mapsto> v), snd acc)
      | _ \<Rightarrow> (fst acc, snd acc @ [fst x])"
  have step: "scanRun (hGetAllCallback True zero n) (x # items) None acc db
      = scanRun (hGetAllCallback True zero n) items None ?acc db"
    using Cons.prems hGetAllCallback_eq [OF assms(1), of zero "snd x" n acc "fst x"] by simp
  from Cons.IH [of ?acc] Cons.prems show ?case
    unfolding step by (cases ?s; simp add: map_filter_simps; simp add: fun_upd_def)
qed (simp add: map_filter_simps)

lemma scanRun_named_key:
  assumes "clockIs t db" "\<forall>x \<in> set items. fieldState t (db_cfg db) zero (Some (snd x)) \<noteq> FieldBad"
  shows "if list_ex (\<lambda>x. fieldValue (fieldState t (db_cfg db) zero (Some (snd x))) \<noteq> None) items
    then (\<exists>msg. scanRun (hGetAllCallback False zero n) items None acc db = (Panic msg, db))
    else scanRun (hGetAllCallback False zero n) items None acc db = (Ok ((fst acc, snd acc @ map fst items), None), db)"
  using assms(2)
proof (induction items arbitrary: acc)
  case (Cons x items)
  note dec = decode_fieldState [OF assms(1), of zero "snd x"]
  show ?case
  proof (cases "fieldState t (db_cfg db) zero (Some (snd x))")
    case (FieldLive v)
    then show ?thesis using dec by (simp add: hGetAllCallback_def bindE_def tryE_def panic_def)
  next
    case FieldExpired
    then have "scanRun (hGetAllCallback False zero n) (x # items) None acc db
        = scanRun (hGetAllCallback False zero n) items None (fst acc, snd acc @ [fst x]) db"
      using dec by (simp add: hGetAllCallback_def bindE_def tryE_def ret_def)
    then show ?thesis
      using Cons.IH [of "(fst acc, snd acc @ [fst x])"] Cons.prems FieldExpired by simp
  qed (use Cons.prems in auto)
qed simp

lemma distinct_fst_map_filter:
  "distinct (map h xs) \<Longrightarrow> distinct (map fst (List.map_filter (\<lambda>x. map_option (Pair (h x)) (g x)) xs))"
proof (induction xs)
  case (Cons x xs)
  then have "(h x, b) \<notin> set (List.map_filter (\<lambda>x. map_option (Pair (h x)) (g x)) xs)" for b
    by (auto simp: set_map_filter_iff) (metis rev_image_eqI)
  with Cons show ?case by (auto simp: map_filter_simps split: option.splits)
qed (simp add: map_filter_simps)

lemma foldE_ignore_delete:
  "mem.dbOk db \<Longrightarrow> foldE (\<lambda>k _. ignoreE (onEngine (guarded_Delete None k))) ks () db
     = (Ok (), mem.dbDels ks db)"
  by (induction ks arbitrary: db) (simp_all add: ret_def bindE_def ignoreE_def op_simps)

text \<open>The records of a hash as a scan visits them, and the fields among them that are live.\<close>

lemma hash_items:
  assumes "memOpen db"
  shows "(k, data) \<in> set (mem.dbItems (namespacePrefix kindHash name) db)
     \<longleftrightarrow> (\<exists>f. k = namespacedKey kindHash name f \<and> storeView db k = Some data)"
  using mem.dbItems_set [of db "namespacePrefix kindHash name"] assms
  by (auto simp: memOpen_dbOk storeView_dbView prefix_def namespacedKey_def)

lemma hash_live_items:
  assumes "memOpen db"
  shows "(f, v) \<in> set (List.map_filter (\<lambda>x. map_option (Pair (drop (5 + length name) (fst x)))
        (fieldValue (fieldState t (db_cfg db) zero (Some (snd x)))))
      (mem.dbItems (namespacePrefix kindHash name) db))
    \<longleftrightarrow> liveFields t zero name db f = Some v" (is "_ \<in> set ?live \<longleftrightarrow> _")
proof
  assume "(f, v) \<in> set ?live"
  then obtain k data where "(k, data) \<in> set (mem.dbItems (namespacePrefix kindHash name) db)"
    "fieldValue (fieldState t (db_cfg db) zero (Some data)) = Some v" "f = drop (5 + length name) k"
    by (auto simp: set_map_filter_iff)
  then show "liveFields t zero name db f = Some v"
    by (auto simp: hash_items [OF assms] liveFields_def)
next
  assume lv: "liveFields t zero name db f = Some v"
  then obtain data where data: "storeView db (namespacedKey kindHash name f) = Some data"
    by (cases "storeView db (namespacedKey kindHash name f)") (auto simp: liveFields_def)
  then have "(namespacedKey kindHash name f, data) \<in> set (mem.dbItems (namespacePrefix kindHash name) db)"
    by (auto simp: hash_items [OF assms])
  then show "(f, v) \<in> set ?live"
    unfolding set_map_filter_iff by (rule bexI [rotated]) (use lv data in \<open>simp add: liveFields_def\<close>)
qed

lemma hash_expired_items:
  assumes "memOpen db"
    and "\<forall>f. fieldState t (db_cfg db) zero (storeView db (namespacedKey kindHash name f)) \<noteq> FieldBad"
  shows "sk \<in> set (map fst (filter (\<lambda>x. fieldValue (fieldState t (db_cfg db) zero (Some (snd x))) = None)
        (mem.dbItems (namespacePrefix kindHash name) db)))
    \<longleftrightarrow> prefix (namespacePrefix kindHash name) sk
      \<and> fieldState t (db_cfg db) zero (storeView db sk) = FieldExpired" (is "?lhs \<longleftrightarrow> ?rhs")
proof -
  have "?lhs \<longleftrightarrow> (\<exists>data. (sk, data) \<in> set (mem.dbItems (namespacePrefix kindHash name) db)
      \<and> fieldValue (fieldState t (db_cfg db) zero (Some data)) = None)"
    by force
  also have "\<dots> \<longleftrightarrow> (\<exists>f. sk = namespacedKey kindHash name f) \<and>
      (\<exists>data. storeView db sk = Some data \<and> fieldValue (fieldState t (db_cfg db) zero (Some data)) = None)"
    unfolding hash_items [OF assms(1)] by blast
  also have "\<dots> \<longleftrightarrow> ?rhs"
  proof (cases "\<exists>f. sk = namespacedKey kindHash name f")
    case True
    then have "fieldState t (db_cfg db) zero (storeView db sk) \<noteq> FieldBad" using assms(2) by blast
    with True show ?thesis
      unfolding fieldState_Expired_iff [of t "db_cfg db"] by (auto simp: namespacedKey_def)
  next
    case False
    then show ?thesis by (auto simp: prefix_def namespacedKey_def)
  qed
  finally show ?thesis .
qed

text \<open>
  C19. \<open>HGetAll\<close> returns exactly the live fields of the hash, each with its decoded value, and
  removes exactly the expired field records; every other record of the store is kept. No field of
  the hash is undecodable, which would end the call with an error.
\<close>

theorem hgetall_live_fields:
  assumes "memOpen db" "clockIs t db"
    and "\<forall>f. fieldState t (db_cfg db) zero (storeView db (namespacedKey kindHash name f)) \<noteq> FieldBad"
  shows "\<exists>db'. HGetAll Background name (TMapPtr True zero) db = (Ok (liveFields t zero name db), db')
    \<and> (\<forall>sk. storeView db' sk =
        (if prefix (namespacePrefix kindHash name) sk \<and>
            fieldState t (db_cfg db) zero (storeView db sk) = FieldExpired
         then None else storeView db sk))"
proof -
  have ok: "mem.dbOk db" using assms(1) by (simp add: memOpen_dbOk)
  let ?p = "namespacePrefix kindHash name"
  let ?items = "mem.dbItems ?p db"
  let ?st = "\<lambda>x. fieldState t (db_cfg db) zero (Some (snd x))"
  let ?live = "List.map_filter (\<lambda>x. map_option (Pair (drop (5 + length name) (fst x))) (fieldValue (?st x))) ?items"
  let ?exp = "map fst (filter (\<lambda>x. fieldValue (?st x) = None) ?items)"
  note items = hash_items [OF assms(1)]
  have good: "\<forall>x \<in> set ?items. ?st x \<noteq> FieldBad"
  proof
    fix x
    assume "x \<in> set ?items"
    with items [of "fst x" "snd x" name] assms(3) show "?st x \<noteq> FieldBad"
      by (metis prod.collapse)
  qed
  have "inj_on (drop (5 + length name)) (set (map fst ?items))"
    using items by (auto simp: inj_on_def)
  then have "distinct (map (drop (5 + length name) \<circ> fst) ?items)"
    using mem.dbItems_distinct [OF ok, of ?p] by (simp add: distinct_map comp_inj_on)
  then have dist: "distinct (map fst (rev ?live))"
    using distinct_fst_map_filter [of "drop (5 + length name) \<circ> fst" ?items "\<lambda>x. fieldValue (?st x)"]
    by (simp add: rev_map [symmetric])
  have live: "map_of (rev ?live) = liveFields t zero name db"
    using map_of_eq_Some_iff [OF dist] hash_live_items [OF assms(1)]
    by (intro ext option_ext) simp
  have run: "HGetAll Background name (TMapPtr True zero) db = (Ok (map_of (rev ?live)), mem.dbDels ?exp db)"
    using ok scanRun_fields [OF assms(2) good, of "5 + length name" "(Map.empty, [])"]
    by (simp add: HGetAll_def bindE_def ret_def op_simps foldE_ignore_delete)
  show ?thesis
    unfolding run live
  proof (intro exI conjI allI)
    fix sk
    show "storeView (mem.dbDels ?exp db) sk =
        (if prefix ?p sk \<and> fieldState t (db_cfg db) zero (storeView db sk) = FieldExpired
         then None else storeView db sk)"
      using mem.dbView_dbDels [OF ok, of ?exp]
      unfolding hash_expired_items [OF assms(1,3), symmetric]
      by (simp only: storeView_dbView restrict_map_def Compl_iff) simp
  qed (rule refl)
qed

theorem hgetall_live_fields_witness:
  "\<exists>db'. HGetAll Background ''h'' (TMapPtr True (ABytes []))
      (memDB [(namespacedKey kindHash ''h'' ''f'', envBytes ''bytes'' ''v'' 0)])
    = (Ok [''f'' \<mapsto> ABytes ''v''], db')"
proof -
  let ?db = "memDB [(namespacedKey kindHash ''h'' ''f'', envBytes ''bytes'' ''v'' 0)]"
  have lv: "mem.liveEnvelope 0 (envBytes ''bytes'' ''v'' 0)
      = Ok (Some \<lparr>env_expiresAt = 0, env_codec = ''bytes'', env_payload = ''v''\<rparr>)"
    by (simp add: mem.liveEnvelope_def int64_defs)
  have cd: "cfg_codecs (db_cfg ?db) ''bytes'' = Some (BytesCodec (\<lambda>_. ''unit''))"
    by (simp add: memDB_def newDB_def defaultConfig_def bytesCodecName_def)
  have st: "fieldState 0 (db_cfg ?db) (ABytes []) (storeView ?db (namespacedKey kindHash ''h'' f))
      = (if f = ''f'' then FieldLive (ABytes ''v'') else FieldAbsent)" for f
    using lv cd by (simp add: fieldState_def namespacedKey_def)
  then have "liveFields 0 (ABytes []) ''h'' ?db = [''f'' \<mapsto> ABytes ''v'']"
    by (auto simp: liveFields_def)
  moreover have "memOpen ?db" "clockIs 0 ?db" by simp_all
  moreover have "\<forall>f. fieldState 0 (db_cfg ?db) (ABytes []) (storeView ?db (namespacedKey kindHash ''h'' f)) \<noteq> FieldBad"
    unfolding st by simp
  ultimately show ?thesis
    using hgetall_live_fields [of ?db 0 "ABytes []" "''h''"] by fastforce
qed

text \<open>
  C20. \<open>HGetAll\<close> accepts a pointer to any map whose key kind is string, but stores the field
  names as plain \<open>string\<close> values: on a map with a defined string key type the call panics exactly
  when the hash has a live field, wherever the scan meets it; on a hash that is empty or has expired
  fields only it succeeds with an empty map. Fields that cannot be decoded are excluded.
\<close>

theorem hgetall_named_key_panics:
  assumes "memOpen db" "clockIs t db"
    and "\<forall>f. fieldState t (db_cfg db) zero (storeView db (namespacedKey kindHash name f)) \<noteq> FieldBad"
  shows "if \<exists>f v. liveFields t zero name db f = Some v
    then (\<exists>msg db'. HGetAll Background name (TMapPtr False zero) db = (Panic msg, db'))
    else (\<exists>db'. HGetAll Background name (TMapPtr False zero) db = (Ok Map.empty, db'))"
proof -
  have ok: "mem.dbOk db" using assms(1) by (simp add: memOpen_dbOk)
  let ?items = "mem.dbItems (namespacePrefix kindHash name) db"
  let ?live = "\<lambda>x. fieldValue (fieldState t (db_cfg db) zero (Some (snd x))) \<noteq> None"
  have good: "\<forall>x \<in> set ?items. fieldState t (db_cfg db) zero (Some (snd x)) \<noteq> FieldBad"
    using hash_items [OF assms(1)] assms(3) by (metis prod.collapse)
  have live: "(\<exists>f v. liveFields t zero name db f = Some v) \<longleftrightarrow> list_ex ?live ?items"
    unfolding hash_live_items [OF assms(1), symmetric] set_map_filter_iff list_ex_iff by fastforce
  note run = scanRun_named_key [OF assms(2) good, of "5 + length name" "(Map.empty, [])"]
  show ?thesis
  proof (cases "list_ex ?live ?items")
    case True
    then show ?thesis using ok run unfolding live by (auto simp: HGetAll_def bindE_def op_simps)
  next
    case False
    then show ?thesis
      using ok run unfolding live by (simp add: HGetAll_def bindE_def ret_def op_simps foldE_ignore_delete)
  qed
qed

theorem hgetall_named_key_panics_witness:
  "\<exists>msg db'. HGetAll Background ''h'' (TMapPtr False (ABytes []))
      (memDB [(namespacedKey kindHash ''h'' ''f'', envBytes ''bytes'' ''v'' 0)])
    = (Panic msg, db')"
proof -
  let ?db = "memDB [(namespacedKey kindHash ''h'' ''f'', envBytes ''bytes'' ''v'' 0)]"
  have lv: "mem.liveEnvelope 0 (envBytes ''bytes'' ''v'' 0)
      = Ok (Some \<lparr>env_expiresAt = 0, env_codec = ''bytes'', env_payload = ''v''\<rparr>)"
    by (simp add: mem.liveEnvelope_def int64_defs)
  have cd: "cfg_codecs (db_cfg ?db) ''bytes'' = Some (BytesCodec (\<lambda>_. ''unit''))"
    by (simp add: memDB_def newDB_def defaultConfig_def bytesCodecName_def)
  have st: "fieldState 0 (db_cfg ?db) (ABytes []) (storeView ?db (namespacedKey kindHash ''h'' f))
      = (if f = ''f'' then FieldLive (ABytes ''v'') else FieldAbsent)" for f
    using lv cd by (simp add: fieldState_def namespacedKey_def)
  then have "\<exists>f v. liveFields 0 (ABytes []) ''h'' ?db f = Some v" by (auto simp: liveFields_def)
  moreover have "\<forall>f. fieldState 0 (db_cfg ?db) (ABytes []) (storeView ?db (namespacedKey kindHash ''h'' f)) \<noteq> FieldBad"
    unfolding st by simp
  ultimately show ?thesis using hgetall_named_key_panics [of ?db 0 "ABytes []" "''h''"] by simp
qed

end
