(* ===== verification/GoStrings.thy ===== *)
theory GoStrings
  imports Prelude
begin

text \<open>
  What the Redis extension uses of Go's \<open>strconv\<close>, \<open>math/big\<close>, \<open>strings\<close>, \<open>unicode/utf8\<close> and
  \<open>path\<close> packages, on byte strings.
\<close>

section \<open>Decimal integers\<close>

definition digitVal :: "byte \<Rightarrow> nat option" where
  "digitVal c = (let n = of_char c :: nat in if 48 \<le> n \<and> n \<le> 57 then Some (n - 48) else None)"

definition digitChar :: "nat \<Rightarrow> byte" where
  "digitChar d = char_of (48 + d)"

text \<open>The errors of \<open>strconv.ParseInt\<close>.\<close>

datatype numError = NumSyntax | NumRange

text \<open>
  \<open>strconv.ParseUint\<close> in base 10 for a type with largest value \<open>maxVal\<close>: digits are accumulated
  left to right, a value beyond \<open>maxVal\<close> ends the loop with a range error.
\<close>

primrec parseUintLoop :: "nat \<Rightarrow> bytes \<Rightarrow> nat \<Rightarrow> numError + nat" where
  "parseUintLoop maxVal [] n = Inr n"
| "parseUintLoop maxVal (c # cs) n = (case digitVal c of
      None \<Rightarrow> Inl NumSyntax
    | Some d \<Rightarrow> if n * 10 + d > maxVal then Inl NumRange else parseUintLoop maxVal cs (n * 10 + d))"

definition splitSign :: "bytes \<Rightarrow> bool \<times> bytes" where
  "splitSign s = (case s of
      c # cs \<Rightarrow> if c = CHR ''+'' then (False, cs) else if c = CHR ''-'' then (True, cs) else (False, s)
    | [] \<Rightarrow> (False, []))"

definition ParseInt :: "nat \<Rightarrow> bytes \<Rightarrow> numError + int" where
  "ParseInt bits s = (case splitSign s of (neg, ds) \<Rightarrow>
      if ds = [] then Inl NumSyntax
      else (case parseUintLoop (2 ^ bits - 1) ds 0 of
          Inl e \<Rightarrow> Inl e
        | Inr un \<Rightarrow>
            if \<not> neg \<and> un \<ge> 2 ^ (bits - 1) then Inl NumRange
            else if neg \<and> un > 2 ^ (bits - 1) then Inl NumRange
            else Inr (if neg then - int un else int un)))"

text \<open>\<open>new(big.Int).SetString(s, 10)\<close>\<close>

primrec parseDigits :: "bytes \<Rightarrow> nat \<Rightarrow> nat option" where
  "parseDigits [] n = Some n"
| "parseDigits (c # cs) n = (case digitVal c of
      None \<Rightarrow> None
    | Some d \<Rightarrow> parseDigits cs (n * 10 + d))"

definition bigSetString :: "bytes \<Rightarrow> int option" where
  "bigSetString s = (case splitSign s of (neg, ds) \<Rightarrow>
      if ds = [] then None
      else map_option (\<lambda>n. if neg then - int n else int n) (parseDigits ds 0))"

text \<open>\<open>strconv.FormatInt(v, 10)\<close>, \<open>big.Int.String\<close> and the verb \<open>%d\<close>.\<close>

fun natDigits :: "nat \<Rightarrow> bytes" where
  "natDigits n = (if n < 10 then [digitChar n] else natDigits (n div 10) @ [digitChar (n mod 10)])"

declare natDigits.simps [simp del]

definition FormatInt :: "int \<Rightarrow> bytes" where
  "FormatInt v = (if v < 0 then CHR ''-'' # natDigits (nat (- v)) else natDigits (nat v))"

section \<open>Case\<close>

definition isASCII :: "bytes \<Rightarrow> bool" where
  "isASCII s \<longleftrightarrow> list_all (\<lambda>c. (of_char c :: nat) < 128) s"

definition upperByte :: "byte \<Rightarrow> byte" where
  "upperByte c = (let n = of_char c :: nat in if 97 \<le> n \<and> n \<le> 122 then char_of (n - 32) else c)"

text \<open>
  \<open>strings.ToUpper\<close>. A string with bytes above 127 is mapped rune by rune with the Unicode tables,
  which are the parameter \<open>upperUnicode\<close>.
\<close>

definition ToUpper :: "(bytes \<Rightarrow> bytes) \<Rightarrow> bytes \<Rightarrow> bytes" where
  "ToUpper upperUnicode s = (if isASCII s then map upperByte s else upperUnicode s)"

text \<open>
  \<open>strings.EqualFold(s, t)\<close> for a \<open>t\<close> of upper-case ASCII letters: the only other runes whose
  simple folding reaches an ASCII letter are U+017F (bytes C5 BF, folds to s) and U+212A (bytes
  E2 84 AA, folds to k).
\<close>

fun EqualFold :: "bytes \<Rightarrow> bytes \<Rightarrow> bool" where
  "EqualFold s [] = (s = [])"
| "EqualFold s (u # t) =
     (if s \<noteq> [] \<and> upperByte (hd s) = u then EqualFold (tl s) t
      else if u = CHR ''S'' \<and> take 2 s = [CHR 0xC5, CHR 0xBF] then EqualFold (drop 2 s) t
      else if u = CHR ''K'' \<and> take 3 s = [CHR 0xE2, CHR 0x84, CHR 0xAA] then EqualFold (drop 3 s) t
      else False)"

definition HasPrefix :: "bytes \<Rightarrow> bytes \<Rightarrow> bool" where
  "HasPrefix s p \<longleftrightarrow> take (length p) s = p"

definition HasSuffix :: "bytes \<Rightarrow> bytes \<Rightarrow> bool" where
  "HasSuffix s p \<longleftrightarrow> length p \<le> length s \<and> drop (length s - length p) s = p"

section \<open>White space\<close>

text \<open>
  The number of bytes of the white-space rune (\<open>unicode.IsSpace\<close>) at the head of a string, 0 when
  there is none. Bytes of a multi-byte rune are never ASCII nor lead bytes, so looking at every
  byte position finds exactly the runes that decoding the string would find.
\<close>

definition spaceLen :: "bytes \<Rightarrow> nat" where
  "spaceLen s = (case map of_char (take 3 s) :: nat list of
      [] \<Rightarrow> 0
    | a # r \<Rightarrow>
        if (9 \<le> a \<and> a \<le> 13) \<or> a = 32 then 1
        else (case r of
            [] \<Rightarrow> 0
          | b # r' \<Rightarrow>
              if a = 0xC2 \<and> (b = 0x85 \<or> b = 0xA0) then 2
              else (case r' of
                  [] \<Rightarrow> 0
                | c # _ \<Rightarrow>
                    if (a = 0xE1 \<and> b = 0x9A \<and> c = 0x80)
                     \<or> (a = 0xE2 \<and> b = 0x80 \<and> (0x80 \<le> c \<and> c \<le> 0x8A \<or> c = 0xA8 \<or> c = 0xA9 \<or> c = 0xAF))
                     \<or> (a = 0xE2 \<and> b = 0x81 \<and> c = 0x9F)
                     \<or> (a = 0xE3 \<and> b = 0x80 \<and> c = 0x80)
                    then 3 else 0)))"

text \<open>\<open>strings.Fields\<close>: \<open>skip\<close> bytes of the current white-space rune are still to be passed over.\<close>

primrec fieldsLoop :: "bytes \<Rightarrow> nat \<Rightarrow> bytes \<Rightarrow> bytes list" where
  "fieldsLoop [] skip word = (if word = [] then [] else [word])"
| "fieldsLoop (c # cs) skip word =
     (if skip > 0 then fieldsLoop cs (skip - 1) word
      else if spaceLen (c # cs) > 0
      then (if word = [] then [] else [word]) @ fieldsLoop cs (spaceLen (c # cs) - 1) []
      else fieldsLoop cs 0 (word @ [c]))"

definition Fields :: "bytes \<Rightarrow> bytes list" where
  "Fields s = fieldsLoop s 0 []"

end
