(* ===== verification/RESP.thy ===== *)
theory RESP
  imports GoStrings
begin

text \<open>
  The wire format of \<open>extensions/redis/resp.go\<close>. A connection's reader is the bytes it will still
  deliver before end of file; a parser returns its value and the bytes left. The texts of read and
  write errors never reach a client (the connection is closed), so they are constructors of
  \<open>readError\<close> and \<open>writeError\<close>.
\<close>

section \<open>Values\<close>

definition respSimple :: byte where "respSimple = CHR ''+''"
definition respError :: byte where "respError = CHR ''-''"
definition respInteger :: byte where "respInteger = CHR '':''"
definition respBulk :: byte where "respBulk = CHR ''$''"
definition respArray :: byte where "respArray = CHR ''*''"
definition respMap :: byte where "respMap = CHR ''%''"

lemmas resp_kind_defs =
  respSimple_def respError_def respInteger_def respBulk_def respArray_def respMap_def

lemma resp_kinds_distinct [simp]:
  "respSimple \<noteq> respError" "respSimple \<noteq> respInteger" "respSimple \<noteq> respBulk"
  "respSimple \<noteq> respArray" "respSimple \<noteq> respMap" "respError \<noteq> respInteger"
  "respError \<noteq> respBulk" "respError \<noteq> respArray" "respError \<noteq> respMap"
  "respInteger \<noteq> respBulk" "respInteger \<noteq> respArray" "respInteger \<noteq> respMap"
  "respBulk \<noteq> respArray" "respBulk \<noteq> respMap" "respArray \<noteq> respMap"
  "respError \<noteq> respSimple" "respInteger \<noteq> respSimple" "respBulk \<noteq> respSimple"
  "respArray \<noteq> respSimple" "respMap \<noteq> respSimple" "respInteger \<noteq> respError"
  "respBulk \<noteq> respError" "respArray \<noteq> respError" "respMap \<noteq> respError"
  "respBulk \<noteq> respInteger" "respArray \<noteq> respInteger" "respMap \<noteq> respInteger"
  "respArray \<noteq> respBulk" "respMap \<noteq> respBulk" "respMap \<noteq> respArray"
  by (simp_all add: resp_kind_defs)

definition maxRESPLine :: nat where "maxRESPLine = 2 ^ 20"
definition maxRESPBulk :: int where "maxRESPBulk = 64 * 2 ^ 20"
definition maxRESPArgs :: nat where "maxRESPArgs = 1024"

datatype respValue = RespValue (resp_kind: byte) (resp_data: bytes) (resp_value: int)
  (resp_items: "respValue list") (resp_null: bool)

definition respSimpleString :: "bytes \<Rightarrow> respValue" where
  "respSimpleString value = RespValue respSimple value 0 [] False"

definition respErrorString :: "bytes \<Rightarrow> respValue" where
  "respErrorString value = RespValue respError value 0 [] False"

definition respIntegerValue :: "int \<Rightarrow> respValue" where
  "respIntegerValue value = RespValue respInteger [] value [] False"

definition respBulkBytes :: "bytes \<Rightarrow> respValue" where
  "respBulkBytes value = RespValue respBulk value 0 [] False"

definition respBulkString :: "bytes \<Rightarrow> respValue" where
  "respBulkString value = respBulkBytes value"

definition respNil :: respValue where
  "respNil = RespValue respBulk [] 0 [] True"

definition respArrayValues :: "respValue list \<Rightarrow> respValue" where
  "respArrayValues items = RespValue respArray [] 0 items False"

definition respMapValues :: "respValue list \<Rightarrow> respValue" where
  "respMapValues items = RespValue respMap [] 0 items False"

lemmas resp_value_defs =
  respSimpleString_def respErrorString_def respIntegerValue_def respBulkBytes_def
  respBulkString_def respNil_def respArrayValues_def respMapValues_def

section \<open>Reading\<close>

datatype readError =
    ReadEOF | ReadUnexpectedEOF | MalformedCRLF | LineTooLong | MalformedBulkTerminator
  | InvalidLength numError | InvalidInteger numError | InvalidInlineCommand
  | InvalidArrayLength int | InvalidMapLength int | InvalidBulkLength int
  | NullCommandArgument | NullMapMember | ReadOutOfFuel

type_synonym 'a reader = "bytes \<Rightarrow> readError + 'a \<times> bytes"

definition newline :: byte where "newline = CHR 0x0A"
definition carriageReturn :: byte where "carriageReturn = CHR 0x0D"
definition crlf :: bytes where "crlf = [carriageReturn, newline]"

definition readRESPLine :: "bytes reader" where
  "readRESPLine input = (case dropWhile (\<lambda>c. c \<noteq> newline) input of
      [] \<Rightarrow> Inl ReadEOF
    | _ # rest \<Rightarrow>
        let line = takeWhile (\<lambda>c. c \<noteq> newline) input in
        if line = [] \<or> last line \<noteq> carriageReturn then Inl MalformedCRLF
        else if length (butlast line) > maxRESPLine then Inl LineTooLong
        else Inr (butlast line, rest))"

definition readRESPInt :: "int reader" where
  "readRESPInt input = (case readRESPLine input of
      Inl e \<Rightarrow> Inl e
    | Inr (line, rest) \<Rightarrow> (case ParseInt 32 line of
          Inl e \<Rightarrow> Inl (InvalidLength e)
        | Inr value \<Rightarrow> Inr (value, rest)))"

definition readRESPLineAfterPrefix :: "byte \<Rightarrow> bytes reader" where
  "readRESPLineAfterPrefix prfx input = (case readRESPLine input of
      Inl e \<Rightarrow> Inl e
    | Inr (line, rest) \<Rightarrow> Inr (prfx # line, rest))"

text \<open>\<open>io.ReadFull\<close> of \<open>n\<close> bytes.\<close>

definition readFull :: "nat \<Rightarrow> bytes reader" where
  "readFull n input =
     (if n \<le> length input then Inr (take n input, drop n input)
      else if input = [] then Inl ReadEOF else Inl ReadUnexpectedEOF)"

definition expectCRLF :: "unit reader" where
  "expectCRLF input = (case readFull 2 input of
      Inl e \<Rightarrow> Inl e
    | Inr (suff, rest) \<Rightarrow> if suff \<noteq> crlf then Inl MalformedBulkTerminator else Inr ((), rest))"

text \<open>The item loops of arrays and maps, over the reader of one item.\<close>

primrec readItems :: "respValue reader \<Rightarrow> readError \<Rightarrow> nat \<Rightarrow> respValue list reader" where
  "readItems item nullError 0 input = Inr ([], input)"
| "readItems item nullError (Suc n) input = (case item input of
      Inl e \<Rightarrow> Inl e
    | Inr (v, rest) \<Rightarrow>
        if resp_null v then Inl nullError
        else (case readItems item nullError n rest of
            Inl e \<Rightarrow> Inl e
          | Inr (vs, rest') \<Rightarrow> Inr (v # vs, rest')))"

definition readBulk :: "respValue reader" where
  "readBulk input = (case readRESPInt input of
      Inl e \<Rightarrow> Inl e
    | Inr (len, rest) \<Rightarrow>
        if len = -1 then Inr (respNil, rest)
        else if len < 0 \<or> len > maxRESPBulk then Inl (InvalidBulkLength len)
        else (case readFull (nat len) rest of
            Inl e \<Rightarrow> Inl e
          | Inr (data, rest') \<Rightarrow> (case expectCRLF rest' of
                Inl e \<Rightarrow> Inl e
              | Inr (_, rest'') \<Rightarrow> Inr (RespValue respBulk data 0 [] False, rest''))))"

definition readScalar :: "byte \<Rightarrow> respValue reader" where
  "readScalar prfx input = (case readRESPLine input of
      Inl e \<Rightarrow> Inl e
    | Inr (line, rest) \<Rightarrow>
        if prfx = respInteger
        then (case ParseInt 64 line of
            Inl e \<Rightarrow> Inl (InvalidInteger e)
          | Inr value \<Rightarrow> Inr (RespValue respInteger [] value [] False, rest))
        else Inr (RespValue prfx line 0 [] False, rest))"

definition readInline :: "byte \<Rightarrow> respValue reader" where
  "readInline prfx input = (case readRESPLineAfterPrefix prfx input of
      Inl e \<Rightarrow> Inl e
    | Inr (line, rest) \<Rightarrow>
        let parts = Fields line in
        if parts = [] \<or> length parts > maxRESPArgs then Inl InvalidInlineCommand
        else Inr (RespValue respArray [] 0
               (map (\<lambda>part. RespValue respBulk part 0 [] False) parts) False, rest))"

definition readArray :: "respValue reader \<Rightarrow> respValue reader" where
  "readArray item input = (case readRESPInt input of
      Inl e \<Rightarrow> Inl e
    | Inr (count, rest) \<Rightarrow>
        if count < 0 \<or> count > int maxRESPArgs then Inl (InvalidArrayLength count)
        else (case readItems item NullCommandArgument (nat count) rest of
            Inl e \<Rightarrow> Inl e
          | Inr (items, rest') \<Rightarrow> Inr (RespValue respArray [] 0 items False, rest')))"

definition readMap :: "respValue reader \<Rightarrow> respValue reader" where
  "readMap item input = (case readRESPInt input of
      Inl e \<Rightarrow> Inl e
    | Inr (count, rest) \<Rightarrow>
        if count < 0 \<or> count > int maxRESPArgs then Inl (InvalidMapLength count)
        else (case readItems item NullMapMember (nat (count * 2)) rest of
            Inl e \<Rightarrow> Inl e
          | Inr (items, rest') \<Rightarrow> Inr (RespValue respMap [] 0 items False, rest')))"

text \<open>\<open>fuel\<close> bounds the nesting depth; a value nests no deeper than it has bytes.\<close>

primrec readRESP :: "nat \<Rightarrow> respValue reader" where
  "readRESP 0 input = Inl ReadOutOfFuel"
| "readRESP (Suc fuel) input = (case input of
      [] \<Rightarrow> Inl ReadEOF
    | prfx # rest \<Rightarrow>
        if prfx = respArray then readArray (readRESP fuel) rest
        else if prfx = respMap then readMap (readRESP fuel) rest
        else if prfx = respBulk then readBulk rest
        else if prfx = respSimple \<or> prfx = respError \<or> prfx = respInteger then readScalar prfx rest
        else readInline prfx rest)"

text \<open>One request of a connection.\<close>

definition readRequest :: "respValue reader" where
  "readRequest input = readRESP (Suc (length input)) input"

section \<open>Writing\<close>

datatype writeError = MapRequiresPairs | UnsupportedKind byte

primrec concatReplies :: "(writeError + bytes) list \<Rightarrow> writeError + bytes" where
  "concatReplies [] = Inr []"
| "concatReplies (r # rs) = (case r of
      Inl e \<Rightarrow> Inl e
    | Inr out \<Rightarrow> (case concatReplies rs of Inl e \<Rightarrow> Inl e | Inr outs \<Rightarrow> Inr (out @ outs)))"

definition prependOut :: "bytes \<Rightarrow> writeError + bytes \<Rightarrow> writeError + bytes" where
  "prependOut out r = (case r of Inl e \<Rightarrow> Inl e | Inr outs \<Rightarrow> Inr (out @ outs))"

text \<open>\<open>bytes.ReplaceAll\<close> of the two line-end bytes by nothing.\<close>

definition stripLineEnds :: "bytes \<Rightarrow> bytes" where
  "stripLineEnds data = filter (\<lambda>c. c \<noteq> carriageReturn \<and> c \<noteq> newline) data"

primrec writeRESP :: "respValue \<Rightarrow> writeError + bytes" where
  "writeRESP (RespValue kind data value items null) =
     (if kind = respSimple \<or> kind = respError then Inr (kind # stripLineEnds data @ crlf)
      else if kind = respInteger then Inr (CHR '':'' # FormatInt value @ crlf)
      else if kind = respBulk then
        (if null then Inr (''$-1'' @ crlf)
         else Inr (CHR ''$'' # FormatInt (int (length data)) @ crlf @ data @ crlf))
      else if kind = respArray then
        (if null then Inr (''*-1'' @ crlf)
         else prependOut (CHR ''*'' # FormatInt (int (length items)) @ crlf)
                (concatReplies (map writeRESP items)))
      else if kind = respMap then
        (if null then Inr (''%-1'' @ crlf)
         else if length items mod 2 \<noteq> 0 then Inl MapRequiresPairs
         else prependOut (CHR ''%'' # FormatInt (int (length items div 2)) @ crlf)
                (concatReplies (map writeRESP items)))
      else Inl (UnsupportedKind kind))"

end
