(* ===== verification/RESPProps.thy ===== *)
theory RESPProps
  imports RESP
begin

text \<open>
  Properties of the wire format: decimal round trips, termination of the parser for every input,
  and that a client's parser recovers what \<open>writeRESP\<close> sent.
\<close>

section \<open>Decimal integers\<close>

lemma digitVal_digitChar [simp]: "d < 10 \<Longrightarrow> digitVal (digitChar d) = Some d"
  by (simp add: digitVal_def digitChar_def of_char_of)

lemma digitChar_not_special [simp]:
  assumes "d < 10"
  shows "digitChar d \<noteq> CHR ''+''" "digitChar d \<noteq> CHR ''-''" "digitChar d \<noteq> newline"
    "digitChar d \<noteq> carriageReturn"
proof -
  have *: "digitChar d = c \<Longrightarrow> digitVal c = Some d" for c using assms by auto
  show "digitChar d \<noteq> CHR ''+''" "digitChar d \<noteq> CHR ''-''" "digitChar d \<noteq> newline"
    "digitChar d \<noteq> carriageReturn"
    by (auto dest!: * simp: digitVal_def newline_def carriageReturn_def)
qed

lemma natDigits_not_Nil [simp]: "natDigits n \<noteq> []"
  by (subst natDigits.simps) simp

lemma natDigits_chars: "c \<in> set (natDigits n) \<Longrightarrow> \<exists>d < 10. c = digitChar d"
proof (induction n rule: natDigits.induct)
  case (1 n)
  then show ?case
    by (subst (asm) natDigits.simps) (auto split: if_splits intro: exI [of _ "n mod 10"])
qed

lemma natDigits_no_line_end [simp]:
  "newline \<notin> set (natDigits n)" "carriageReturn \<notin> set (natDigits n)"
  using natDigits_chars digitChar_not_special by metis+

lemma FormatInt_no_line_end [simp]: "newline \<notin> set (FormatInt v)" "carriageReturn \<notin> set (FormatInt v)"
  by (simp_all add: FormatInt_def) (simp_all add: newline_def carriageReturn_def)

lemma splitSign_FormatInt [simp]: "splitSign (FormatInt v) = (v < 0, natDigits (nat \<bar>v\<bar>))"
proof (cases "v < 0")
  case True
  then show ?thesis by (simp add: FormatInt_def splitSign_def)
next
  case False
  obtain c cs where ds: "natDigits (nat v) = c # cs" by (meson natDigits_not_Nil neq_Nil_conv)
  then obtain d where "d < 10" "c = digitChar d" using natDigits_chars [of c "nat v"] by auto
  then show ?thesis using False ds digitChar_not_special [of d] by (simp add: FormatInt_def splitSign_def)
qed

lemma parseUintLoop_natDigits:
  "n \<le> m \<Longrightarrow> parseUintLoop m (natDigits n @ cs) 0 = parseUintLoop m cs n"
proof (induction n arbitrary: cs rule: natDigits.induct)
  case (1 n)
  show ?case
  proof (cases "n < 10")
    case True
    with 1 show ?thesis by (subst natDigits.simps) simp
  next
    case False
    have "n div 10 \<le> m" using 1 by simp
    then have "parseUintLoop m (natDigits (n div 10) @ digitChar (n mod 10) # cs) 0
        = parseUintLoop m (digitChar (n mod 10) # cs) (n div 10)"
      using 1 False by simp
    moreover have "n div 10 * 10 + n mod 10 = n" by simp
    ultimately show ?thesis using False 1 by (subst natDigits.simps) simp
  qed
qed

lemma parseDigits_natDigits: "parseDigits (natDigits n @ cs) 0 = parseDigits cs n"
proof (induction n arbitrary: cs rule: natDigits.induct)
  case (1 n)
  show ?case
  proof (cases "n < 10")
    case True
    then show ?thesis by (subst natDigits.simps) simp
  next
    case False
    then have "parseDigits (natDigits (n div 10) @ digitChar (n mod 10) # cs) 0
        = parseDigits (digitChar (n mod 10) # cs) (n div 10)"
      using 1 by simp
    moreover have "n div 10 * 10 + n mod 10 = n" by simp
    ultimately show ?thesis using False by (subst natDigits.simps) simp
  qed
qed

lemma ParseInt_FormatInt:
  assumes "- (2 ^ (bits - 1)) \<le> v" "v < 2 ^ (bits - 1)" "0 < bits"
  shows "ParseInt bits (FormatInt v) = Inr v"
proof -
  have bits: "(2::nat) ^ bits = 2 * 2 ^ (bits - 1)" using assms(3) by (simp add: power_eq_if)
  have lo: "nat \<bar>v\<bar> \<le> 2 ^ (bits - 1)"
    using assms(1,2) by (simp add: nat_le_iff)
  have "1 \<le> (2::nat) ^ (bits - 1)" by simp
  with lo bits have "nat \<bar>v\<bar> \<le> 2 ^ bits - 1" by linarith
  then have "parseUintLoop (2 ^ bits - 1) (natDigits (nat \<bar>v\<bar>)) 0 = Inr (nat \<bar>v\<bar>)"
    using parseUintLoop_natDigits [of "nat \<bar>v\<bar>" "2 ^ bits - 1" "[]"] by simp
  moreover have "\<not> v < 0 \<Longrightarrow> nat \<bar>v\<bar> < 2 ^ (bits - 1)" using assms(2) by (simp add: nat_less_iff)
  ultimately show ?thesis using lo by (auto simp: ParseInt_def)
qed

lemma bigSetString_FormatInt [simp]: "bigSetString (FormatInt v) = Some v"
  using parseDigits_natDigits [of "nat \<bar>v\<bar>" "[]"] by (simp add: bigSetString_def)

lemma length_natDigits: "0 < k \<Longrightarrow> n < 10 ^ k \<Longrightarrow> length (natDigits n) \<le> k"
proof (induction n arbitrary: k rule: natDigits.induct)
  case (1 n)
  show ?case
  proof (cases "n < 10")
    case True
    with 1 show ?thesis by (subst natDigits.simps) simp
  next
    case False
    then obtain j where k: "k = Suc j" "0 < j" using 1 by (cases k; cases "k - 1") auto
    then have "n div 10 < 10 ^ j" using 1 by (simp add: less_mult_imp_div_less mult.commute)
    with 1 False k have "length (natDigits (n div 10)) \<le> j" by simp
    with False k show ?thesis by (subst natDigits.simps) simp
  qed
qed

lemma length_FormatInt: "\<bar>v\<bar> < 10 ^ 20 \<Longrightarrow> length (FormatInt v) \<le> maxRESPLine"
proof -
  assume "\<bar>v\<bar> < 10 ^ 20"
  then have "nat \<bar>v\<bar> < 10 ^ 20" by (simp add: nat_less_iff)
  then have "length (natDigits (nat \<bar>v\<bar>)) \<le> 20" by (intro length_natDigits) simp_all
  then show ?thesis by (cases "v < 0") (simp_all add: FormatInt_def maxRESPLine_def)
qed

section \<open>The parser ends on every input\<close>

lemma readRESPLine_consumes: "readRESPLine input = Inr (line, rest) \<Longrightarrow> length rest < length input"
proof -
  assume line: "readRESPLine input = Inr (line, rest)"
  then obtain c where "dropWhile (\<lambda>c. c \<noteq> newline) input = c # rest"
    by (auto simp: readRESPLine_def Let_def split: list.splits if_splits)
  then have "length (c # rest) \<le> length input" by (metis length_dropWhile_le)
  then show ?thesis by simp
qed

lemma readRESPInt_consumes: "readRESPInt input = Inr (n, rest) \<Longrightarrow> length rest < length input"
  by (auto simp: readRESPInt_def split: sum.splits dest: readRESPLine_consumes)

lemma readFull_consumes: "readFull n input = Inr (x, rest) \<Longrightarrow> length rest \<le> length input"
  by (auto simp: readFull_def split: if_splits)

lemma expectCRLF_consumes: "expectCRLF input = Inr (x, rest) \<Longrightarrow> length rest \<le> length input"
  by (auto simp: expectCRLF_def split: sum.splits if_splits dest: readFull_consumes)

lemma readBulk_consumes: "readBulk input = Inr (v, rest) \<Longrightarrow> length rest < length input"
  by (auto simp: readBulk_def split: sum.splits if_splits
      dest!: readRESPInt_consumes readFull_consumes expectCRLF_consumes)

lemma readScalar_consumes: "readScalar c input = Inr (v, rest) \<Longrightarrow> length rest < length input"
  by (auto simp: readScalar_def split: sum.splits if_splits dest!: readRESPLine_consumes)

lemma readInline_consumes: "readInline c input = Inr (v, rest) \<Longrightarrow> length rest < length input"
  by (auto simp: readInline_def readRESPLineAfterPrefix_def Let_def split: sum.splits if_splits
      dest!: readRESPLine_consumes)

definition consumes :: "'a reader \<Rightarrow> bool" where
  "consumes rd \<longleftrightarrow> (\<forall>input v rest. rd input = Inr (v, rest) \<longrightarrow> length rest < length input)"

lemma readItems_consumes:
  "consumes item \<Longrightarrow> readItems item e n input = Inr (vs, rest) \<Longrightarrow> length rest \<le> length input"
proof (induction n arbitrary: input vs)
  case (Suc n)
  then obtain v mid vs' where "item input = Inr (v, mid)" "readItems item e n mid = Inr (vs', rest)"
    by (auto split: sum.splits if_splits)
  with Suc show ?case unfolding consumes_def by (meson le_trans less_imp_le)
qed simp

lemma readRESP_consumes: "consumes (readRESP fuel)"
proof (induction fuel)
  case (Suc fuel)
  have "length rest < length input" if "readRESP (Suc fuel) input = Inr (v, rest)" for input v rest
  proof -
    from that obtain c body where input: "input = c # body" by (cases input) auto
    have "length rest < length body" if "readArray (readRESP fuel) body = Inr (v, rest)"
      using that by (auto simp: readArray_def split: sum.splits if_splits
          dest!: readRESPInt_consumes readItems_consumes [OF Suc])
    moreover have "length rest < length body" if "readMap (readRESP fuel) body = Inr (v, rest)"
      using that by (auto simp: readMap_def split: sum.splits if_splits
          dest!: readRESPInt_consumes readItems_consumes [OF Suc])
    ultimately show ?thesis
      using that input readBulk_consumes [of body v rest] readScalar_consumes [of c body v rest]
        readInline_consumes [of c body v rest]
      by (auto split: if_splits)
  qed
  then show ?case by (auto simp: consumes_def)
qed (simp add: consumes_def)

lemma readItems_cong:
  assumes "consumes item" "\<And>i. length i \<le> length input \<Longrightarrow> item i = item' i"
  shows "readItems item e n input = readItems item' e n input"
  using assms(2)
proof (induction n arbitrary: input)
  case (Suc n)
  have "readItems item e n rest = readItems item' e n rest" if "item input = Inr (v, rest)" for v rest
  proof -
    have "length rest < length input" using assms(1) that by (auto simp: consumes_def)
    with Suc show ?thesis by simp
  qed
  moreover have "item input = item' input" using Suc.prems by simp
  ultimately show ?case by (auto split: sum.split)
qed simp

lemma readItems_fuel:
  assumes "consumes item" "\<And>i. length i \<le> length input \<Longrightarrow> item i \<noteq> Inl ReadOutOfFuel"
    and "e \<noteq> ReadOutOfFuel"
  shows "readItems item e n input \<noteq> Inl ReadOutOfFuel"
  using assms(2)
proof (induction n arbitrary: input)
  case (Suc n)
  have "readItems item e n rest \<noteq> Inl ReadOutOfFuel" if "item input = Inr (v, rest)" for v rest
  proof -
    have "length rest < length input" using assms(1) that by (auto simp: consumes_def)
    with Suc show ?thesis by simp
  qed
  moreover have "item input \<noteq> Inl ReadOutOfFuel" using Suc.prems by simp
  ultimately show ?case using assms(3) by (auto split: sum.split)
qed simp

lemma readRESP_fuel_eq:
  "length input < f \<Longrightarrow> length input < g \<Longrightarrow> readRESP f input = readRESP g input"
proof (induction f arbitrary: g input)
  case (Suc f)
  then obtain g' where g: "g = Suc g'" by (cases g) auto
  have items: "readItems (readRESP f) e n rest = readItems (readRESP g') e n rest"
    if "length rest < length input" for e n rest
    using that Suc.prems g by (intro readItems_cong [OF readRESP_consumes] Suc.IH) auto
  show ?case
  proof (cases input)
    case (Cons c body)
    have "readArray (readRESP f) body = readArray (readRESP g') body"
      using items Cons by (auto simp: readArray_def split: sum.split dest: readRESPInt_consumes)
    moreover have "readMap (readRESP f) body = readMap (readRESP g') body"
      using items Cons by (auto simp: readMap_def split: sum.split dest: readRESPInt_consumes)
    ultimately show ?thesis using Cons g by simp
  qed (simp add: g)
qed simp

lemma flat_readers_fuel:
  "readRESPLine input \<noteq> Inl ReadOutOfFuel" "readBulk input \<noteq> Inl ReadOutOfFuel"
  "readScalar c input \<noteq> Inl ReadOutOfFuel" "readInline c input \<noteq> Inl ReadOutOfFuel"
  "readRESPInt input \<noteq> Inl ReadOutOfFuel"
  by (auto simp: readRESPLine_def readBulk_def readScalar_def readInline_def readRESPInt_def
      readRESPLineAfterPrefix_def readFull_def expectCRLF_def Let_def
      split: list.splits sum.splits if_splits)

lemma readRESP_fuel: "length input < f \<Longrightarrow> readRESP f input \<noteq> Inl ReadOutOfFuel"
proof (induction f arbitrary: input)
  case (Suc f)
  have items: "readItems (readRESP f) e n rest \<noteq> Inl ReadOutOfFuel"
    if "length rest < length input" "e \<noteq> ReadOutOfFuel" for e n rest
    using that Suc.prems by (intro readItems_fuel [OF readRESP_consumes] Suc.IH) auto
  show ?case
  proof (cases input)
    case (Cons c body)
    have "readArray (readRESP f) body \<noteq> Inl ReadOutOfFuel"
      using items Cons flat_readers_fuel(5) [of body]
      by (auto simp: readArray_def split: sum.split dest: readRESPInt_consumes)
    moreover have "readMap (readRESP f) body \<noteq> Inl ReadOutOfFuel"
      using items Cons flat_readers_fuel(5) [of body]
      by (auto simp: readMap_def split: sum.split dest: readRESPInt_consumes)
    ultimately show ?thesis using Cons flat_readers_fuel by simp
  qed simp
qed simp

text \<open>
  C21. The request parser ends on every input: with fuel for the length of the input it never runs
  out, more fuel does not change its answer, and a request it accepts has consumed at least one
  byte, so the loop that serves a connection makes progress.
\<close>

theorem readRequest_total:
  "readRequest input \<noteq> Inl ReadOutOfFuel \<and>
   (length input < fuel \<longrightarrow> readRESP fuel input = readRequest input) \<and>
   (readRequest input = Inr (v, rest) \<longrightarrow> length rest < length input)"
  using readRESP_fuel [of input "Suc (length input)"]
    readRESP_fuel_eq [of input fuel "Suc (length input)"] readRESP_consumes [of "Suc (length input)"]
  by (auto simp: readRequest_def consumes_def)

theorem readRequest_total_witness:
  "readRESP 9 (''PING'' @ crlf) = readRequest (''PING'' @ crlf)"
  using readRequest_total [of "''PING'' @ crlf" 9] by (simp add: crlf_def)

section \<open>Writing and reading back\<close>

text \<open>The values that both ends agree on: every length within the limits of the parser.\<close>

primrec respWf :: "respValue \<Rightarrow> bool" where
  "respWf (RespValue kind data value items null) =
     ((kind = respSimple \<or> kind = respError) \<and> value = 0 \<and> items = [] \<and> \<not> null \<and>
         newline \<notin> set data \<and> carriageReturn \<notin> set data \<and> length data \<le> maxRESPLine
      \<or> kind = respInteger \<and> data = [] \<and> isInt64 value \<and> items = [] \<and> \<not> null
      \<or> kind = respBulk \<and> value = 0 \<and> items = [] \<and>
         (if null then data = [] else int (length data) \<le> maxRESPBulk)
      \<or> kind = respArray \<and> data = [] \<and> value = 0 \<and> \<not> null \<and> length items \<le> maxRESPArgs \<and>
         list_all (\<lambda>b. b) (map respWf items) \<and> list_all (\<lambda>i. \<not> resp_null i) items
      \<or> kind = respMap \<and> data = [] \<and> value = 0 \<and> \<not> null \<and> even (length items) \<and>
         length items div 2 \<le> maxRESPArgs \<and>
         list_all (\<lambda>b. b) (map respWf items) \<and> list_all (\<lambda>i. \<not> resp_null i) items)"

lemma readRESPLine_crlf:
  assumes "newline \<notin> set line" "length line \<le> maxRESPLine"
  shows "readRESPLine (line @ crlf @ rest) = Inr (line, rest)"
proof -
  have "carriageReturn \<noteq> newline" by (simp add: carriageReturn_def newline_def)
  with assms have "takeWhile (\<lambda>c. c \<noteq> newline) (line @ crlf @ rest) = line @ [carriageReturn]"
    and "dropWhile (\<lambda>c. c \<noteq> newline) (line @ crlf @ rest) = newline # rest"
    by (simp_all add: crlf_def takeWhile_append dropWhile_append)
  with assms show ?thesis by (simp add: readRESPLine_def)
qed

lemma readRESPInt_FormatInt:
  assumes "- (2 ^ 31) \<le> v" "v < 2 ^ 31"
  shows "readRESPInt (FormatInt v @ crlf @ rest) = Inr (v, rest)"
proof -
  have "length (FormatInt v) \<le> maxRESPLine" using assms by (intro length_FormatInt) simp
  moreover have "ParseInt 32 (FormatInt v) = Inr v" using assms by (intro ParseInt_FormatInt) simp_all
  ultimately show ?thesis by (simp add: readRESPInt_def readRESPLine_crlf)
qed

lemma readRESPInt_minus1: "readRESPInt (''-1'' @ crlf @ rest) = Inr (-1, rest)"
proof -
  have "FormatInt (-1) = ''-1''" by code_simp
  then show ?thesis using readRESPInt_FormatInt [of "-1" rest] by simp
qed

lemma readBulk_write:
  assumes "int (length data) \<le> maxRESPBulk"
  shows "readBulk (FormatInt (int (length data)) @ crlf @ data @ crlf @ rest)
     = Inr (RespValue respBulk data 0 [] False, rest)"
proof -
  have "readRESPInt (FormatInt (int (length data)) @ crlf @ data @ crlf @ rest)
      = Inr (int (length data), data @ crlf @ rest)"
    using assms by (intro readRESPInt_FormatInt) (simp_all add: maxRESPBulk_def)
  moreover have "expectCRLF (crlf @ rest) = Inr ((), rest)"
    by (simp add: expectCRLF_def readFull_def crlf_def)
  ultimately show ?thesis using assms by (simp add: readBulk_def readFull_def)
qed

text \<open>A written value is read back by any parser with fuel for its bytes.\<close>

definition readsBack :: "respValue \<Rightarrow> bytes \<Rightarrow> bool" where
  "readsBack v out \<longleftrightarrow> (\<forall>fuel rest. length out \<le> fuel \<longrightarrow> readRESP fuel (out @ rest) = Inr (v, rest))"

lemma readItems_write:
  assumes "list_all2 (\<lambda>v r. \<exists>out. r = Inr out \<and> readsBack v out) items outs"
    and "list_all (\<lambda>i. \<not> resp_null i) items"
  shows "\<exists>out. concatReplies outs = Inr out \<and>
    (\<forall>fuel rest. length out \<le> fuel \<longrightarrow>
       readItems (readRESP fuel) e (length items) (out @ rest) = Inr (items, rest))"
  using assms
proof (induction items arbitrary: outs)
  case (Cons v items)
  then obtain out1 rs where outs: "outs = Inr out1 # rs" and one: "readsBack v out1"
    and rest: "list_all2 (\<lambda>v r. \<exists>out. r = Inr out \<and> readsBack v out) items rs"
    by (auto simp: list_all2_Cons1)
  from Cons.IH [OF rest] Cons.prems obtain out2 where out2: "concatReplies rs = Inr out2"
    "\<And>fuel rest. length out2 \<le> fuel \<Longrightarrow>
       readItems (readRESP fuel) e (length items) (out2 @ rest) = Inr (items, rest)" by auto
  have "readItems (readRESP fuel) e (length (v # items)) ((out1 @ out2) @ rest) = Inr (v # items, rest)"
    if "length (out1 @ out2) \<le> fuel" for fuel rest
    using that one out2(2) [of fuel rest] Cons.prems by (simp add: readsBack_def)
  with outs out2(1) show ?case by (intro exI [of _ "out1 @ out2"]) simp
qed simp

lemma readsBack_Cons:
  assumes "\<And>fuel rest. length out \<le> fuel \<Longrightarrow> readRESP (Suc fuel) (c # out @ rest) = Inr (v, rest)"
  shows "readsBack v (c # out)"
  unfolding readsBack_def
proof (intro allI impI)
  fix fuel rest
  assume "length (c # out) \<le> fuel"
  then show "readRESP fuel ((c # out) @ rest) = Inr (v, rest)"
    using assms [of "fuel - 1" rest] by (cases fuel) simp_all
qed

lemma readsBack_scalar:
  assumes "kind = respSimple \<or> kind = respError" "newline \<notin> set data" "length data \<le> maxRESPLine"
  shows "readsBack (RespValue kind data 0 [] False) (kind # data @ crlf)"
  using assms by (intro readsBack_Cons) (auto simp: readScalar_def readRESPLine_crlf)

lemma readsBack_integer:
  assumes "isInt64 v"
  shows "readsBack (RespValue respInteger [] v [] False) (CHR '':'' # FormatInt v @ crlf)"
proof -
  have "ParseInt 64 (FormatInt v) = Inr v"
    using assms by (intro ParseInt_FormatInt) (simp_all add: int64_defs)
  moreover have "length (FormatInt v) \<le> maxRESPLine"
    using assms by (intro length_FormatInt) (auto simp: int64_defs)
  ultimately show ?thesis unfolding respInteger_def [symmetric]
    by (intro readsBack_Cons) (simp add: readScalar_def readRESPLine_crlf)
qed

lemma readsBack_bulk:
  "int (length data) \<le> maxRESPBulk \<Longrightarrow>
   readsBack (RespValue respBulk data 0 [] False) (CHR ''$'' # FormatInt (int (length data)) @ crlf @ data @ crlf)"
  "readsBack (RespValue respBulk [] 0 [] True) (CHR ''$'' # ''-1'' @ crlf)"
  unfolding respBulk_def [symmetric]
  using readBulk_write [of data] readRESPInt_minus1
  by (auto intro!: readsBack_Cons simp: readBulk_def respNil_def)

lemma readsBack_array:
  assumes "length items \<le> maxRESPArgs"
    and "\<And>fuel rest. length out \<le> fuel \<Longrightarrow> readItems (readRESP fuel) NullCommandArgument (length items) (out @ rest)
           = Inr (items, rest)"
  shows "readsBack (RespValue respArray [] 0 items False) (CHR ''*'' # FormatInt (int (length items)) @ crlf @ out)"
  unfolding respArray_def [symmetric]
proof (rule readsBack_Cons)
  fix fuel rest
  assume "length (FormatInt (int (length items)) @ crlf @ out) \<le> fuel"
  moreover have "readRESPInt (FormatInt (int (length items)) @ crlf @ out @ rest) = Inr (int (length items), out @ rest)"
    using assms(1) by (intro readRESPInt_FormatInt) (simp_all add: maxRESPArgs_def)
  ultimately show "readRESP (Suc fuel) (respArray # (FormatInt (int (length items)) @ crlf @ out) @ rest)
      = Inr (RespValue respArray [] 0 items False, rest)"
    using assms by (simp add: readArray_def)
qed

lemma readsBack_map:
  assumes "length items div 2 \<le> maxRESPArgs" "even (length items)"
    and "\<And>fuel rest. length out \<le> fuel \<Longrightarrow> readItems (readRESP fuel) NullMapMember (length items) (out @ rest)
           = Inr (items, rest)"
  shows "readsBack (RespValue respMap [] 0 items False) (CHR ''%'' # FormatInt (int (length items div 2)) @ crlf @ out)"
  unfolding respMap_def [symmetric]
proof (rule readsBack_Cons)
  fix fuel rest
  let ?n = "length items div 2"
  assume "length (FormatInt (int ?n) @ crlf @ out) \<le> fuel"
  moreover have "readRESPInt (FormatInt (int ?n) @ crlf @ out @ rest) = Inr (int ?n, out @ rest)"
    using assms(1) by (intro readRESPInt_FormatInt) (simp_all add: maxRESPArgs_def)
  moreover have "nat (int ?n * 2) = length items" using assms(2) by (auto elim!: evenE)
  ultimately show "readRESP (Suc fuel) (respMap # (FormatInt (int ?n) @ crlf @ out) @ rest)
      = Inr (RespValue respMap [] 0 items False, rest)"
    using assms by (simp add: readMap_def)
qed

lemma writeRESP_readsBack: "respWf v \<Longrightarrow> \<exists>out. writeRESP v = Inr out \<and> readsBack v out"
proof (induction v)
  case (RespValue kind data val items null)
  have items: "\<exists>out. concatReplies (map writeRESP items) = Inr out \<and> (\<forall>fuel rest. length out \<le> fuel \<longrightarrow>
      readItems (readRESP fuel) e (length items) (out @ rest) = Inr (items, rest))"
    if "list_all (\<lambda>b. b) (map respWf items)" "list_all (\<lambda>i. \<not> resp_null i) items" for e
    using that RespValue.IH
    by (intro readItems_write) (auto simp: list_all2_conv_all_nth list_all_iff)
  from RespValue.prems consider
      (scalar) "kind = respSimple \<or> kind = respError" "val = 0" "items = []" "\<not> null"
        "newline \<notin> set data" "carriageReturn \<notin> set data" "length data \<le> maxRESPLine"
    | (integer) "kind = respInteger" "data = []" "isInt64 val" "items = []" "\<not> null"
    | (bulk) "kind = respBulk" "val = 0" "items = []"
        "if null then data = [] else int (length data) \<le> maxRESPBulk"
    | (arr) "kind = respArray" "data = []" "val = 0" "\<not> null" "length items \<le> maxRESPArgs"
        "list_all (\<lambda>b. b) (map respWf items)" "list_all (\<lambda>i. \<not> resp_null i) items"
    | (mp) "kind = respMap" "data = []" "val = 0" "\<not> null" "even (length items)"
        "length items div 2 \<le> maxRESPArgs"
        "list_all (\<lambda>b. b) (map respWf items)" "list_all (\<lambda>i. \<not> resp_null i) items"
    by auto
  then show ?case
  proof cases
    case scalar
    then have "stripLineEnds data = data" by (auto simp: stripLineEnds_def intro!: filter_True)
    with scalar readsBack_scalar [of kind data] show ?thesis by auto
  next
    case integer
    then show ?thesis using readsBack_integer by simp
  next
    case bulk
    then show ?thesis using readsBack_bulk by (cases null) simp_all
  next
    case arr
    from items [OF arr(6,7)] obtain out where "concatReplies (map writeRESP items) = Inr out"
      "\<And>fuel rest. length out \<le> fuel \<Longrightarrow> readItems (readRESP fuel) NullCommandArgument (length items) (out @ rest) = Inr (items, rest)"
      by blast
    with arr readsBack_array [of items out] show ?thesis by (simp add: prependOut_def)
  next
    case mp
    from items [OF mp(7,8)] obtain out where "concatReplies (map writeRESP items) = Inr out"
      "\<And>fuel rest. length out \<le> fuel \<Longrightarrow> readItems (readRESP fuel) NullMapMember (length items) (out @ rest) = Inr (items, rest)"
      by blast
    with mp readsBack_map [of items out] show ?thesis by (simp add: prependOut_def)
  qed
qed

text \<open>
  C22. A well-formed value is written without error, and the parser reads back exactly that value
  and leaves the bytes that follow it.
\<close>

theorem resp_roundtrip:
  assumes "respWf v"
  shows "\<exists>out. writeRESP v = Inr out \<and> readRequest (out @ rest) = Inr (v, rest)"
proof -
  from writeRESP_readsBack [OF assms] obtain out where
    "writeRESP v = Inr out" "readsBack v out" by blast
  then show ?thesis by (intro exI [of _ out]) (simp add: readsBack_def readRequest_def del: readRESP.simps)
qed

theorem resp_roundtrip_witness:
  "\<exists>out. writeRESP (respArrayValues [respBulkBytes ''GET'', respIntegerValue (- 5), respArrayValues []]) = Inr out
     \<and> readRequest (out @ ''x'') = Inr (respArrayValues [respBulkBytes ''GET'', respIntegerValue (- 5), respArrayValues []], ''x'')"
  by (rule resp_roundtrip)
    (simp add: resp_value_defs maxRESPArgs_def maxRESPBulk_def int64_defs)

end
