(* ===== verification/RedisStorage.thy ===== *)
theory RedisStorage
  imports Transport
begin

text \<open>
  The storage layer of the Redis extension (\<open>extensions/redis/redis_storage.go\<close>). The Go type
  \<open>database\<close> holds a protocol store, the same store as engine and its clock, so its methods are
  operations on the KVLite handle. A result \<open>(value, found, err)\<close> is an option.
\<close>

section \<open>Types of keys and records\<close>

definition redisTypeNone :: bytes where "redisTypeNone = ''none''"
definition redisTypeString :: bytes where "redisTypeString = ''string''"
definition redisTypeHash :: bytes where "redisTypeHash = ''hash''"
definition redisTypeSet :: bytes where "redisTypeSet = ''set''"
definition redisTypeList :: bytes where "redisTypeList = ''list''"

lemma redisTypes_distinct [simp]:
  "redisTypeNone \<noteq> redisTypeString" "redisTypeNone \<noteq> redisTypeHash" "redisTypeNone \<noteq> redisTypeSet"
  "redisTypeNone \<noteq> redisTypeList" "redisTypeString \<noteq> redisTypeHash" "redisTypeString \<noteq> redisTypeSet"
  "redisTypeString \<noteq> redisTypeList" "redisTypeHash \<noteq> redisTypeSet" "redisTypeHash \<noteq> redisTypeList"
  "redisTypeSet \<noteq> redisTypeList"
  "redisTypeString \<noteq> redisTypeNone" "redisTypeHash \<noteq> redisTypeNone" "redisTypeSet \<noteq> redisTypeNone"
  "redisTypeList \<noteq> redisTypeNone" "redisTypeHash \<noteq> redisTypeString" "redisTypeSet \<noteq> redisTypeString"
  "redisTypeList \<noteq> redisTypeString" "redisTypeSet \<noteq> redisTypeHash" "redisTypeList \<noteq> redisTypeHash"
  "redisTypeList \<noteq> redisTypeSet"
  by (simp_all add: redisTypeNone_def redisTypeString_def redisTypeHash_def redisTypeSet_def
      redisTypeList_def)

definition bytesCodec :: bytes where "bytesCodec = ''bytes''"

record redisRecord =
  rr_expiresAt :: int
  rr_codec :: bytes
  rr_payload :: bytes

definition decodeRecord :: "bytes \<Rightarrow> redisRecord res" where
  "decodeRecord data = (case dbProtocol_DecodeRecord data of
      Err e \<Rightarrow> Err e
    | Panic p \<Rightarrow> Panic p
    | Ok value \<Rightarrow> Ok \<lparr>rr_expiresAt = sv_ExpiresAt value, rr_codec = sv_Codec value,
                       rr_payload = sv_Payload value\<rparr>)"

definition encodeRecord :: "bytes \<Rightarrow> bytes \<Rightarrow> int \<Rightarrow> bytes res" where
  "encodeRecord codec payload expiresAt = dbProtocol_EncodeRecord codec payload expiresAt"

definition putPayload ::
  "ctx \<Rightarrow> bytes \<Rightarrow> bytes \<Rightarrow> bytes \<Rightarrow> duration \<Rightarrow> (('s, 'v) DB, unit) op" where
  "putPayload ctx key codec payload ttl =
     bindE (if ttl > 0 then bindE dbProtocol_Now (\<lambda>t. ret (UnixNano (timeAdd t ttl))) else ret 0)
       (\<lambda>expiresAt. bindE (liftR (dbProtocol_EncodeRecord codec payload expiresAt))
       (\<lambda>encoded. dbProtocol_Put ctx key encoded))"

text \<open>\<open>value.expiresAt > 0 && db.cfg.now().UnixNano() >= value.expiresAt\<close>\<close>

definition recordExpired :: "redisRecord \<Rightarrow> (('s, 'v) DB, bool) op" where
  "recordExpired value =
     (if rr_expiresAt value > 0
      then bindE dbProtocol_Now (\<lambda>t. ret (UnixNano t \<ge> rr_expiresAt value)) else ret False)"

text \<open>\<open>if err := db.engine.ScanPrefix(...); err != nil { return err }\<close>\<close>

definition scanE ::
  "ctx \<Rightarrow> bytes \<Rightarrow> ('a \<Rightarrow> bytes \<Rightarrow> bytes \<Rightarrow> (('s, 'v) DB, 'a) op) \<Rightarrow> 'a \<Rightarrow> (('s, 'v) DB, 'a) op" where
  "scanE ctx prfx callback acc =
     bindE (dbProtocol_ScanPrefix ctx prfx callback acc) (\<lambda>r.
       case snd r of None \<Rightarrow> ret (fst r) | Some e \<Rightarrow> throw e)"

definition redisDeleteRaw :: "ctx \<Rightarrow> bytes \<Rightarrow> (('s, 'v) DB, bool) op" where
  "redisDeleteRaw ctx key = dbProtocol_DeleteLogicalKey ctx key"

definition redisMetadataExpiry :: "ctx \<Rightarrow> bytes \<Rightarrow> (('s, 'v) DB, int option) op" where
  "redisMetadataExpiry ctx key =
     bindE (dbProtocol_Get ctx (dbProtocol_CollectionTTLKey key)) (\<lambda>r.
       case r of
         None \<Rightarrow> ret None
       | Some data \<Rightarrow>
           if length data \<noteq> 8 then throw (errorsNew ''kvlite: invalid Redis expiry metadata'')
           else ret (Some (int64 (Uint64 data))))"

definition encodeRedisExpiry :: "int \<Rightarrow> bytes" where
  "encodeRedisExpiry expiresAt = PutUint64 (uint64 expiresAt)"

definition redisKeyExpired :: "ctx \<Rightarrow> bytes \<Rightarrow> (('s, 'v) DB, bool) op" where
  "redisKeyExpired ctx key =
     bindE (redisMetadataExpiry ctx key) (\<lambda>r.
       case r of
         None \<Rightarrow> ret False
       | Some expiresAt \<Rightarrow>
           bindE dbProtocol_Now (\<lambda>t.
             if UnixNano t < expiresAt then ret False
             else bindE (redisDeleteRaw ctx key) (\<lambda>_. ret True)))"

section \<open>The type of a key\<close>

text \<open>The four parts of \<open>redisType\<close>; each answers when its representation is live.\<close>

definition redisTypeScalar :: "ctx \<Rightarrow> bytes \<Rightarrow> (('s, 'v) DB, bool) op" where
  "redisTypeScalar ctx key =
     bindE (dbProtocol_Get ctx (dbProtocol_ValueKey key)) (\<lambda>r.
       case r of
         None \<Rightarrow> ret False
       | Some data \<Rightarrow>
           bindE (liftR (decodeRecord data)) (\<lambda>value.
           bindE (recordExpired value) (\<lambda>expired.
             if expired
             then bindE (ignoreE (dbProtocol_Delete ctx (dbProtocol_ValueKey key))) (\<lambda>_. ret False)
             else ret True)))"

definition hashScanCallback ::
  "bytes list \<times> bool \<Rightarrow> bytes \<Rightarrow> bytes \<Rightarrow> (('s, 'v) DB, bytes list \<times> bool) op" where
  "hashScanCallback acc storageKey data =
     bindE (liftR (decodeRecord data)) (\<lambda>value.
     bindE (recordExpired value) (\<lambda>expired.
       ret (if expired then (fst acc @ [storageKey], snd acc) else (fst acc, True))))"

definition deleteEach :: "ctx \<Rightarrow> bytes list \<Rightarrow> (('s, 'v) DB, unit) op" where
  "deleteEach ctx keys = foldE (\<lambda>storageKey _. dbProtocol_Delete ctx storageKey) keys ()"

definition redisTypeHashed :: "ctx \<Rightarrow> bytes \<Rightarrow> (('s, 'v) DB, bool) op" where
  "redisTypeHashed ctx key =
     bindE (scanE ctx (dbProtocol_HashPrefix key) hashScanCallback ([], False)) (\<lambda>r.
     bindE (deleteEach ctx (fst r)) (\<lambda>_.
       if snd r then ret True
       else if fst r \<noteq> [] then bindE (redisDeleteRaw ctx key) (\<lambda>_. ret False)
       else ret False))"

definition redisTypeSetted :: "ctx \<Rightarrow> bytes \<Rightarrow> (('s, 'v) DB, bool) op" where
  "redisTypeSetted ctx key =
     scanE ctx (dbProtocol_SetPrefix key) (\<lambda>acc storageKey data. ret True) False"

definition redisTypeListed :: "ctx \<Rightarrow> bytes \<Rightarrow> (('s, 'v) DB, bool) op" where
  "redisTypeListed ctx key =
     bindE (dbProtocol_Get ctx (dbProtocol_ListKey key)) (\<lambda>r.
       case r of
         None \<Rightarrow> ret False
       | Some data \<Rightarrow>
           bindE (liftR (dbProtocol_DecodeList data)) (\<lambda>items.
             if length items > 0 then ret True
             else bindE (ignoreE (redisDeleteRaw ctx key)) (\<lambda>_. ret False)))"

definition redisType :: "ctx \<Rightarrow> bytes \<Rightarrow> (('s, 'v) DB, bytes) op" where
  "redisType ctx key =
     bindE (redisKeyExpired ctx key) (\<lambda>expired.
       if expired then ret redisTypeNone
       else bindE (redisTypeScalar ctx key) (\<lambda>found.
         if found then ret redisTypeString
         else bindE (redisTypeHashed ctx key) (\<lambda>found.
           if found then ret redisTypeHash
           else bindE (redisTypeSetted ctx key) (\<lambda>found.
             if found then ret redisTypeSet
             else bindE (redisTypeListed ctx key) (\<lambda>found.
               if found then ret redisTypeList else ret redisTypeNone)))))"

text \<open>\<open>fmt.Errorf("%w: %s", errRedisWrongType, typ)\<close>\<close>

definition wrongType :: "bytes \<Rightarrow> goerror" where
  "wrongType typ = errorfIs ErrRedisWrongType typ"

section \<open>Strings\<close>

definition redisString :: "ctx \<Rightarrow> bytes \<Rightarrow> (('s, 'v) DB, bytes option) op" where
  "redisString ctx key =
     bindE (redisType ctx key) (\<lambda>typ.
       if typ = redisTypeNone then ret None
       else if typ \<noteq> redisTypeString then throw (wrongType typ)
       else bindE (dbProtocol_Get ctx (dbProtocol_ValueKey key)) (\<lambda>r.
         case r of
           None \<Rightarrow> ret None
         | Some data \<Rightarrow>
             bindE (liftR (decodeRecord data)) (\<lambda>value.
             bindE (recordExpired value) (\<lambda>expired.
               if expired then bindE (ignoreE (redisDeleteRaw ctx key)) (\<lambda>_. ret None)
               else ret (Some (rr_payload value))))))"

definition redisWriteStringWithCodec ::
  "ctx \<Rightarrow> bytes \<Rightarrow> bytes \<Rightarrow> bytes \<Rightarrow> int \<Rightarrow> (('s, 'v) DB, unit) op" where
  "redisWriteStringWithCodec ctx key payload codec expiresAt =
     (if expiresAt \<le> 0
      then bindE (putPayload ctx (dbProtocol_ValueKey key) codec payload 0) (\<lambda>_.
             dbProtocol_Delete ctx (dbProtocol_CollectionTTLKey key))
      else bindE dbProtocol_Now (\<lambda>t.
        let d = timeSub (timeUnix0 expiresAt) t in
        if d \<le> 0 then bindE (redisDeleteRaw ctx key) (\<lambda>_. ret ())
        else putPayload ctx (dbProtocol_ValueKey key) codec payload d))"

definition redisWriteString :: "ctx \<Rightarrow> bytes \<Rightarrow> bytes \<Rightarrow> int \<Rightarrow> (('s, 'v) DB, unit) op" where
  "redisWriteString ctx key value expiresAt =
     (if expiresAt \<le> 0
      then bindE (putPayload ctx (dbProtocol_ValueKey key) bytesCodec value 0) (\<lambda>_.
             dbProtocol_Delete ctx (dbProtocol_CollectionTTLKey key))
      else bindE dbProtocol_Now (\<lambda>t.
        let d = timeSub (timeUnix0 expiresAt) t in
        if d \<le> 0 then bindE (redisDeleteRaw ctx key) (\<lambda>_. ret ())
        else putPayload ctx (dbProtocol_ValueKey key) bytesCodec value d))"

section \<open>Expiry\<close>

definition redisExpiry :: "ctx \<Rightarrow> bytes \<Rightarrow> (('s, 'v) DB, int option) op" where
  "redisExpiry ctx key =
     bindE (redisType ctx key) (\<lambda>typ.
       if typ = redisTypeNone then ret None
       else if typ = redisTypeString
       then bindE (dbProtocol_Get ctx (dbProtocol_ValueKey key)) (\<lambda>r.
         case r of
           None \<Rightarrow> ret None
         | Some data \<Rightarrow>
             bindE (liftR (decodeRecord data)) (\<lambda>value.
               if rr_expiresAt value > 0 then ret (Some (rr_expiresAt value)) else ret None))
       else redisMetadataExpiry ctx key)"

definition redisSetExpiry :: "ctx \<Rightarrow> bytes \<Rightarrow> int \<Rightarrow> (('s, 'v) DB, bool) op" where
  "redisSetExpiry ctx key expiresAt =
     bindE (redisType ctx key) (\<lambda>typ.
       if typ = redisTypeNone then ret False
       else bindE dbProtocol_Now (\<lambda>t.
         if expiresAt \<le> UnixNano t
         then bindE (redisDeleteRaw ctx key) (\<lambda>_. ret True)
         else if typ = redisTypeString
         then bindE (dbProtocol_Get ctx (dbProtocol_ValueKey key)) (\<lambda>r.
           case r of
             None \<Rightarrow> ret False
           | Some data \<Rightarrow>
               bindE (liftR (decodeRecord data)) (\<lambda>value.
               bindE (redisWriteStringWithCodec ctx key (rr_payload value) (rr_codec value) expiresAt)
                 (\<lambda>_. bindE (ignoreE (dbProtocol_Delete ctx (dbProtocol_CollectionTTLKey key)))
                 (\<lambda>_. ret True))))
         else bindE (dbProtocol_Put ctx (dbProtocol_CollectionTTLKey key) (encodeRedisExpiry expiresAt))
                (\<lambda>_. ret True)))"

definition redisPersist :: "ctx \<Rightarrow> bytes \<Rightarrow> (('s, 'v) DB, bool) op" where
  "redisPersist ctx key =
     bindE (redisType ctx key) (\<lambda>typ.
       if typ = redisTypeNone then ret False
       else bindE (redisExpiry ctx key) (\<lambda>e.
         case e of
           None \<Rightarrow> ret False
         | Some _ \<Rightarrow>
             if typ = redisTypeString
             then bindE (dbProtocol_Get ctx (dbProtocol_ValueKey key)) (\<lambda>r.
               case r of
                 None \<Rightarrow> ret False
               | Some data \<Rightarrow>
                   bindE (liftR (decodeRecord data)) (\<lambda>value.
                   bindE (putPayload ctx (dbProtocol_ValueKey key) (rr_codec value) (rr_payload value) 0)
                     (\<lambda>_. ret True)))
             else bindE (dbProtocol_Delete ctx (dbProtocol_CollectionTTLKey key)) (\<lambda>_. ret True)))"

section \<open>Hash fields and lists\<close>

definition redisHashField :: "ctx \<Rightarrow> bytes \<Rightarrow> bytes \<Rightarrow> (('s, 'v) DB, bytes option) op" where
  "redisHashField ctx key field =
     bindE (redisType ctx key) (\<lambda>typ.
       if typ = redisTypeNone then ret None
       else if typ \<noteq> redisTypeHash then throw (wrongType typ)
       else bindE (dbProtocol_Get ctx (dbProtocol_HashKey key field)) (\<lambda>r.
         case r of
           None \<Rightarrow> ret None
         | Some data \<Rightarrow>
             bindE (liftR (decodeRecord data)) (\<lambda>value.
             bindE (recordExpired value) (\<lambda>expired.
               if expired
               then bindE (ignoreE (dbProtocol_Delete ctx (dbProtocol_HashKey key field)))
                      (\<lambda>_. ret None)
               else ret (Some (rr_payload value))))))"

definition redisList :: "ctx \<Rightarrow> bytes \<Rightarrow> (('s, 'v) DB, bytes list option) op" where
  "redisList ctx key =
     bindE (redisType ctx key) (\<lambda>typ.
       if typ = redisTypeNone then ret None
       else if typ \<noteq> redisTypeList then throw (wrongType typ)
       else bindE (dbProtocol_Get ctx (dbProtocol_ListKey key)) (\<lambda>r.
         case r of
           None \<Rightarrow> ret None
         | Some data \<Rightarrow> bindE (liftR (dbProtocol_DecodeList data)) (\<lambda>items. ret (Some items))))"

definition redisItemPayload :: "bytes \<Rightarrow> time \<Rightarrow> bytes option res" where
  "redisItemPayload data now = (case decodeRecord data of
      Err e \<Rightarrow> Err e
    | Panic p \<Rightarrow> Panic p
    | Ok value \<Rightarrow>
        Ok (if rr_expiresAt value > 0 \<and> UnixNano now \<ge> rr_expiresAt value then None
            else Some (rr_payload value)))"

definition redisWriteList :: "ctx \<Rightarrow> bytes \<Rightarrow> bytes list \<Rightarrow> (('s, 'v) DB, unit) op" where
  "redisWriteList ctx key items =
     (if items = [] then bindE (redisDeleteRaw ctx key) (\<lambda>_. ret ())
      else dbProtocol_Put ctx (dbProtocol_ListKey key) (dbProtocol_EncodeList items))"

end
