(* ===== verification/OpLogic.thy ===== *)
theory OpLogic
  imports Prelude
begin

text \<open>
  A small program logic for state-passing operations. \<open>triple P m Q E\<close> says that from a state with
  \<open>P\<close> the operation does not panic, establishes \<open>Q\<close> of its value and state when it returns, and
  \<open>E\<close> when it fails. There is one rule per combinator; the collection \<open>triple_rules\<close> holds them
  together with the specifications of the operations that have been verified.
\<close>

named_theorems triple_rules \<open>rules and specifications for triples\<close>

definition triple :: "('s \<Rightarrow> bool) \<Rightarrow> ('s, 'a) op \<Rightarrow> ('a \<Rightarrow> 's \<Rightarrow> bool) \<Rightarrow> ('s \<Rightarrow> bool) \<Rightarrow> bool" where
  "triple P m Q E \<longleftrightarrow> (\<forall>s. P s \<longrightarrow> (case m s of
      (Ok x, s') \<Rightarrow> Q x s'
    | (Err e, s') \<Rightarrow> E s'
    | (Panic p, s') \<Rightarrow> False))"

text \<open>An operation that keeps an invariant whether it succeeds or fails.\<close>

definition keeps :: "('s \<Rightarrow> bool) \<Rightarrow> ('s, 'a) op \<Rightarrow> bool" where
  "keeps I m \<longleftrightarrow> triple I m (\<lambda>_. I) I"

lemma tripleI:
  "(\<And>s. P s \<Longrightarrow> case m s of (Ok x, s') \<Rightarrow> Q x s' | (Err e, s') \<Rightarrow> E s' | (Panic p, s') \<Rightarrow> False)
   \<Longrightarrow> triple P m Q E"
  by (simp add: triple_def)

lemma tripleD:
  assumes "triple P m Q E" "P s"
  shows "m s = (Ok x, s') \<Longrightarrow> Q x s'" "m s = (Err e, s') \<Longrightarrow> E s'" "m s \<noteq> (Panic p, s')"
  using assms by (auto simp: triple_def split: prod.splits)

lemma triple_cases:
  assumes "triple P m Q E" "P s"
  obtains (Ok) x s' where "m s = (Ok x, s')" "Q x s'" | (Err) e s' where "m s = (Err e, s')" "E s'"
proof -
  obtain r s' where ms: "m s = (r, s')" by (meson surj_pair)
  with assms that show thesis by (cases r) (auto simp: triple_def)
qed

lemma triple_conseq:
  "triple P m Q E \<Longrightarrow> (\<And>s. P' s \<Longrightarrow> P s) \<Longrightarrow> (\<And>x s. Q x s \<Longrightarrow> Q' x s) \<Longrightarrow> (\<And>s. E s \<Longrightarrow> E' s)
   \<Longrightarrow> triple P' m Q' E'"
  by (fastforce simp: triple_def split: prod.splits res.splits)

lemma triple_pre: "triple P m Q E \<Longrightarrow> (\<And>s. P' s \<Longrightarrow> P s) \<Longrightarrow> triple P' m Q E"
  by (rule triple_conseq)

lemma triple_post: "triple P m Q E \<Longrightarrow> (\<And>x s. Q x s \<Longrightarrow> Q' x s) \<Longrightarrow> triple P m Q' E"
  by (rule triple_conseq)

lemma triple_False: "triple (\<lambda>_. False) m Q E"
  by (simp add: triple_def)

lemma triple_ret [triple_rules]: "(\<And>s. P s \<Longrightarrow> Q x s) \<Longrightarrow> triple P (ret x) Q E"
  by (simp add: triple_def ret_def)

lemma triple_throw [triple_rules]: "(\<And>s. P s \<Longrightarrow> E s) \<Longrightarrow> triple P (throw e) Q E"
  by (simp add: triple_def throw_def)

lemma triple_liftR [triple_rules]:
  "(\<And>s x. P s \<Longrightarrow> r = Ok x \<Longrightarrow> Q x s) \<Longrightarrow> (\<And>s. P s \<Longrightarrow> E s) \<Longrightarrow> (\<And>p. r \<noteq> Panic p) \<Longrightarrow>
   triple P (liftR r) Q E"
  by (cases r) (auto simp: triple_def liftR_def)

lemma triple_bindE [triple_rules]:
  "triple P m R E \<Longrightarrow> (\<And>x. triple (R x) (f x) Q E) \<Longrightarrow> triple P (bindE m f) Q E"
  by (fastforce simp: triple_def bindE_def split: prod.splits res.splits)

lemma triple_tryE [triple_rules]:
  "triple P m (\<lambda>x. Q (Inr x)) (\<lambda>s. \<forall>e. Q (Inl e) s) \<Longrightarrow> triple P (tryE m) Q E"
  by (fastforce simp: triple_def tryE_def split: prod.splits res.splits)

lemma triple_ignoreE [triple_rules]:
  "triple P m (\<lambda>_. Q ()) (Q ()) \<Longrightarrow> triple P (ignoreE m) Q E"
  by (fastforce simp: triple_def ignoreE_def split: prod.splits res.splits)

lemma triple_wrapE [triple_rules]: "triple P m Q E \<Longrightarrow> triple P (wrapE pre m) Q E"
  by (fastforce simp: triple_def wrapE_def split: prod.splits res.splits)

lemma triple_if [triple_rules]:
  "(b \<Longrightarrow> triple P m Q E) \<Longrightarrow> (\<not> b \<Longrightarrow> triple P n Q E) \<Longrightarrow> triple P (if b then m else n) Q E"
  by simp

lemma triple_option [triple_rules]:
  "(r = None \<Longrightarrow> triple P m Q E) \<Longrightarrow> (\<And>x. r = Some x \<Longrightarrow> triple P (f x) Q E) \<Longrightarrow>
   triple P (case r of None \<Rightarrow> m | Some x \<Rightarrow> f x) Q E"
  by (cases r) simp_all

lemma triple_foldE:
  "(\<And>x acc. x \<in> set xs \<Longrightarrow> triple (R acc) (f x acc) R E) \<Longrightarrow> triple (R acc) (foldE f xs acc) R E"
proof (induction xs arbitrary: acc)
  case Nil
  show ?case by (auto intro: triple_ret)
next
  case (Cons x xs)
  then show ?case by (auto intro!: triple_bindE [where R = R])
qed

lemma keepsI: "(\<And>s. I s \<Longrightarrow> \<exists>x s'. m s = (Ok x, s') \<and> I s') \<Longrightarrow> keeps I m"
  by (fastforce simp: keeps_def triple_def)

lemma keepsD:
  assumes "keeps I m" "I s"
  shows "I (snd (m s))" "fst (m s) \<noteq> Panic p"
proof -
  from assms have "I (snd (m s)) \<and> fst (m s) \<noteq> Panic p"
    unfolding keeps_def by (cases rule: triple_cases) simp_all
  then show "I (snd (m s))" "fst (m s) \<noteq> Panic p" by simp_all
qed

lemma keeps_foldE: "(\<And>x acc. x \<in> set xs \<Longrightarrow> keeps I (f x acc)) \<Longrightarrow> keeps I (foldE f xs acc)"
  unfolding keeps_def by (rule triple_foldE [of xs "\<lambda>_. I"])

lemma keeps_bindE: "keeps I m \<Longrightarrow> (\<And>x. keeps I (f x)) \<Longrightarrow> keeps I (bindE m f)"
  unfolding keeps_def by (rule triple_bindE)

lemma keeps_basic [simp]: "keeps I (ret x)" "keeps I (throw e)"
  by (auto simp: keeps_def intro: triple_rules)

lemma keeps_liftR: "(\<And>p. r \<noteq> Panic p) \<Longrightarrow> keeps I (liftR r)"
  unfolding keeps_def by (rule triple_liftR)

lemma keeps_ignoreE: "keeps I m \<Longrightarrow> keeps I (ignoreE m)"
  unfolding keeps_def by (rule triple_ignoreE)

lemma keeps_tryE: "keeps I m \<Longrightarrow> keeps I (tryE m)"
  unfolding keeps_def by (rule triple_tryE) simp

lemma keeps_if: "(b \<Longrightarrow> keeps I m) \<Longrightarrow> (\<not> b \<Longrightarrow> keeps I n) \<Longrightarrow> keeps I (if b then m else n)"
  by simp

lemma keeps_option:
  "(r = None \<Longrightarrow> keeps I m) \<Longrightarrow> (\<And>x. r = Some x \<Longrightarrow> keeps I (f x)) \<Longrightarrow>
   keeps I (case r of None \<Rightarrow> m | Some x \<Rightarrow> f x)"
  by (cases r) simp_all

lemma keeps_res:
  "(\<And>x. r = Ok x \<Longrightarrow> keeps I (f x)) \<Longrightarrow> (\<And>e. r = Err e \<Longrightarrow> keeps I (g e)) \<Longrightarrow>
   (\<And>p. r = Panic p \<Longrightarrow> keeps I (h p)) \<Longrightarrow>
   keeps I (case r of Ok x \<Rightarrow> f x | Err e \<Rightarrow> g e | Panic p \<Rightarrow> h p)"
  by (cases r) simp_all

lemma keeps_prod: "(\<And>a b. p = (a, b) \<Longrightarrow> keeps I (f a b)) \<Longrightarrow> keeps I (case p of (a, b) \<Rightarrow> f a b)"
  by (cases p) simp

lemma keeps_bool:
  "(b \<Longrightarrow> keeps I m) \<Longrightarrow> (\<not> b \<Longrightarrow> keeps I n) \<Longrightarrow> keeps I (case b of True \<Rightarrow> m | False \<Rightarrow> n)"
  by (cases b) simp_all

lemmas keeps_rules =
  keeps_bindE keeps_basic keeps_liftR keeps_ignoreE keeps_tryE keeps_if keeps_option keeps_res keeps_prod keeps_bool

end
