(* ===== verification/RedisLaws.thy ===== *)
theory RedisLaws
  imports RedisStorage DBLaws OpLogic
begin

text \<open>
  The storage layer of the Redis extension on a driver that keeps the engine contract. First the
  transport calls become equations on the handle, then every reading operation is shown to do
  nothing but delete records, whatever the clock says and whatever the store holds.
\<close>

section \<open>Decoding never panics\<close>

lemma unmarshal_no_panic [simp]: "unmarshalEnvelope data \<noteq> Panic p"
  by (simp add: unmarshalEnvelope_def Let_def)

lemma decodeListLoop_no_panic [simp]: "decodeListLoop data n off items \<noteq> Panic p"
  by (induction n arbitrary: off items) (simp_all add: Let_def)

lemma decodeList_no_panic [simp]: "decodeList data \<noteq> Panic p"
  using decodeListLoop_no_panic
  by (simp add: decodeList_def Let_def split: res.split)

lemma decode_no_panic:
  "decodeRecord data \<noteq> Panic p" "dbProtocol_DecodeList data \<noteq> Panic p"
  "redisItemPayload data now \<noteq> Panic p"
proof -
  show *: "decodeRecord data \<noteq> Panic p" for p
    using unmarshal_no_panic [of data p]
    by (simp add: decodeRecord_def dbProtocol_DecodeRecord_def split: res.split)
  show "dbProtocol_DecodeList data \<noteq> Panic p" by (simp add: dbProtocol_DecodeList_def)
  show "redisItemPayload data now \<noteq> Panic p"
    using * by (simp add: redisItemPayload_def split: res.split)
qed

context local_engine
begin

section \<open>Transport calls under the contract\<close>

lemma protocol_Get_eq [op_simps]: "dbOk db \<Longrightarrow> dbProtocol_Get None k db = (Ok (dbView db k), db)"
  by (simp add: dbProtocol_Get_def dbTransport_Get_def bindE_def op_simps)

lemma protocol_Put_eq [op_simps]: "dbOk db \<Longrightarrow> dbProtocol_Put None k v db = (Ok (), dbPut k v db)"
  by (simp add: dbProtocol_Put_def dbTransport_Put_def bindE_def op_simps)

lemma protocol_Delete_eq [op_simps]: "dbOk db \<Longrightarrow> dbProtocol_Delete None k db = (Ok (), dbDel k db)"
  by (simp add: dbProtocol_Delete_def dbTransport_Delete_def bindE_def op_simps)

lemma protocol_DeleteLogicalKey_eq [op_simps]:
  "dbOk db \<Longrightarrow> dbProtocol_DeleteLogicalKey None key db
     = (Ok (\<exists>sk. dbView db sk \<noteq> None \<and> recordOf key sk), dropKey key db)"
  by (simp add: dbProtocol_DeleteLogicalKey_def bindE_def op_simps)

lemma redisDeleteRaw_eq [op_simps]:
  "dbOk db \<Longrightarrow> redisDeleteRaw None key db
     = (Ok (\<exists>sk. dbView db sk \<noteq> None \<and> recordOf key sk), dropKey key db)"
  by (simp add: redisDeleteRaw_def op_simps)

lemma protocol_ScanPrefix_eq [op_simps]:
  "dbOk db \<Longrightarrow> dbProtocol_ScanPrefix None p cb acc db = scanRun cb (dbItems p db) None acc db"
  by (simp add: dbProtocol_ScanPrefix_def dbTransport_ScanPrefix_def whenOpen_def op_simps)
    (simp add: dbOk_def)

lemma deleteEach_eq [op_simps]: "dbOk db \<Longrightarrow> deleteEach None ks db = (Ok (), dbDels ks db)"
  unfolding deleteEach_def
  by (induction ks arbitrary: db) (simp_all add: ret_def bindE_def op_simps)

text \<open>The clock is not part of the store.\<close>

definition sameStore :: "('s, 'v) DB \<Rightarrow> ('s, 'v) DB \<Rightarrow> bool" where
  "sameStore db db' \<longleftrightarrow> db_engine db' = db_engine db \<and> db_closed db' = db_closed db"

lemma sameStore_simps:
  assumes "sameStore db db'"
  shows "dbOk db' = dbOk db" "dbView db' = dbView db" "dbItems p db' = dbItems p db"
  using assms by (simp_all add: sameStore_def dbOk_def dbView_def dbItems_def)

lemma sameStore_refl [simp]: "sameStore db db"
  by (simp add: sameStore_def)

lemma sameStore_trans: "sameStore a b \<Longrightarrow> sameStore b c \<Longrightarrow> sameStore a c"
  by (simp add: sameStore_def)

lemma protocol_Now_same: "\<exists>t db'. dbProtocol_Now db = (Ok t, db') \<and> sameStore db db'"
  by (simp add: dbProtocol_Now_def db_now_def sameStore_def)

lemma recordExpired_same: "\<exists>b db'. recordExpired value db = (Ok b, db') \<and> sameStore db db'"
  using protocol_Now_same [of db]
  by (auto simp: recordExpired_def bindE_def ret_def)

section \<open>Predicates closed under deletion\<close>

definition shrinks :: "(('s, 'v) DB \<Rightarrow> bool) \<Rightarrow> bool" where
  "shrinks I \<longleftrightarrow> (\<forall>db. I db \<longrightarrow> dbOk db) \<and>
     (\<forall>db db'. I db \<longrightarrow> dbOk db' \<longrightarrow> dom (dbView db') \<subseteq> dom (dbView db) \<longrightarrow> I db')"

lemma shrinks_ok: "shrinks I \<Longrightarrow> I db \<Longrightarrow> dbOk db"
  by (simp add: shrinks_def)

lemma shrinks_le: "shrinks I \<Longrightarrow> I db \<Longrightarrow> dbOk db' \<Longrightarrow> dom (dbView db') \<subseteq> dom (dbView db) \<Longrightarrow> I db'"
  unfolding shrinks_def by blast

lemma shrinks_same: "shrinks I \<Longrightarrow> I db \<Longrightarrow> sameStore db db' \<Longrightarrow> I db'"
  using shrinks_le [of I db db'] shrinks_ok [of I db] by (simp add: sameStore_simps)

lemma shrinks_dbOk: "shrinks dbOk"
  by (simp add: shrinks_def)

lemma shrinks_dbDels: "shrinks I \<Longrightarrow> I db \<Longrightarrow> I (dbDels ks db)"
  using shrinks_le [of I db "dbDels ks db"] shrinks_ok [of I db] by auto

lemma shrinks_dbDel: "shrinks I \<Longrightarrow> I db \<Longrightarrow> I (dbDel k db)"
  using shrinks_dbDels [of I db "[k]"] by simp

lemma shrinks_dropKey: "shrinks I \<Longrightarrow> I db \<Longrightarrow> I (dropKey key db)"
  by (simp add: dropKey_def shrinks_dbDels)

lemma keeps_Now: "shrinks I \<Longrightarrow> keeps I dbProtocol_Now"
  using protocol_Now_same shrinks_same by (intro keepsI) blast

lemma keeps_recordExpired: "shrinks I \<Longrightarrow> keeps I (recordExpired value)"
  using recordExpired_same shrinks_same by (intro keepsI) blast

lemma keeps_Get: "shrinks I \<Longrightarrow> keeps I (dbProtocol_Get None k)"
  by (rule keepsI) (simp add: op_simps shrinks_ok)

lemma keeps_Delete: "shrinks I \<Longrightarrow> keeps I (dbProtocol_Delete None k)"
  by (rule keepsI) (simp add: op_simps shrinks_ok shrinks_dbDel)

lemma keeps_DeleteRaw: "shrinks I \<Longrightarrow> keeps I (redisDeleteRaw None key)"
  by (rule keepsI) (simp add: op_simps shrinks_ok shrinks_dropKey)

lemma keeps_deleteEach: "shrinks I \<Longrightarrow> keeps I (deleteEach None ks)"
  by (rule keepsI) (simp add: op_simps shrinks_ok shrinks_dbDels)

lemma keeps_scanRun:
  assumes "\<And>acc k v. keeps I (cb acc k v)"
  shows "keeps I (scanRun cb items final acc)"
proof (induction items arbitrary: acc)
  case Nil
  then show ?case by (simp add: keeps_def triple_def)
next
  case (Cons x items)
  show ?case
    unfolding keeps_def
  proof (rule tripleI)
    fix db
    assume "I db"
    with assms [of acc "fst x" "snd x", unfolded keeps_def]
    show "case scanRun cb (x # items) final acc db of
        (Ok y, s') \<Rightarrow> I s' | (Err e, s') \<Rightarrow> I s' | (Panic p, s') \<Rightarrow> False"
    proof (cases rule: triple_cases)
      case (Ok y s')
      with Cons [of y, unfolded keeps_def triple_def] show ?thesis by simp
    next
      case (Err e s')
      then show ?thesis by simp
    qed
  qed
qed

lemma keeps_scanE:
  assumes "shrinks I" "\<And>acc k v. keeps I (cb acc k v)"
  shows "keeps I (scanE None p cb acc)"
proof -
  have "keeps I (dbProtocol_ScanPrefix None p cb acc)"
    unfolding keeps_def
  proof (rule tripleI)
    fix db
    assume "I db"
    then have "dbProtocol_ScanPrefix None p cb acc db = scanRun cb (dbItems p db) None acc db"
      using shrinks_ok [OF assms(1)] by (simp add: op_simps)
    with keeps_scanRun [OF assms(2), unfolded keeps_def triple_def] \<open>I db\<close>
    show "case dbProtocol_ScanPrefix None p cb acc db of
        (Ok x, s') \<Rightarrow> I s' | (Err e, s') \<Rightarrow> I s' | (Panic q, s') \<Rightarrow> False" by simp
  qed
  then show ?thesis unfolding scanE_def by (intro keeps_bindE keeps_option) simp_all
qed

lemmas keeps_calls =
  keeps_Now keeps_recordExpired keeps_Get keeps_Delete keeps_DeleteRaw keeps_deleteEach keeps_scanE

section \<open>Reading operations only delete\<close>

lemma keeps_hashScanCallback: "shrinks I \<Longrightarrow> keeps I (hashScanCallback acc k v)"
  unfolding hashScanCallback_def by (intro keeps_rules keeps_calls decode_no_panic) auto

lemma keeps_redisMetadataExpiry: "shrinks I \<Longrightarrow> keeps I (redisMetadataExpiry None key)"
  unfolding redisMetadataExpiry_def by (intro keeps_rules keeps_calls)

lemma keeps_redisKeyExpired: "shrinks I \<Longrightarrow> keeps I (redisKeyExpired None key)"
  unfolding redisKeyExpired_def by (intro keeps_rules keeps_calls keeps_redisMetadataExpiry)

lemma keeps_redisTypeParts:
  assumes "shrinks I"
  shows "keeps I (redisTypeScalar None key)" "keeps I (redisTypeHashed None key)"
    "keeps I (redisTypeSetted None key)" "keeps I (redisTypeListed None key)"
  using assms
  unfolding redisTypeScalar_def redisTypeHashed_def redisTypeSetted_def redisTypeListed_def
  by (intro keeps_rules keeps_calls keeps_hashScanCallback decode_no_panic; simp)+

lemma keeps_redisType: "shrinks I \<Longrightarrow> keeps I (redisType None key)"
  unfolding redisType_def by (intro keeps_rules keeps_redisKeyExpired keeps_redisTypeParts)

lemma keeps_redisString: "shrinks I \<Longrightarrow> keeps I (redisString None key)"
  unfolding redisString_def by (intro keeps_rules keeps_calls keeps_redisType decode_no_panic)

lemma keeps_redisExpiry: "shrinks I \<Longrightarrow> keeps I (redisExpiry None key)"
  unfolding redisExpiry_def
  by (intro keeps_rules keeps_calls keeps_redisType keeps_redisMetadataExpiry decode_no_panic)

lemma keeps_redisHashField: "shrinks I \<Longrightarrow> keeps I (redisHashField None key field)"
  unfolding redisHashField_def by (intro keeps_rules keeps_calls keeps_redisType decode_no_panic)

lemma keeps_redisList: "shrinks I \<Longrightarrow> keeps I (redisList None key)"
  unfolding redisList_def by (intro keeps_rules keeps_calls keeps_redisType decode_no_panic)

lemmas keeps_reads =
  keeps_redisType keeps_redisString keeps_redisExpiry keeps_redisHashField keeps_redisList

end

end
