(* ===== verification/Coherence.thy ===== *)
theory Coherence
  imports RedisLaws
begin

text \<open>
  Every logical key has at most one representation: a scalar record, hash fields, set members or a
  list record. Type detection finds the representation, removes what has expired and, when it
  answers \<open>none\<close>, has left no record of any representation behind. The commands that follow it can
  therefore only add records of the representation they found.
\<close>

section \<open>Representations\<close>

datatype repr = ReprNone | ReprScalar | ReprHash | ReprSet | ReprList

text \<open>The storage keys that make up a representation of a logical key.\<close>

definition reprKey :: "repr \<Rightarrow> bytes \<Rightarrow> bytes \<Rightarrow> bool" where
  "reprKey R key sk = (case R of
      ReprNone \<Rightarrow> False
    | ReprScalar \<Rightarrow> sk = valueKey key
    | ReprHash \<Rightarrow> prefix (namespacePrefix kindHash key) sk
    | ReprSet \<Rightarrow> prefix (namespacePrefix kindSet key) sk
    | ReprList \<Rightarrow> sk = listKey key)"

definition lacksRepr :: "repr \<Rightarrow> bytes \<Rightarrow> (bytes \<Rightarrow> bytes option) \<Rightarrow> bool" where
  "lacksRepr R key m \<longleftrightarrow> (\<forall>sk. reprKey R key sk \<longrightarrow> m sk = None)"

definition onlyRepr :: "repr \<Rightarrow> bytes \<Rightarrow> (bytes \<Rightarrow> bytes option) \<Rightarrow> bool" where
  "onlyRepr R key m \<longleftrightarrow> (\<forall>R'. R' \<noteq> R \<longrightarrow> lacksRepr R' key m)"

definition coherent :: "(bytes \<Rightarrow> bytes option) \<Rightarrow> bool" where
  "coherent m \<longleftrightarrow> (\<forall>key. lenOk key \<longrightarrow> (\<exists>R. onlyRepr R key m))"

definition reprOf :: "bytes \<Rightarrow> repr" where
  "reprOf typ = (if typ = redisTypeString then ReprScalar else if typ = redisTypeHash then ReprHash
     else if typ = redisTypeSet then ReprSet else if typ = redisTypeList then ReprList else ReprNone)"

lemma reprOf_simps [simp]:
  "reprOf redisTypeNone = ReprNone" "reprOf redisTypeString = ReprScalar"
  "reprOf redisTypeHash = ReprHash" "reprOf redisTypeSet = ReprSet" "reprOf redisTypeList = ReprList"
  by (simp_all add: reprOf_def)

lemma reprKey_simps [simp]:
  "reprKey ReprScalar key (valueKey key)" "reprKey ReprList key (listKey key)"
  "reprKey ReprHash key (namespacedKey kindHash key f)" "reprKey ReprSet key (namespacedKey kindSet key f)"
  "\<not> reprKey ReprNone key sk" "\<not> reprKey R key (collectionTTLKey key')"
  by (cases R; simp add: reprKey_def)+

lemma reprKey_recordOf: "reprKey R key sk \<Longrightarrow> recordOf key sk"
  by (cases R) (auto simp: reprKey_def recordOf_def)

definition reprKind :: "repr \<Rightarrow> byte" where
  "reprKind R = (case R of ReprScalar \<Rightarrow> kindValue | ReprHash \<Rightarrow> kindHash | ReprSet \<Rightarrow> kindSet
     | ReprList \<Rightarrow> kindList | ReprNone \<Rightarrow> kindCollectionTTL)"

lemma reprKind_inject: "reprKind R = reprKind R' \<Longrightarrow> R = R'"
  by (cases R; cases R'; simp add: reprKind_def)

lemma reprKey_kind: "reprKey R key sk \<Longrightarrow> hd sk = reprKind R"
  by (cases R) (auto simp: reprKey_def reprKind_def valueKey_def listKey_def namespacePrefix_def prefix_def)

lemma reprKey_unique:
  assumes "reprKey R key sk" "reprKey R' key' sk" "lenOk key" "lenOk key'"
  shows "R' = R \<and> key' = key"
proof -
  have "logicalKeyFromStorage sk = Some key" "logicalKeyFromStorage sk = Some key'"
    using assms reprKey_recordOf recordOf_iff_logicalKey by blast+
  moreover have "reprKind R' = reprKind R" using assms reprKey_kind by metis
  ultimately show ?thesis using reprKind_inject by simp
qed

lemma lacksRepr_None [simp]: "lacksRepr ReprNone key m"
  by (simp add: lacksRepr_def)

lemma onlyRepr_None_iff: "onlyRepr ReprNone key m \<longleftrightarrow> (\<forall>R. lacksRepr R key m)"
  by (metis lacksRepr_None onlyRepr_def)

lemma lacksRepr_sub: "lacksRepr R key m \<Longrightarrow> dom m' \<subseteq> dom m \<Longrightarrow> lacksRepr R key m'"
  by (auto simp: lacksRepr_def)

lemma onlyRepr_sub: "onlyRepr R key m \<Longrightarrow> dom m' \<subseteq> dom m \<Longrightarrow> onlyRepr R key m'"
  by (auto simp: onlyRepr_def intro: lacksRepr_sub)

lemma coherent_sub: "coherent m \<Longrightarrow> dom m' \<subseteq> dom m \<Longrightarrow> coherent m'"
  unfolding coherent_def by (meson onlyRepr_sub)

lemma onlyRepr_of_record:
  assumes "coherent m" "lenOk key" "reprKey R key sk" "m sk \<noteq> None"
  shows "onlyRepr R key m"
proof -
  from assms obtain R' where "onlyRepr R' key m" by (auto simp: coherent_def)
  with assms(3,4) show ?thesis by (cases "R' = R") (auto simp: onlyRepr_def lacksRepr_def)
qed

lemma onlyRepr_None_mono: "onlyRepr ReprNone key m \<Longrightarrow> onlyRepr R key m"
  by (metis lacksRepr_None onlyRepr_def)

lemma onlyRepr_put:
  assumes "onlyRepr R key m" "reprKey R key sk" "lenOk key"
  shows "onlyRepr R key (m(sk \<mapsto> v))"
  unfolding onlyRepr_def lacksRepr_def
proof (intro allI impI)
  fix R' sk'
  assume R': "R' \<noteq> R" "reprKey R' key sk'"
  then have "sk' \<noteq> sk" using reprKey_unique [OF assms(2)] assms(3) by blast
  with R' assms(1) show "(m(sk \<mapsto> v)) sk' = None" by (simp add: onlyRepr_def lacksRepr_def)
qed

lemma coherent_put:
  assumes "coherent m" "onlyRepr R key m" "reprKey R key sk" "lenOk key"
  shows "coherent (m(sk \<mapsto> v))"
  unfolding coherent_def
proof (intro allI impI)
  fix key'
  assume len: "lenOk key'"
  show "\<exists>R'. onlyRepr R' key' (m(sk \<mapsto> v))"
  proof (cases "key' = key")
    case True
    with onlyRepr_put [OF assms(2-4)] show ?thesis by blast
  next
    case False
    from assms(1) len obtain R' where "onlyRepr R' key' m" by (auto simp: coherent_def)
    moreover have "sk' \<noteq> sk" if "reprKey R'' key' sk'" for R'' sk'
      using reprKey_unique [OF assms(3) _ assms(4) len] that False by blast
    ultimately have "onlyRepr R' key' (m(sk \<mapsto> v))"
      by (simp add: onlyRepr_def lacksRepr_def)
    then show ?thesis ..
  qed
qed

lemma put_TTL:
  "onlyRepr R key m \<Longrightarrow> onlyRepr R key (m(collectionTTLKey key' \<mapsto> v))"
  "coherent m \<Longrightarrow> coherent (m(collectionTTLKey key' \<mapsto> v))"
proof -
  have "lacksRepr R key m \<Longrightarrow> lacksRepr R key (m(collectionTTLKey key' \<mapsto> v))" for R key
    by (auto simp: lacksRepr_def)
  then show "onlyRepr R key m \<Longrightarrow> onlyRepr R key (m(collectionTTLKey key' \<mapsto> v))"
    "coherent m \<Longrightarrow> coherent (m(collectionTTLKey key' \<mapsto> v))"
    unfolding coherent_def onlyRepr_def by blast+
qed

section \<open>Type detection\<close>

context local_engine
begin

definition inv :: "('s, 'v) DB \<Rightarrow> bool" where
  "inv db \<longleftrightarrow> dbOk db \<and> coherent (dbView db)"

text \<open>The store is coherent and the key has no representation but \<open>R\<close>.\<close>

definition only :: "repr \<Rightarrow> bytes \<Rightarrow> ('s, 'v) DB \<Rightarrow> bool" where
  "only R key db \<longleftrightarrow> inv db \<and> onlyRepr R key (dbView db)"

lemma shrinks_inv: "shrinks inv"
  unfolding shrinks_def inv_def by (meson coherent_sub)

lemma shrinks_only: "shrinks (only R key)"
  unfolding shrinks_def only_def inv_def by (meson coherent_sub onlyRepr_sub)

lemma shrinks_lacks: "shrinks P \<Longrightarrow> shrinks (\<lambda>db. P db \<and> lacksRepr R key (dbView db))"
  unfolding shrinks_def by (meson lacksRepr_sub)

lemma only_inv: "only R key db \<Longrightarrow> inv db"
  by (simp add: only_def)

lemma onlyNone_only: "only ReprNone key db \<Longrightarrow> only R key db"
  by (auto simp: only_def onlyRepr_None_mono)

lemma dom_dropKey: "dbOk db \<Longrightarrow> dom (dbView (dropKey key db)) \<subseteq> dom (dbView db)"
  by (auto simp: dbView_dropKey split: if_splits)

lemma dropKey_onlyNone: "inv db \<Longrightarrow> only ReprNone key (dropKey key db)"
  using shrinks_dropKey [OF shrinks_inv, of db key] reprKey_recordOf
  by (simp add: only_def onlyRepr_None_iff lacksRepr_def inv_def dbView_dropKey)

text \<open>
  What each part of \<open>redisType\<close> establishes: a positive answer means that this is the only
  representation, a negative one that the representation is gone.
\<close>

definition answers :: "repr \<Rightarrow> bytes \<Rightarrow> (('s, 'v) DB \<Rightarrow> bool) \<Rightarrow> bool \<Rightarrow> ('s, 'v) DB \<Rightarrow> bool" where
  "answers R key P b db \<longleftrightarrow> P db \<and>
     (if b then onlyRepr R key (dbView db) else lacksRepr R key (dbView db))"

lemma answers_False: "answers R key P False = (\<lambda>db. P db \<and> lacksRepr R key (dbView db))"
  by (simp add: fun_eq_iff answers_def)

lemma redisTypeScalar_spec:
  assumes "shrinks P" "\<And>db. P db \<Longrightarrow> inv db" "lenOk key"
  shows "triple P (redisTypeScalar None key) (answers ReprScalar key P) P"
proof (rule tripleI)
  fix db
  assume P: "P db"
  then have ok: "dbOk db" using assms(1) shrinks_ok by blast
  show "case redisTypeScalar None key db of
      (Ok b, db') \<Rightarrow> answers ReprScalar key P b db' | (Err e, db') \<Rightarrow> P db' | (Panic p, db') \<Rightarrow> False"
  proof (cases "dbView db (valueKey key)")
    case None
    then show ?thesis
      using P ok by (simp add: redisTypeScalar_def bindE_def ret_def op_simps answers_def
          lacksRepr_def reprKey_def)
  next
    case (Some data)
    show ?thesis
    proof (cases "decodeRecord data")
      case (Ok rec)
      obtain b db1 where e: "recordExpired rec db = (Ok b, db1)" "sameStore db db1"
        using recordExpired_same by blast
      then have P1: "P db1" "dbOk db1" "dbView db1 = dbView db"
        using assms(1) P shrinks_same ok by (simp_all add: sameStore_simps) blast
      have only: "onlyRepr ReprScalar key (dbView db1)"
        using onlyRepr_of_record [of "dbView db1" key ReprScalar "valueKey key"] assms(2) [OF P1(1)]
          assms(3) Some P1 by (simp add: inv_def)
      show ?thesis
      proof (cases b)
        case True
        then show ?thesis
          using Some Ok ok e P1 shrinks_dbDel [OF assms(1) P1(1)]
          by (simp add: redisTypeScalar_def bindE_def ret_def liftR_def ignoreE_def op_simps answers_def
              lacksRepr_def reprKey_def)
      next
        case False
        then show ?thesis
          using Some Ok ok e P1 only
          by (simp add: redisTypeScalar_def bindE_def ret_def liftR_def op_simps answers_def)
      qed
    next
      case (Err er)
      then show ?thesis
        using Some P ok by (simp add: redisTypeScalar_def bindE_def liftR_def op_simps)
    next
      case (Panic p)
      then show ?thesis using decode_no_panic(1) by blast
    qed
  qed
qed

lemma hashScanCallback_cases:
  obtains (bad) e where "hashScanCallback acc k data db = (Err e, db)"
  | (good) b db' where "hashScanCallback acc k data db
       = (Ok (if b then (fst acc @ [k], snd acc) else (fst acc, True)), db')" "sameStore db db'"
proof (cases "decodeRecord data")
  case (Ok rec)
  obtain b db' where "recordExpired rec db = (Ok b, db')" "sameStore db db'"
    using recordExpired_same by blast
  with Ok good show thesis by (simp add: hashScanCallback_def bindE_def liftR_def ret_def)
next
  case (Err e)
  with bad show thesis by (simp add: hashScanCallback_def bindE_def liftR_def)
next
  case (Panic p)
  then show thesis using decode_no_panic(1) by blast
qed

lemma scanRun_hash:
  "\<exists>exp found err db'. scanRun hashScanCallback items None acc db = (Ok ((exp, found), err), db')
     \<and> sameStore db db' \<and> (err = None \<longrightarrow>
        (\<not> found \<longrightarrow> \<not> snd acc \<and> exp = fst acc @ map fst items) \<and> (found \<longrightarrow> snd acc \<or> items \<noteq> []))"
proof (induction items arbitrary: acc db)
  case Nil
  show ?case by (cases acc) simp
next
  case (Cons x items)
  show ?case
  proof (cases rule: hashScanCallback_cases [of acc "fst x" "snd x" db])
    case (bad e)
    then show ?thesis by (cases acc) simp
  next
    case (good b db1)
    let ?acc = "if b then (fst acc @ [fst x], snd acc) else (fst acc, True)"
    from Cons [of ?acc db1] good(1) sameStore_trans [OF good(2)] show ?thesis
      by (cases b) (fastforce)+
  qed
qed

lemma scanE_hash:
  assumes "dbOk db"
  obtains (bad) e db' where "scanE None p hashScanCallback ([], False) db = (Err e, db')" "sameStore db db'"
  | (good) exp found db' where "scanE None p hashScanCallback ([], False) db = (Ok (exp, found), db')"
      "sameStore db db'" "\<not> found \<Longrightarrow> exp = map fst (dbItems p db)" "found \<Longrightarrow> dbItems p db \<noteq> []"
proof -
  obtain exp found err db' where s:
    "scanRun hashScanCallback (dbItems p db) None ([], False) db = (Ok ((exp, found), err), db')"
    "sameStore db db'" "err = None \<Longrightarrow> \<not> found \<Longrightarrow> exp = map fst (dbItems p db)"
    "err = None \<Longrightarrow> found \<Longrightarrow> dbItems p db \<noteq> []"
    using scanRun_hash [of "dbItems p db" "([], False)" db] by auto
  with assms bad good show thesis
    by (cases err) (simp_all add: scanE_def bindE_def ret_def throw_def op_simps)
qed

lemma redisTypeHashed_spec:
  assumes "shrinks P" "\<And>db. P db \<Longrightarrow> inv db" "lenOk key"
  shows "triple P (redisTypeHashed None key) (answers ReprHash key P) P"
proof (rule tripleI)
  fix db
  assume P: "P db"
  then have ok: "dbOk db" using assms(1) shrinks_ok by blast
  let ?p = "namespacePrefix kindHash key"
  show "case redisTypeHashed None key db of
      (Ok b, db') \<Rightarrow> answers ReprHash key P b db' | (Err e, db') \<Rightarrow> P db' | (Panic p, db') \<Rightarrow> False"
  proof (cases rule: scanE_hash [OF ok, of ?p])
    case (1 e db1)
    then show ?thesis using shrinks_same [OF assms(1) P]
      by (simp add: redisTypeHashed_def bindE_def)
  next
    case (2 exp found db1)
    have P1: "P db1" "dbOk db1" "dbView db1 = dbView db"
      using 2(2) shrinks_same [OF assms(1) P] ok by (simp_all add: sameStore_simps)
    let ?db2 = "dbDels exp db1"
    have P2: "P ?db2" "dbOk ?db2" using shrinks_dbDels [OF assms(1) P1(1)] P1(2) by simp_all
    show ?thesis
    proof (cases found)
      case True
      then obtain k v where "(k, v) \<in> set (dbItems ?p db)" using 2(4) by (cases "dbItems ?p db") auto
      then have "reprKey ReprHash key k" "dbView db k \<noteq> None"
        using dbItems_set [OF ok, of ?p] by (auto simp: reprKey_def)
      then have "onlyRepr ReprHash key (dbView db)"
        using onlyRepr_of_record assms(2) [OF P] assms(3) by (auto simp: inv_def)
      then have "onlyRepr ReprHash key (dbView ?db2)"
        using P1 onlyRepr_sub [of ReprHash key "dbView db" "dbView ?db2"] by simp
      with True 2(1) P1 P2 show ?thesis
        by (simp add: redisTypeHashed_def bindE_def ret_def op_simps answers_def)
    next
      case False
      then have exp: "exp = map fst (dbItems ?p db)" by (rule 2(3))
      have lacks: "lacksRepr ReprHash key (dbView ?db2)"
        using dbItems_keys [OF ok, of ?p] P1 by (auto simp: lacksRepr_def reprKey_def exp restrict_map_def)
      show ?thesis
      proof (cases "exp = []")
        case True
        with False 2(1) P1 P2 lacks show ?thesis
          by (simp add: redisTypeHashed_def bindE_def ret_def op_simps answers_def)
      next
        case ne: False
        have "lacksRepr ReprHash key (dbView (dropKey key ?db2))"
          by (rule lacksRepr_sub [OF lacks dom_dropKey [OF P2(2)]])
        with False ne 2(1) P1 P2 shrinks_dropKey [OF assms(1) P2(1)] show ?thesis
          by (simp add: redisTypeHashed_def bindE_def ret_def op_simps answers_def)
      qed
    qed
  qed
qed

lemma scanRun_any:
  "scanRun (\<lambda>acc k v. ret True) items None False db = (Ok (items \<noteq> [], None), db)"
  and "scanRun (\<lambda>acc k v. ret True) items None True db = (Ok (True, None), db)"
proof -
  show *: "scanRun (\<lambda>acc k v. ret True) items None True db = (Ok (True, None), db)" for items
    by (induction items) (simp_all add: ret_def)
  show "scanRun (\<lambda>acc k v. ret True) items None False db = (Ok (items \<noteq> [], None), db)"
    by (cases items) (simp_all add: * ret_def)
qed

lemma redisTypeSetted_eq [op_simps]:
  "dbOk db \<Longrightarrow> redisTypeSetted None key db = (Ok (dbItems (namespacePrefix kindSet key) db \<noteq> []), db)"
  by (simp add: redisTypeSetted_def scanE_def bindE_def ret_def op_simps scanRun_any)

lemma redisTypeSetted_spec:
  assumes "shrinks P" "\<And>db. P db \<Longrightarrow> inv db" "lenOk key"
  shows "triple P (redisTypeSetted None key) (answers ReprSet key P) P"
proof (rule tripleI)
  fix db
  assume P: "P db"
  then have ok: "dbOk db" using assms(1) shrinks_ok by blast
  let ?items = "dbItems (namespacePrefix kindSet key) db"
  have "answers ReprSet key P (?items \<noteq> []) db"
  proof (cases "?items = []")
    case True
    then show ?thesis using P dbItems_empty_iff [OF ok]
      by (simp add: answers_def lacksRepr_def reprKey_def)
  next
    case False
    then obtain k v where "(k, v) \<in> set ?items" by (cases ?items) auto
    then have "reprKey ReprSet key k" "dbView db k \<noteq> None"
      using dbItems_set [OF ok, of "namespacePrefix kindSet key"] by (auto simp: reprKey_def)
    with False P assms show ?thesis
      using onlyRepr_of_record [of "dbView db" key ReprSet k] by (auto simp: answers_def inv_def)
  qed
  then show "case redisTypeSetted None key db of
      (Ok b, db') \<Rightarrow> answers ReprSet key P b db' | (Err e, db') \<Rightarrow> P db' | (Panic p, db') \<Rightarrow> False"
    using ok by (simp add: op_simps)
qed

lemma redisTypeListed_spec:
  assumes "shrinks P" "\<And>db. P db \<Longrightarrow> inv db" "lenOk key"
  shows "triple P (redisTypeListed None key) (answers ReprList key P) P"
proof (rule tripleI)
  fix db
  assume P: "P db"
  then have ok: "dbOk db" using assms(1) shrinks_ok by blast
  note defs = redisTypeListed_def bindE_def ret_def liftR_def ignoreE_def answers_def
  show "case redisTypeListed None key db of
      (Ok b, db') \<Rightarrow> answers ReprList key P b db' | (Err e, db') \<Rightarrow> P db' | (Panic p, db') \<Rightarrow> False"
  proof (cases "dbView db (listKey key)")
    case None
    then show ?thesis using P ok by (simp add: defs op_simps lacksRepr_def reprKey_def)
  next
    case (Some data)
    show ?thesis
    proof (cases "dbProtocol_DecodeList data")
      case (Ok items)
      show ?thesis
      proof (cases "items = []")
        case True
        have "lacksRepr ReprList key (dbView (dropKey key db))"
          using ok reprKey_recordOf [of ReprList key "listKey key"]
          by (simp add: lacksRepr_def reprKey_def dbView_dropKey)
        with True Some Ok P ok shrinks_dropKey [OF assms(1) P] show ?thesis by (simp add: defs op_simps)
      next
        case False
        have "onlyRepr ReprList key (dbView db)"
          using onlyRepr_of_record [of "dbView db" key ReprList "listKey key"] assms(2) [OF P] assms(3) Some
          by (simp add: inv_def)
        with False Some Ok P ok show ?thesis by (simp add: defs op_simps)
      qed
    next
      case (Err e)
      with Some P ok show ?thesis by (simp add: defs op_simps)
    next
      case (Panic p)
      then show ?thesis using decode_no_panic(2) by blast
    qed
  qed
qed

lemma redisKeyExpired_spec:
  "triple inv (redisKeyExpired None key) (\<lambda>b. if b then only ReprNone key else inv) inv"
proof (rule tripleI)
  fix db
  assume I: "inv db"
  then have ok: "dbOk db" by (simp add: inv_def)
  note defs = redisKeyExpired_def redisMetadataExpiry_def bindE_def ret_def throw_def
  show "case redisKeyExpired None key db of
      (Ok b, db') \<Rightarrow> (if b then only ReprNone key else inv) db' | (Err e, db') \<Rightarrow> inv db' | (Panic p, db') \<Rightarrow> False"
  proof (cases "dbView db (collectionTTLKey key)")
    case None
    with I ok show ?thesis by (simp add: defs op_simps)
  next
    case (Some data)
    obtain t db1 where now: "dbProtocol_Now db = (Ok t, db1)" "sameStore db db1"
      using protocol_Now_same by blast
    then have I1: "inv db1" "dbOk db1"
      using shrinks_same [OF shrinks_inv I] ok by (simp_all add: sameStore_simps)
    with Some I ok now dropKey_onlyNone [OF I1(1)] show ?thesis by (simp add: defs op_simps)
  qed
qed

text \<open>
  Type detection: the answer is the only representation the key has left; after \<open>none\<close> it has
  none at all.
\<close>

lemma redisType_spec:
  assumes "lenOk key"
  shows "triple inv (redisType None key) (\<lambda>typ. only (reprOf typ) key) inv"
proof -
  let ?P1 = "\<lambda>db. inv db \<and> lacksRepr ReprScalar key (dbView db)"
  let ?P2 = "\<lambda>db. ?P1 db \<and> lacksRepr ReprHash key (dbView db)"
  let ?P3 = "\<lambda>db. ?P2 db \<and> lacksRepr ReprSet key (dbView db)"
  have none: "?P3 db \<Longrightarrow> lacksRepr ReprList key (dbView db) \<Longrightarrow> only ReprNone key db" for db
    unfolding only_def onlyRepr_None_iff by (metis lacksRepr_None repr.exhaust)
  have s1: "shrinks ?P1" and s2: "shrinks ?P2" and s3: "shrinks ?P3"
    by (intro shrinks_lacks shrinks_inv)+
  have t1: "triple inv (redisTypeScalar None key) (answers ReprScalar key inv) inv"
    by (rule redisTypeScalar_spec [OF shrinks_inv _ assms])
  have t2: "triple ?P1 (redisTypeHashed None key) (answers ReprHash key ?P1) inv"
    by (rule triple_conseq [OF redisTypeHashed_spec [OF s1 _ assms]]) simp_all
  have t3: "triple ?P2 (redisTypeSetted None key) (answers ReprSet key ?P2) inv"
    by (rule triple_conseq [OF redisTypeSetted_spec [OF s2 _ assms]]) simp_all
  have t4: "triple ?P3 (redisTypeListed None key) (answers ReprList key ?P3) inv"
    by (rule triple_conseq [OF redisTypeListed_spec [OF s3 _ assms]]) simp_all
  have found: "triple (answers R key P True) (ret ty) (\<lambda>typ. only (reprOf typ) key) inv"
    if "reprOf ty = R" "\<And>db. P db \<Longrightarrow> inv db" for R P ty
    using that by (auto intro!: triple_ret simp: answers_def only_def)
  have step: "triple (answers R key P b) (if b then ret ty else m) (\<lambda>typ. only (reprOf typ) key) inv"
    if "reprOf ty = R" "\<And>db. P db \<Longrightarrow> inv db"
      "triple (\<lambda>db. P db \<and> lacksRepr R key (dbView db)) m (\<lambda>typ. only (reprOf typ) key) inv" for R P b ty m
    using that found [of ty R P] by (cases b) (simp_all add: answers_False)
  have l4: "triple ?P3 (bindE (redisTypeListed None key) (\<lambda>found.
      if found then ret redisTypeList else ret redisTypeNone)) (\<lambda>typ. only (reprOf typ) key) inv"
    by (rule triple_bindE [OF t4], rule step) (auto intro!: triple_ret none)
  have l3: "triple ?P2 (bindE (redisTypeSetted None key) (\<lambda>found. if found then ret redisTypeSet
      else bindE (redisTypeListed None key) (\<lambda>found. if found then ret redisTypeList else ret redisTypeNone)))
      (\<lambda>typ. only (reprOf typ) key) inv"
    by (rule triple_bindE [OF t3], rule step [OF _ _ l4]) simp_all
  have l2: "triple ?P1 (bindE (redisTypeHashed None key) (\<lambda>found. if found then ret redisTypeHash
      else bindE (redisTypeSetted None key) (\<lambda>found. if found then ret redisTypeSet
      else bindE (redisTypeListed None key) (\<lambda>found. if found then ret redisTypeList else ret redisTypeNone))))
      (\<lambda>typ. only (reprOf typ) key) inv"
    by (rule triple_bindE [OF t2], rule step [OF _ _ l3]) simp_all
  show ?thesis
    unfolding redisType_def
  proof (rule triple_bindE [OF redisKeyExpired_spec])
    fix b
    show "triple (if b then only ReprNone key else inv) (if b then ret redisTypeNone
        else bindE (redisTypeScalar None key) (\<lambda>found. if found then ret redisTypeString
        else bindE (redisTypeHashed None key) (\<lambda>found. if found then ret redisTypeHash
        else bindE (redisTypeSetted None key) (\<lambda>found. if found then ret redisTypeSet
        else bindE (redisTypeListed None key) (\<lambda>found. if found then ret redisTypeList else ret redisTypeNone)))))
        (\<lambda>typ. only (reprOf typ) key) inv"
      by (cases b) (auto intro!: triple_ret triple_bindE [OF t1] step [OF _ _ l2])
  qed
qed

end

end
