(* ===== verification/RedisStrings.thy ===== *)
theory RedisStrings
  imports RedisStorage RESP
begin

text \<open>
  String, counter, deletion and expiry commands of \<open>extensions/redis/redis_commands.go\<close>. A command
  takes the argument list of the request and returns its reply; an error inside it becomes an error
  reply, a panic stays a panic. Unicode case mapping and the iteration order of Go maps are fixed
  by the run-time system: the record \<open>redisHost\<close> carries them as parameters.
\<close>

record redisHost =
  host_upper :: "bytes \<Rightarrow> bytes"
  host_mapOrder :: "bytes list \<Rightarrow> bytes list"

section \<open>Replies and arguments\<close>

definition redisErrorReply :: "goerror option \<Rightarrow> respValue" where
  "redisErrorReply err = (case err of
      None \<Rightarrow> respSimpleString ''OK''
    | Some e \<Rightarrow>
        if errors_Is e ErrRedisWrongType then respErrorString (sentinel_text ErrRedisWrongType)
        else if errors_Is e ErrClosed then respErrorString ''ERR database is closed''
        else respErrorString (''ERR '' @ err_text e))"

text \<open>\<open>if err != nil { return redisErrorReply(err) }\<close> around the body of a command.\<close>

definition replyE :: "(('s, 'v) DB, respValue) op \<Rightarrow> (('s, 'v) DB, respValue) op" where
  "replyE m db = (case m db of
      (Err e, db') \<Rightarrow> (Ok (redisErrorReply (Some e)), db')
    | r \<Rightarrow> r)"

definition redisSyntaxError :: respValue where
  "redisSyntaxError = respErrorString ''ERR syntax error''"

definition errNotInteger :: goerror where
  "errNotInteger = errorsNew ''value is not an integer or out of range''"

definition redisParseInt :: "bytes \<Rightarrow> int res" where
  "redisParseInt data = (case ParseInt 64 data of Inl _ \<Rightarrow> Err errNotInteger | Inr v \<Rightarrow> Ok v)"

definition redisParseNonNegative :: "bytes \<Rightarrow> int res" where
  "redisParseNonNegative data = (case redisParseInt data of
      Ok v \<Rightarrow> if v < 0 then Err errNotInteger else Ok v
    | _ \<Rightarrow> Err errNotInteger)"

section \<open>Options of SET\<close>

record redisSetOptions =
  so_expiresAt :: int
  so_hasExpiry :: bool
  so_nx :: bool
  so_xx :: bool
  so_get :: bool
  so_keepTTL :: bool

datatype setWord = WordNX | WordXX | WordGET | WordKEEPTTL | WordExpire int bool | WordOther

definition setWord :: "redisHost \<Rightarrow> bytes \<Rightarrow> setWord" where
  "setWord host arg =
     (let w = ToUpper (host_upper host) arg in
      if w = ''NX'' then WordNX
      else if w = ''XX'' then WordXX
      else if w = ''GET'' then WordGET
      else if w = ''KEEPTTL'' then WordKEEPTTL
      else if w = ''EX'' then WordExpire nanosPerSecond False
      else if w = ''PX'' then WordExpire nanosPerMillisecond False
      else if w = ''EXAT'' then WordExpire nanosPerSecond True
      else if w = ''PXAT'' then WordExpire nanosPerMillisecond True
      else WordOther)"

definition errSyntax :: goerror where "errSyntax = errorsNew ''syntax error''"
definition errSetExpire :: goerror where "errSetExpire = errorsNew ''invalid expire time in set''"

text \<open>\<open>amount\<close> units of \<open>unit\<close> nanoseconds from now, or from the epoch.\<close>

definition setOptionExpiry :: "int \<Rightarrow> bool \<Rightarrow> bytes \<Rightarrow> (('s, 'v) DB, int) op" where
  "setOptionExpiry unit absolute arg =
     bindE (liftR (redisParseInt arg)) (\<lambda>amount.
       if amount \<le> 0 then throw errSetExpire
       else if amount > maxInt64 sdiv unit then throw errSetExpire
       else if absolute then ret (amount * unit)
       else bindE dbProtocol_Now (\<lambda>t.
         if UnixNano t > maxInt64 - amount * unit then throw errSetExpire
         else ret (UnixNano t + amount * unit)))"

fun setOptionsLoop ::
  "redisHost \<Rightarrow> bytes list \<Rightarrow> redisSetOptions \<Rightarrow> (('s, 'v) DB, redisSetOptions) op" where
  "setOptionsLoop host [] options = ret options"
| "setOptionsLoop host (arg # args) options = (case setWord host arg of
      WordNX \<Rightarrow> if so_xx options then throw errSyntax
                else setOptionsLoop host args (options\<lparr>so_nx := True\<rparr>)
    | WordXX \<Rightarrow> if so_nx options then throw errSyntax
                else setOptionsLoop host args (options\<lparr>so_xx := True\<rparr>)
    | WordGET \<Rightarrow> setOptionsLoop host args (options\<lparr>so_get := True\<rparr>)
    | WordKEEPTTL \<Rightarrow> if so_hasExpiry options then throw errSyntax
                else setOptionsLoop host args (options\<lparr>so_keepTTL := True\<rparr>)
    | WordExpire unit absolute \<Rightarrow>
        (case args of
           [] \<Rightarrow> throw errSyntax
         | amount # args' \<Rightarrow>
             if so_hasExpiry options then throw errSyntax
             else bindE (setOptionExpiry unit absolute amount) (\<lambda>expiresAt.
               setOptionsLoop host args' (options\<lparr>so_expiresAt := expiresAt, so_hasExpiry := True\<rparr>)))
    | WordOther \<Rightarrow> throw errSyntax)"

definition redisSetOptions :: "redisHost \<Rightarrow> bytes list \<Rightarrow> (('s, 'v) DB, redisSetOptions) op" where
  "redisSetOptions host args = setOptionsLoop host (drop 3 args)
     \<lparr>so_expiresAt = 0, so_hasExpiry = False, so_nx = False, so_xx = False, so_get = False,
      so_keepTTL = False\<rparr>"

section \<open>Reading and writing strings\<close>

definition bulkOrNil :: "bytes option \<Rightarrow> respValue" where
  "bulkOrNil r = (case r of Some value \<Rightarrow> respBulkBytes value | None \<Rightarrow> respNil)"

definition redisGet :: "bytes list \<Rightarrow> (('s, 'v) DB, respValue) op" where
  "redisGet args =
     (if length args \<noteq> 2 then ret redisSyntaxError
      else replyE (bindE (redisString Background (args ! 1)) (\<lambda>r. ret (bulkOrNil r))))"

definition redisDeleteAndWriteString :: "bytes \<Rightarrow> bytes \<Rightarrow> int \<Rightarrow> (('s, 'v) DB, unit) op" where
  "redisDeleteAndWriteString key value expiresAt =
     bindE (redisDeleteRaw Background key) (\<lambda>_. redisWriteString Background key value expiresAt)"

definition redisSet :: "redisHost \<Rightarrow> bytes list \<Rightarrow> (('s, 'v) DB, respValue) op" where
  "redisSet host args =
     (if length args < 3 then ret redisSyntaxError
      else replyE (
        bindE (redisSetOptions host args) (\<lambda>options.
        bindE (redisType Background (args ! 1)) (\<lambda>typ.
          let key = args ! 1; exists = (typ \<noteq> redisTypeNone) in
          if so_nx options \<and> exists then ret respNil
          else if so_xx options \<and> \<not> exists then ret respNil
          else
            bindE (if so_get options \<and> exists
                   then bindE (redisString Background key) (\<lambda>r. ret (bulkOrNil r))
                   else ret respNil) (\<lambda>old.
            bindE (if so_keepTTL options \<and> exists \<and> \<not> so_hasExpiry options
                   then bindE (redisExpiry Background key)
                          (\<lambda>e. ret (case e of Some x \<Rightarrow> x | None \<Rightarrow> 0))
                   else ret (so_expiresAt options)) (\<lambda>expiresAt.
            bindE (redisDeleteAndWriteString key (args ! 2) expiresAt) (\<lambda>_.
              ret (if so_get options then old else respSimpleString ''OK''))))))))"

definition redisSetNX :: "bytes list \<Rightarrow> (('s, 'v) DB, respValue) op" where
  "redisSetNX args =
     (if length args \<noteq> 3 then ret redisSyntaxError
      else replyE (bindE (redisType Background (args ! 1)) (\<lambda>typ.
        if typ \<noteq> redisTypeNone then ret (respIntegerValue 0)
        else bindE (redisWriteString Background (args ! 1) (args ! 2) 0)
               (\<lambda>_. ret (respIntegerValue 1)))))"

definition redisSetEX :: "bytes list \<Rightarrow> bool \<Rightarrow> (('s, 'v) DB, respValue) op" where
  "redisSetEX args milliseconds =
     (if length args \<noteq> 4 then ret redisSyntaxError
      else (case redisParseInt (args ! 2) of
          Ok amount \<Rightarrow>
            if amount \<le> 0 then ret (redisErrorReply (Some errSetExpire))
            else let unit = (if milliseconds then nanosPerMillisecond else nanosPerSecond) in
              if amount > maxInt64 sdiv unit then ret (redisErrorReply (Some errSetExpire))
              else replyE (bindE dbProtocol_Now (\<lambda>t.
                if UnixNano t > maxInt64 - amount * unit then throw errSetExpire
                else bindE (redisDeleteRaw Background (args ! 1)) (\<lambda>_.
                  bindE (redisWriteString Background (args ! 1) (args ! 3) (UnixNano t + amount * unit))
                    (\<lambda>_. ret (respSimpleString ''OK'')))))
        | _ \<Rightarrow> ret (redisErrorReply (Some errSetExpire))))"

definition redisGetSet :: "bytes list \<Rightarrow> (('s, 'v) DB, respValue) op" where
  "redisGetSet args =
     (if length args \<noteq> 3 then ret redisSyntaxError
      else replyE (bindE (redisString Background (args ! 1)) (\<lambda>old.
        bindE (redisDeleteRaw Background (args ! 1)) (\<lambda>_.
        bindE (redisWriteString Background (args ! 1) (args ! 2) 0) (\<lambda>_.
          ret (bulkOrNil old))))))"

definition redisGetDel :: "bytes list \<Rightarrow> (('s, 'v) DB, respValue) op" where
  "redisGetDel args =
     (if length args \<noteq> 2 then ret redisSyntaxError
      else replyE (bindE (redisString Background (args ! 1)) (\<lambda>r.
        case r of
          None \<Rightarrow> ret respNil
        | Some value \<Rightarrow>
            bindE (redisDeleteRaw Background (args ! 1)) (\<lambda>_. ret (respBulkBytes value)))))"

section \<open>Deadlines\<close>

definition redisExpiryFromCommand :: "time \<Rightarrow> bytes \<Rightarrow> int \<Rightarrow> int res" where
  "redisExpiryFromCommand now command amount =
     (let absolute = HasSuffix command ''AT'';
          unit = (if HasPrefix command ''P'' then nanosPerMillisecond else nanosPerSecond)
      in if amount > maxInt64 sdiv unit \<or> amount < minInt64 sdiv unit
         then Err (errorsNew ''invalid expire time'')
         else if absolute then Ok (amount * unit)
         else let delta = amount * unit; current = UnixNano now in
           if delta > 0 \<and> current > maxInt64 - delta then Err (errorsNew ''invalid expire time'')
           else if delta < 0 \<and> current < minInt64 - delta then Err (errorsNew ''invalid expire time'')
           else Ok (current + delta))"

definition errGetex :: goerror where "errGetex = errorsNew ''invalid expire time in getex''"

text \<open>The option words of \<open>GETEX\<close> and the new deadline they ask for.\<close>

definition getExDeadline :: "bytes \<Rightarrow> int \<Rightarrow> (('s, 'v) DB, int) op" where
  "getExDeadline option amount =
     bindE dbProtocol_Now (\<lambda>t. case redisExpiryFromCommand t option amount of
        Ok e \<Rightarrow> ret e
      | _ \<Rightarrow> throw errGetex)"

definition redisGetEx :: "redisHost \<Rightarrow> bytes list \<Rightarrow> (('s, 'v) DB, respValue) op" where
  "redisGetEx host args =
     (if length args < 2 then ret redisSyntaxError
      else replyE (bindE (redisString Background (args ! 1)) (\<lambda>r.
        case r of
          None \<Rightarrow> ret respNil
        | Some value \<Rightarrow>
            if length args = 2 then ret (respBulkBytes value)
            else if length args = 3 \<and> EqualFold (args ! 2) ''PERSIST''
            then bindE (redisPersist Background (args ! 1)) (\<lambda>_. ret (respBulkBytes value))
            else if length args \<noteq> 4 then ret redisSyntaxError
            else (case redisParseInt (args ! 3) of
                Ok amount \<Rightarrow>
                  let option = ToUpper (host_upper host) (args ! 2) in
                  if (option = ''EX'' \<or> option = ''PX'') \<and> amount \<le> 0 then throw errGetex
                  else if option \<noteq> ''EX'' \<and> option \<noteq> ''PX'' \<and> option \<noteq> ''EXAT'' \<and> option \<noteq> ''PXAT''
                  then ret redisSyntaxError
                  else bindE (getExDeadline option amount) (\<lambda>expiresAt.
                       bindE (redisSetExpiry Background (args ! 1) expiresAt)
                         (\<lambda>_. ret (respBulkBytes value)))
              | _ \<Rightarrow> throw errGetex))))"

section \<open>Several keys\<close>

definition redisMGet :: "bytes list \<Rightarrow> (('s, 'v) DB, respValue) op" where
  "redisMGet args =
     (if length args < 2 then ret redisSyntaxError
      else replyE (bindE (foldE (\<lambda>arg items.
             bindE (redisString Background arg) (\<lambda>r. ret (items @ [bulkOrNil r]))) (tl args) [])
           (\<lambda>items. ret (respArrayValues items))))"

text \<open>The loops over key and value arguments.\<close>

fun keyValueLoop ::
  "(bytes \<Rightarrow> bytes \<Rightarrow> (('s, 'v) DB, unit) op) \<Rightarrow> bytes list \<Rightarrow> (('s, 'v) DB, unit) op" where
  "keyValueLoop f [] = ret ()"
| "keyValueLoop f [key] = panic ''runtime error: index out of range''"
| "keyValueLoop f (key # value # rest) = bindE (f key value) (\<lambda>_. keyValueLoop f rest)"

definition redisMSet :: "bytes list \<Rightarrow> (('s, 'v) DB, respValue) op" where
  "redisMSet args =
     (if length args < 3 \<or> length args mod 2 \<noteq> 1 then ret redisSyntaxError
      else replyE (bindE (keyValueLoop (\<lambda>key value.
             bindE (redisDeleteRaw Background key)
               (\<lambda>_. redisWriteString Background key value 0)) (tl args))
           (\<lambda>_. ret (respSimpleString ''OK''))))"

fun anyExistsLoop :: "bytes list \<Rightarrow> (('s, 'v) DB, bool) op" where
  "anyExistsLoop [] = ret False"
| "anyExistsLoop (key # rest) =
     bindE (redisType Background key) (\<lambda>typ.
       if typ \<noteq> redisTypeNone then ret True else anyExistsLoop (drop 1 rest))"

definition redisMSetNX :: "bytes list \<Rightarrow> (('s, 'v) DB, respValue) op" where
  "redisMSetNX args =
     (if length args < 3 \<or> length args mod 2 \<noteq> 1 then ret redisSyntaxError
      else replyE (bindE (anyExistsLoop (tl args)) (\<lambda>exists.
        if exists then ret (respIntegerValue 0)
        else bindE (keyValueLoop (\<lambda>key value. redisWriteString Background key value 0) (tl args))
               (\<lambda>_. ret (respIntegerValue 1)))))"

definition redisStrLen :: "bytes list \<Rightarrow> (('s, 'v) DB, respValue) op" where
  "redisStrLen args =
     (if length args \<noteq> 2 then ret redisSyntaxError
      else replyE (bindE (redisString Background (args ! 1)) (\<lambda>r.
        ret (respIntegerValue (case r of None \<Rightarrow> 0 | Some value \<Rightarrow> int (length value))))))"

definition redisAppend :: "bytes list \<Rightarrow> (('s, 'v) DB, respValue) op" where
  "redisAppend args =
     (if length args \<noteq> 3 then ret redisSyntaxError
      else replyE (bindE (redisString Background (args ! 1)) (\<lambda>r.
        bindE (redisExpiry Background (args ! 1)) (\<lambda>e.
          let value = (case r of Some v \<Rightarrow> v | None \<Rightarrow> []) @ args ! 2 in
          bindE (redisWriteString Background (args ! 1) value (case e of Some x \<Rightarrow> x | None \<Rightarrow> 0)) (\<lambda>_.
            ret (respIntegerValue (if r = None then int (length (args ! 2)) else int (length value))))))))"

section \<open>Counters\<close>

definition redisIncrementBig :: "bytes \<Rightarrow> int \<Rightarrow> (('s, 'v) DB, respValue) op" where
  "redisIncrementBig key delta =
     replyE (bindE (redisString Background key) (\<lambda>r.
       case (case r of None \<Rightarrow> Some 0 | Some value \<Rightarrow> bigSetString value) of
         None \<Rightarrow> ret (respErrorString ''ERR value is not an integer or out of range'')
       | Some v \<Rightarrow>
           let current = v + delta in
           if \<not> isInt64 current
           then ret (respErrorString ''ERR increment or decrement would overflow'')
           else bindE (redisExpiry Background key) (\<lambda>e.
             bindE (redisWriteString Background key (FormatInt current)
                      (case e of Some x \<Rightarrow> x | None \<Rightarrow> 0)) (\<lambda>_.
               ret (respIntegerValue current)))))"

definition redisIncrement :: "bytes \<Rightarrow> int \<Rightarrow> (('s, 'v) DB, respValue) op" where
  "redisIncrement key delta = redisIncrementBig key delta"

definition redisIncrementCommand :: "bytes list \<Rightarrow> int \<Rightarrow> (('s, 'v) DB, respValue) op" where
  "redisIncrementCommand args delta =
     (if length args \<noteq> 2 then ret redisSyntaxError else redisIncrement (args ! 1) delta)"

definition redisIncrementByCommand :: "bytes list \<Rightarrow> bool \<Rightarrow> (('s, 'v) DB, respValue) op" where
  "redisIncrementByCommand args decrement =
     (if length args \<noteq> 3 then ret redisSyntaxError
      else replyE (bindE (liftR (redisParseInt (args ! 2))) (\<lambda>delta.
        if decrement then redisIncrementBig (args ! 1) (- delta)
        else redisIncrement (args ! 1) delta)))"

section \<open>Existence and expiry\<close>

definition redisDelete :: "bytes list \<Rightarrow> (('s, 'v) DB, respValue) op" where
  "redisDelete args =
     (if length args < 2 then ret redisSyntaxError
      else replyE (bindE (foldE (\<lambda>arg count.
             bindE (redisDeleteRaw Background arg) (\<lambda>deleted.
               ret (if deleted then count + 1 else count))) (tl args) 0)
           (\<lambda>count. ret (respIntegerValue count))))"

definition redisExists :: "bytes list \<Rightarrow> (('s, 'v) DB, respValue) op" where
  "redisExists args =
     (if length args < 2 then ret redisSyntaxError
      else replyE (bindE (foldE (\<lambda>arg count.
             bindE (redisType Background arg) (\<lambda>typ.
               ret (if typ \<noteq> redisTypeNone then count + 1 else count))) (tl args) 0)
           (\<lambda>count. ret (respIntegerValue count))))"

definition redisTypeCommand :: "bytes list \<Rightarrow> (('s, 'v) DB, respValue) op" where
  "redisTypeCommand args =
     (if length args \<noteq> 2 then ret redisSyntaxError
      else replyE (bindE (redisType Background (args ! 1)) (\<lambda>typ. ret (respSimpleString typ))))"

definition redisExpireCommand :: "bytes list \<Rightarrow> bytes \<Rightarrow> (('s, 'v) DB, respValue) op" where
  "redisExpireCommand args command =
     (if length args \<noteq> 3 then ret redisSyntaxError
      else replyE (bindE (liftR (redisParseInt (args ! 2))) (\<lambda>amount.
        bindE dbProtocol_Now (\<lambda>t.
        bindE (liftR (redisExpiryFromCommand t command amount)) (\<lambda>expiresAt.
        bindE (redisSetExpiry Background (args ! 1) expiresAt) (\<lambda>ok.
          ret (respIntegerValue (if ok then 1 else 0))))))))"

definition redisTTLCommand :: "bytes list \<Rightarrow> bytes \<Rightarrow> (('s, 'v) DB, respValue) op" where
  "redisTTLCommand args command =
     (if length args \<noteq> 2 then ret redisSyntaxError
      else replyE (bindE (redisExpiry Background (args ! 1)) (\<lambda>e.
        case e of
          None \<Rightarrow>
            bindE (redisType Background (args ! 1)) (\<lambda>typ.
              ret (respIntegerValue (if typ = redisTypeNone then -2 else -1)))
        | Some expiresAt \<Rightarrow>
            bindE dbProtocol_Now (\<lambda>t.
              let remaining = wrap64 (expiresAt - UnixNano t) in
              if remaining \<le> 0 then ret (respIntegerValue (-2))
              else let divisor = (if command = ''PTTL'' then nanosPerMillisecond else nanosPerSecond);
                       value = remaining sdiv divisor
                   in ret (respIntegerValue (if value < 1 then 1 else value))))))"

definition redisPersistCommand :: "bytes list \<Rightarrow> (('s, 'v) DB, respValue) op" where
  "redisPersistCommand args =
     (if length args \<noteq> 2 then ret redisSyntaxError
      else replyE (bindE (redisPersist Background (args ! 1)) (\<lambda>ok.
        ret (respIntegerValue (if ok then 1 else 0)))))"

end
