(* ===== verification/RedisCollections.thy ===== *)
theory RedisCollections
  imports RedisStrings
begin

text \<open>
  Hash, set and list commands of \<open>extensions/redis/redis_commands.go\<close>.
\<close>

section \<open>Hashes\<close>

record redisHashEntry =
  he_field :: bytes
  he_value :: bytes

text \<open>The loop over the collected records: live entries and the keys of expired ones.\<close>

definition hashEntryStep ::
  "nat \<Rightarrow> bytes \<times> bytes \<Rightarrow> redisHashEntry list \<times> bytes list \<Rightarrow>
   (('s, 'v) DB, redisHashEntry list \<times> bytes list) op" where
  "hashEntryStep prefixLen rec acc =
     bindE (liftR (decodeRecord (snd rec))) (\<lambda>value.
     bindE (recordExpired value) (\<lambda>expired.
       ret (if expired then (fst acc, snd acc @ [fst rec])
            else (fst acc @ [\<lparr>he_field = drop prefixLen (fst rec), he_value = rr_payload value\<rparr>],
                  snd acc))))"

text \<open>The boolean result of \<open>redisHashEntries\<close> says whether there are entries.\<close>

definition redisHashEntries :: "ctx \<Rightarrow> bytes \<Rightarrow> (('s, 'v) DB, redisHashEntry list \<times> bool) op" where
  "redisHashEntries ctx key =
     bindE (redisType ctx key) (\<lambda>typ.
       if typ = redisTypeNone then ret ([], False)
       else if typ \<noteq> redisTypeHash then throw (wrongType typ)
       else bindE (scanE ctx (dbProtocol_HashPrefix key)
                    (\<lambda>records storageKey data. ret (records @ [(storageKey, data)])) []) (\<lambda>records.
            bindE (foldE (hashEntryStep (length (dbProtocol_HashPrefix key))) records ([], [])) (\<lambda>r.
            bindE (deleteEach ctx (snd r)) (\<lambda>_.
              if fst r = []
              then if snd r \<noteq> []
                   then bindE (ignoreE (redisDeleteRaw ctx key)) (\<lambda>_. ret ([], False))
                   else ret ([], False)
              else ret (sort_key he_field (fst r), True)))))"

definition redisHSetStep :: "bytes \<Rightarrow> bytes \<Rightarrow> bytes \<Rightarrow> int \<Rightarrow> (('s, 'v) DB, int) op" where
  "redisHSetStep key field value added =
     bindE (dbProtocol_Get Background (dbProtocol_HashKey key field)) (\<lambda>r.
     bindE (putPayload Background (dbProtocol_HashKey key field) bytesCodec value 0) (\<lambda>_.
       ret (if r = None then added + 1 else added)))"

fun redisHSetLoop :: "bytes \<Rightarrow> bytes list \<Rightarrow> int \<Rightarrow> (('s, 'v) DB, int) op" where
  "redisHSetLoop key [] added = ret added"
| "redisHSetLoop key [field] added = panic ''runtime error: index out of range''"
| "redisHSetLoop key (field # value # rest) added =
     bindE (redisHSetStep key field value added) (redisHSetLoop key rest)"

definition redisHSet :: "bytes list \<Rightarrow> (('s, 'v) DB, respValue) op" where
  "redisHSet args =
     (if length args < 4 \<or> length args mod 2 \<noteq> 0 then ret redisSyntaxError
      else replyE (bindE (redisType Background (args ! 1)) (\<lambda>typ.
        if typ \<noteq> redisTypeNone \<and> typ \<noteq> redisTypeHash then throw (wrongType typ)
        else bindE (if typ = redisTypeNone
                    then ignoreE (dbProtocol_Delete Background (dbProtocol_CollectionTTLKey (args ! 1)))
                    else ret ()) (\<lambda>_.
             bindE (redisHSetLoop (args ! 1) (drop 2 args) 0) (\<lambda>added.
               ret (respIntegerValue added))))))"

definition redisHGet :: "bytes list \<Rightarrow> (('s, 'v) DB, respValue) op" where
  "redisHGet args =
     (if length args \<noteq> 3 then ret redisSyntaxError
      else replyE (bindE (redisHashField Background (args ! 1) (args ! 2)) (\<lambda>r. ret (bulkOrNil r))))"

definition redisHMGet :: "bytes list \<Rightarrow> (('s, 'v) DB, respValue) op" where
  "redisHMGet args =
     (if length args < 3 then ret redisSyntaxError
      else replyE (bindE (foldE (\<lambda>field items.
             bindE (redisHashField Background (args ! 1) field) (\<lambda>r. ret (items @ [bulkOrNil r])))
             (drop 2 args) []) (\<lambda>items. ret (respArrayValues items))))"

definition redisHGetAll :: "bytes list \<Rightarrow> (('s, 'v) DB, respValue) op" where
  "redisHGetAll args =
     (if length args \<noteq> 2 then ret redisSyntaxError
      else replyE (bindE (redisHashEntries Background (args ! 1)) (\<lambda>r.
        if \<not> snd r then ret (respArrayValues [])
        else ret (respArrayValues (concat (map (\<lambda>entry.
               [respBulkString (he_field entry), respBulkBytes (he_value entry)]) (fst r)))))))"

definition redisHDelStep :: "bytes \<Rightarrow> bytes \<Rightarrow> int \<Rightarrow> (('s, 'v) DB, int) op" where
  "redisHDelStep key field removed =
     bindE (dbProtocol_Get Background (dbProtocol_HashKey key field)) (\<lambda>r.
       case r of
         None \<Rightarrow> ret removed
       | Some data \<Rightarrow>
           bindE (liftR (decodeRecord data)) (\<lambda>value.
           bindE (recordExpired value) (\<lambda>expired.
             if expired
             then bindE (ignoreE (dbProtocol_Delete Background (dbProtocol_HashKey key field)))
                    (\<lambda>_. ret removed)
             else bindE (dbProtocol_Delete Background (dbProtocol_HashKey key field))
                    (\<lambda>_. ret (removed + 1)))))"

definition redisHDel :: "bytes list \<Rightarrow> (('s, 'v) DB, respValue) op" where
  "redisHDel args =
     (if length args < 3 then ret redisSyntaxError
      else replyE (bindE (redisType Background (args ! 1)) (\<lambda>typ.
        if typ = redisTypeNone then ret (respIntegerValue 0)
        else if typ \<noteq> redisTypeHash then throw (wrongType typ)
        else bindE (foldE (redisHDelStep (args ! 1)) (drop 2 args) 0) (\<lambda>removed.
             bindE (redisHashEntries Background (args ! 1)) (\<lambda>r.
             bindE (if fst r = [] then ignoreE (redisDeleteRaw Background (args ! 1)) else ret ())
               (\<lambda>_. ret (respIntegerValue removed)))))))"

definition redisHExists :: "bytes list \<Rightarrow> (('s, 'v) DB, respValue) op" where
  "redisHExists args =
     (if length args \<noteq> 3 then ret redisSyntaxError
      else replyE (bindE (redisHashField Background (args ! 1) (args ! 2)) (\<lambda>r.
        ret (respIntegerValue (if r \<noteq> None then 1 else 0)))))"

definition redisHLen :: "bytes list \<Rightarrow> (('s, 'v) DB, respValue) op" where
  "redisHLen args =
     (if length args \<noteq> 2 then ret redisSyntaxError
      else replyE (bindE (redisHashEntries Background (args ! 1)) (\<lambda>r.
        ret (respIntegerValue (int (length (fst r)))))))"

definition redisHKeys :: "bytes list \<Rightarrow> (('s, 'v) DB, respValue) op" where
  "redisHKeys args =
     (if length args \<noteq> 2 then ret redisSyntaxError
      else replyE (bindE (redisHashEntries Background (args ! 1)) (\<lambda>r.
        ret (respArrayValues (map (\<lambda>entry. respBulkString (he_field entry)) (fst r))))))"

definition redisHVals :: "bytes list \<Rightarrow> (('s, 'v) DB, respValue) op" where
  "redisHVals args =
     (if length args \<noteq> 2 then ret redisSyntaxError
      else replyE (bindE (redisHashEntries Background (args ! 1)) (\<lambda>r.
        ret (respArrayValues (map (\<lambda>entry. respBulkBytes (he_value entry)) (fst r))))))"

definition redisHIncrBy :: "bytes list \<Rightarrow> (('s, 'v) DB, respValue) op" where
  "redisHIncrBy args =
     (if length args \<noteq> 4 then ret redisSyntaxError
      else replyE (bindE (liftR (redisParseInt (args ! 3))) (\<lambda>delta.
        bindE (redisType Background (args ! 1)) (\<lambda>typ.
        if typ \<noteq> redisTypeNone \<and> typ \<noteq> redisTypeHash then throw (wrongType typ)
        else bindE (redisHashField Background (args ! 1) (args ! 2)) (\<lambda>r.
          case (case r of None \<Rightarrow> Some 0 | Some value \<Rightarrow> bigSetString value) of
            None \<Rightarrow> ret (respErrorString ''ERR hash value is not an integer'')
          | Some v \<Rightarrow>
              let current = v + delta in
              if \<not> isInt64 current
              then ret (respErrorString ''ERR increment or decrement would overflow'')
              else bindE (putPayload Background (dbProtocol_HashKey (args ! 1) (args ! 2)) bytesCodec
                            (FormatInt current) 0) (\<lambda>_. ret (respIntegerValue current)))))))"

section \<open>Sets\<close>

definition redisSetMembers :: "ctx \<Rightarrow> bytes \<Rightarrow> (('s, 'v) DB, bytes list \<times> bool) op" where
  "redisSetMembers ctx key =
     bindE (redisType ctx key) (\<lambda>typ.
       if typ = redisTypeNone then ret ([], False)
       else if typ \<noteq> redisTypeSet then throw (wrongType typ)
       else bindE (scanE ctx (dbProtocol_SetPrefix key)
                    (\<lambda>members storageKey _.
                       ret (members @ [drop (length (dbProtocol_SetPrefix key)) storageKey])) [])
              (\<lambda>members.
                if members = [] then bindE (ignoreE (redisDeleteRaw ctx key)) (\<lambda>_. ret ([], False))
                else ret (sort members, True)))"

definition redisSAddStep :: "bytes \<Rightarrow> bytes \<Rightarrow> int \<Rightarrow> (('s, 'v) DB, int) op" where
  "redisSAddStep key member added =
     bindE (dbProtocol_Get Background (dbProtocol_SetKey key member)) (\<lambda>r.
       case r of
         Some _ \<Rightarrow> ret added
       | None \<Rightarrow> bindE (dbProtocol_Put Background (dbProtocol_SetKey key member) [CHR 0x01])
                   (\<lambda>_. ret (added + 1)))"

definition redisSAdd :: "bytes list \<Rightarrow> (('s, 'v) DB, respValue) op" where
  "redisSAdd args =
     (if length args < 3 then ret redisSyntaxError
      else replyE (bindE (redisType Background (args ! 1)) (\<lambda>typ.
        if typ \<noteq> redisTypeNone \<and> typ \<noteq> redisTypeSet then throw (wrongType typ)
        else bindE (if typ = redisTypeNone
                    then ignoreE (dbProtocol_Delete Background (dbProtocol_CollectionTTLKey (args ! 1)))
                    else ret ()) (\<lambda>_.
             bindE (foldE (redisSAddStep (args ! 1)) (drop 2 args) 0) (\<lambda>added.
               ret (respIntegerValue added))))))"

definition redisSRemStep :: "bytes \<Rightarrow> bytes \<Rightarrow> int \<Rightarrow> (('s, 'v) DB, int) op" where
  "redisSRemStep key member removed =
     bindE (dbProtocol_Get Background (dbProtocol_SetKey key member)) (\<lambda>r.
       case r of
         None \<Rightarrow> ret removed
       | Some _ \<Rightarrow> bindE (dbProtocol_Delete Background (dbProtocol_SetKey key member))
                     (\<lambda>_. ret (removed + 1)))"

definition redisSRem :: "bytes list \<Rightarrow> (('s, 'v) DB, respValue) op" where
  "redisSRem args =
     (if length args < 3 then ret redisSyntaxError
      else replyE (bindE (redisType Background (args ! 1)) (\<lambda>typ.
        if typ = redisTypeNone then ret (respIntegerValue 0)
        else if typ \<noteq> redisTypeSet then throw (wrongType typ)
        else bindE (foldE (redisSRemStep (args ! 1)) (drop 2 args) 0) (\<lambda>removed.
             bindE (redisSetMembers Background (args ! 1)) (\<lambda>r.
             bindE (if fst r = [] then ignoreE (redisDeleteRaw Background (args ! 1)) else ret ())
               (\<lambda>_. ret (respIntegerValue removed)))))))"

definition redisSIsMember :: "bytes list \<Rightarrow> (('s, 'v) DB, respValue) op" where
  "redisSIsMember args =
     (if length args \<noteq> 3 then ret redisSyntaxError
      else replyE (bindE (redisType Background (args ! 1)) (\<lambda>typ.
        if typ = redisTypeNone then ret (respIntegerValue 0)
        else if typ \<noteq> redisTypeSet then throw (wrongType typ)
        else bindE (dbProtocol_Get Background (dbProtocol_SetKey (args ! 1) (args ! 2))) (\<lambda>r.
          ret (respIntegerValue (if r \<noteq> None then 1 else 0))))))"

primrec smIsMemberLoop :: "bytes \<Rightarrow> bytes list \<Rightarrow> respValue list \<Rightarrow> (('s, 'v) DB, respValue) op" where
  "smIsMemberLoop key [] items = ret (respArrayValues items)"
| "smIsMemberLoop key (member # members) items =
     bindE (redisSIsMember [''SISMEMBER'', key, member]) (\<lambda>reply.
       if resp_kind reply = respError then ret reply
       else smIsMemberLoop key members (items @ [reply]))"

definition redisSMIsMember :: "bytes list \<Rightarrow> (('s, 'v) DB, respValue) op" where
  "redisSMIsMember args =
     (if length args < 3 then ret redisSyntaxError
      else smIsMemberLoop (args ! 1) (drop 2 args) [])"

definition redisSMembers :: "bytes list \<Rightarrow> (('s, 'v) DB, respValue) op" where
  "redisSMembers args =
     (if length args \<noteq> 2 then ret redisSyntaxError
      else replyE (bindE (redisSetMembers Background (args ! 1)) (\<lambda>r.
        ret (respArrayValues (map respBulkString (fst r))))))"

definition redisSCard :: "bytes list \<Rightarrow> (('s, 'v) DB, respValue) op" where
  "redisSCard args =
     (if length args \<noteq> 2 then ret redisSyntaxError
      else replyE (bindE (redisSetMembers Background (args ! 1)) (\<lambda>r.
        ret (respIntegerValue (int (length (fst r)))))))"

section \<open>Lists\<close>

definition liveItemStep ::
  "bytes \<Rightarrow> bytes list \<times> bool \<Rightarrow> (('s, 'v) DB, bytes list \<times> bool) op" where
  "liveItemStep item acc =
     bindE dbProtocol_Now (\<lambda>t.
     bindE (liftR (redisItemPayload item t)) (\<lambda>r.
       ret (case r of None \<Rightarrow> (fst acc, True) | Some _ \<Rightarrow> (fst acc @ [item], snd acc))))"

definition redisListValues :: "ctx \<Rightarrow> bytes \<Rightarrow> (('s, 'v) DB, bytes list option) op" where
  "redisListValues ctx key =
     bindE (redisList ctx key) (\<lambda>r.
       case r of
         None \<Rightarrow> ret None
       | Some items \<Rightarrow>
           bindE (foldE liveItemStep items ([], False)) (\<lambda>acc.
           bindE (if snd acc then redisWriteList ctx key (fst acc) else ret ()) (\<lambda>_.
             ret (if fst acc = [] then None else Some (fst acc)))))"

primrec redisListReply :: "bytes list \<Rightarrow> time \<Rightarrow> respValue list res" where
  "redisListReply [] now = Ok []"
| "redisListReply (item # items) now = (case redisItemPayload item now of
      Err e \<Rightarrow> Err e
    | Panic p \<Rightarrow> Panic p
    | Ok r \<Rightarrow> (case redisListReply items now of
          Err e \<Rightarrow> Err e
        | Panic p \<Rightarrow> Panic p
        | Ok replies \<Rightarrow>
            Ok (case r of Some payload \<Rightarrow> respBulkBytes payload # replies | None \<Rightarrow> replies)))"

definition redisNormalizeRange :: "int \<Rightarrow> int \<Rightarrow> int \<Rightarrow> int \<times> int \<times> bool" where
  "redisNormalizeRange len start stop =
     (let start = (if start < 0 then len + start else start);
          stop = (if stop < 0 then len + stop else stop);
          start = (if start < 0 then 0 else start);
          stop = (if stop \<ge> len then len - 1 else stop)
      in (start, stop, len > 0 \<and> start < len \<and> stop \<ge> start))"

primrec encodeValues :: "bytes list \<Rightarrow> bytes list res" where
  "encodeValues [] = Ok []"
| "encodeValues (value # values) = (case encodeRecord bytesCodec value 0 of
      Err e \<Rightarrow> Err e
    | Panic p \<Rightarrow> Panic p
    | Ok item \<Rightarrow> (case encodeValues values of
          Err e \<Rightarrow> Err e
        | Panic p \<Rightarrow> Panic p
        | Ok items \<Rightarrow> Ok (item # items)))"

definition orEmpty :: "'a list option \<Rightarrow> 'a list" where
  "orEmpty r = (case r of Some xs \<Rightarrow> xs | None \<Rightarrow> [])"

definition redisPushValues :: "bytes \<Rightarrow> bytes list \<Rightarrow> bool \<Rightarrow> bool \<Rightarrow> (('s, 'v) DB, respValue) op" where
  "redisPushValues key values left onlyIfExists =
     replyE (bindE (redisType Background key) (\<lambda>typ.
       if typ \<noteq> redisTypeNone \<and> typ \<noteq> redisTypeList then throw (wrongType typ)
       else if onlyIfExists \<and> typ = redisTypeNone then ret (respIntegerValue 0)
       else bindE (redisListValues Background key) (\<lambda>r.
         if onlyIfExists \<and> r = None then ret (respIntegerValue 0)
         else bindE (liftR (encodeValues values)) (\<lambda>encoded.
           let items = (if left then rev encoded @ orEmpty r else orEmpty r @ encoded) in
           bindE (redisWriteList Background key items) (\<lambda>_.
           bindE (if r = None
                  then ignoreE (dbProtocol_Delete Background (dbProtocol_CollectionTTLKey key))
                  else ret ()) (\<lambda>_.
             ret (respIntegerValue (int (length items)))))))))"

definition redisPush :: "bytes list \<Rightarrow> bool \<Rightarrow> (('s, 'v) DB, respValue) op" where
  "redisPush args left =
     (if length args < 3 then ret redisSyntaxError
      else redisPushValues (args ! 1) (drop 2 args) left False)"

definition redisPushX :: "bytes list \<Rightarrow> bool \<Rightarrow> (('s, 'v) DB, respValue) op" where
  "redisPushX args left =
     (if length args < 3 then ret redisSyntaxError
      else redisPushValues (args ! 1) (drop 2 args) left True)"

definition redisLRange :: "bytes list \<Rightarrow> (('s, 'v) DB, respValue) op" where
  "redisLRange args =
     (if length args \<noteq> 4 then ret redisSyntaxError
      else replyE (bindE (liftR (redisParseInt (args ! 2))) (\<lambda>start.
        bindE (liftR (redisParseInt (args ! 3))) (\<lambda>stop.
        bindE (redisListValues Background (args ! 1)) (\<lambda>r.
          case redisNormalizeRange (int (length (orEmpty r))) start stop of
            (lo, hi, False) \<Rightarrow> ret (respArrayValues [])
          | (lo, hi, True) \<Rightarrow>
              bindE dbProtocol_Now (\<lambda>t.
              bindE (liftR (redisListReply (slice (orEmpty r) lo hi) t)) (\<lambda>replies.
                ret (respArrayValues replies))))))))"

definition redisLLen :: "bytes list \<Rightarrow> (('s, 'v) DB, respValue) op" where
  "redisLLen args =
     (if length args \<noteq> 2 then ret redisSyntaxError
      else replyE (bindE (redisListValues Background (args ! 1)) (\<lambda>r.
        ret (respIntegerValue (int (length (orEmpty r)))))))"

text \<open>The count argument of \<open>LPOP\<close> and \<open>RPOP\<close>; on 64-bit targets every \<open>int64\<close> fits an \<open>int\<close>.\<close>

definition popCount :: "bytes list \<Rightarrow> int res" where
  "popCount args =
     (if length args = 3 then (case redisParseNonNegative (args ! 2) of
          Ok n \<Rightarrow> if n > maxInt64 then Err errNotInteger else Ok n
        | _ \<Rightarrow> Err errNotInteger)
      else Ok 1)"

definition redisPop :: "bytes list \<Rightarrow> bool \<Rightarrow> (('s, 'v) DB, respValue) op" where
  "redisPop args left =
     (if length args \<noteq> 2 \<and> length args \<noteq> 3 then ret redisSyntaxError
      else replyE (bindE (redisListValues Background (args ! 1)) (\<lambda>r.
        case r of
          None \<Rightarrow> ret (if length args = 3 then respArrayValues [] else respNil)
        | Some items \<Rightarrow>
            bindE (liftR (popCount args)) (\<lambda>parsed.
              if length args = 3 \<and> parsed = 0 then ret (respArrayValues [])
              else let count = (if parsed > int (length items) then length items else nat parsed);
                       removed = (if left then take count items
                                  else drop (length items - count) items);
                       kept = (if left then drop count items
                               else take (length items - count) items)
                in bindE (redisWriteList Background (args ! 1) kept) (\<lambda>_.
                   bindE dbProtocol_Now (\<lambda>t.
                     if length args = 3
                     then bindE (liftR (redisListReply removed t))
                            (\<lambda>replies. ret (respArrayValues replies))
                     else bindE (liftR (redisItemPayload (hd removed) t))
                            (\<lambda>p. ret (bulkOrNil p))))))))"

definition redisLTrim :: "bytes list \<Rightarrow> (('s, 'v) DB, respValue) op" where
  "redisLTrim args =
     (if length args \<noteq> 4 then ret redisSyntaxError
      else replyE (bindE (liftR (redisParseInt (args ! 2))) (\<lambda>start.
        bindE (liftR (redisParseInt (args ! 3))) (\<lambda>stop.
        bindE (redisListValues Background (args ! 1)) (\<lambda>r.
          case redisNormalizeRange (int (length (orEmpty r))) start stop of
            (lo, hi, False) \<Rightarrow>
              bindE (redisDeleteRaw Background (args ! 1)) (\<lambda>_. ret (respSimpleString ''OK''))
          | (lo, hi, True) \<Rightarrow>
              bindE (redisWriteList Background (args ! 1) (slice (orEmpty r) lo hi))
                (\<lambda>_. ret (respSimpleString ''OK'')))))))"

end
