(* ===== verification/PathMatch.thy ===== *)
theory PathMatch
  imports GoStrings
begin

text \<open>
  \<open>path.Match\<close> and the UTF-8 decoding it uses, as the \<open>KEYS\<close> and \<open>SCAN\<close> commands call it. A bad
  pattern is \<open>None\<close>; a chunk that matches returns the rest of the name.
\<close>

section \<open>Runes\<close>

definition RuneError :: nat where "RuneError = 0xFFFD"

definition contByte :: "nat \<Rightarrow> bool" where
  "contByte b \<longleftrightarrow> 0x80 \<le> b \<and> b \<le> 0xBF"

text \<open>\<open>utf8.DecodeRuneInString\<close>: the rune and the number of bytes it takes.\<close>

definition DecodeRune :: "bytes \<Rightarrow> nat \<times> nat" where
  "DecodeRune s = (case map of_char (take 4 s) :: nat list of
      [] \<Rightarrow> (RuneError, 0)
    | a # r \<Rightarrow>
        if a < 0x80 then (a, 1)
        else if 0xC2 \<le> a \<and> a \<le> 0xDF then
          (case r of b # _ \<Rightarrow> if contByte b then ((a - 0xC0) * 64 + (b - 0x80), 2) else (RuneError, 1)
           | [] \<Rightarrow> (RuneError, 1))
        else if 0xE0 \<le> a \<and> a \<le> 0xEF then
          (case r of b # c # _ \<Rightarrow>
             if contByte b \<and> contByte c \<and> (a = 0xE0 \<longrightarrow> 0xA0 \<le> b) \<and> (a = 0xED \<longrightarrow> b \<le> 0x9F)
             then ((a - 0xE0) * 4096 + (b - 0x80) * 64 + (c - 0x80), 3) else (RuneError, 1)
           | _ \<Rightarrow> (RuneError, 1))
        else if 0xF0 \<le> a \<and> a \<le> 0xF4 then
          (case r of b # c # d # _ \<Rightarrow>
             if contByte b \<and> contByte c \<and> contByte d \<and> (a = 0xF0 \<longrightarrow> 0x90 \<le> b) \<and> (a = 0xF4 \<longrightarrow> b \<le> 0x8F)
             then ((a - 0xF0) * 262144 + (b - 0x80) * 4096 + (c - 0x80) * 64 + (d - 0x80), 4)
             else (RuneError, 1)
           | _ \<Rightarrow> (RuneError, 1))
        else (RuneError, 1))"

lemma DecodeRune_size: "s \<noteq> [] \<Longrightarrow> 1 \<le> snd (DecodeRune s)"
  by (cases s) (auto simp: DecodeRune_def split: list.split)

section \<open>Patterns\<close>

text \<open>\<open>scanChunk\<close>: leading stars, then the bytes up to the next star outside a character class.\<close>

fun chunkLen :: "bytes \<Rightarrow> bool \<Rightarrow> nat" where
  "chunkLen [] inrange = 0"
| "chunkLen (c # cs) inrange =
     (if c = CHR 0x5C then (case cs of [] \<Rightarrow> 1 | _ # ds \<Rightarrow> 2 + chunkLen ds inrange)
      else if c = CHR ''['' then 1 + chunkLen cs True
      else if c = CHR '']'' then 1 + chunkLen cs False
      else if c = CHR ''*'' \<and> \<not> inrange then 0
      else 1 + chunkLen cs inrange)"

definition scanChunk :: "bytes \<Rightarrow> bool \<times> bytes \<times> bytes" where
  "scanChunk pat =
     (let p = dropWhile (\<lambda>c. c = CHR ''*'') pat; n = chunkLen p False
      in (p \<noteq> pat, take n p, drop n p))"

definition getEsc :: "bytes \<Rightarrow> (nat \<times> bytes) option" where
  "getEsc chunk =
     (if chunk = [] \<or> hd chunk = CHR ''-'' \<or> hd chunk = CHR '']'' then None
      else let body = (if hd chunk = CHR 0x5C then tl chunk else chunk) in
        if body = [] then None
        else (case DecodeRune body of (r, n) \<Rightarrow>
            if r = RuneError \<and> n = 1 then None
            else if drop n body = [] then None
            else Some (r, drop n body)))"

lemma getEsc_shorter: "getEsc chunk = Some (r, rest) \<Longrightarrow> length rest < length chunk \<and> rest \<noteq> []"
proof -
  assume esc: "getEsc chunk = Some (r, rest)"
  define body where "body = (if hd chunk = CHR 0x5C then tl chunk else chunk)"
  from esc obtain n where "DecodeRune body = (r, n)" "rest = drop n body" "rest \<noteq> []" "body \<noteq> []"
    by (auto simp: getEsc_def Let_def body_def split: if_splits prod.splits)
  moreover from this have "1 \<le> n" using DecodeRune_size [of body] by simp
  moreover have "length body \<le> length chunk" by (simp add: body_def)
  ultimately show ?thesis by (cases body) auto
qed

text \<open>The ranges of a character class: whether the rune is in one of them, and what follows.\<close>

function classLoop :: "bytes \<Rightarrow> nat \<Rightarrow> bool \<Rightarrow> nat \<Rightarrow> (bool \<times> bytes) option" where
  "classLoop chunk r matched nrange =
     (if chunk \<noteq> [] \<and> hd chunk = CHR '']'' \<and> nrange > 0 then Some (matched, tl chunk)
      else (case getEsc chunk of
          None \<Rightarrow> None
        | Some (lo, rest) \<Rightarrow>
            if hd rest = CHR ''-'' then
              (case getEsc (tl rest) of
                 None \<Rightarrow> None
               | Some (hi, rest') \<Rightarrow>
                   classLoop rest' r (matched \<or> lo \<le> r \<and> r \<le> hi) (nrange + 1))
            else classLoop rest r (matched \<or> r = lo) (nrange + 1)))"
  by pat_completeness auto
termination
proof (relation "measure (\<lambda>(chunk, _). length chunk)")
  fix chunk :: bytes and r nrange :: nat and matched x lo rest
  assume "getEsc chunk = Some x" "(lo, rest) = x"
  then have esc: "length rest < length chunk" using getEsc_shorter [of chunk lo rest] by simp
  then show "((rest, r, matched \<or> r = lo, nrange + 1), chunk, r, matched, nrange)
      \<in> measure (\<lambda>(chunk, _). length chunk)" by simp
  fix y hi rest'
  assume "getEsc (tl rest) = Some y" "(hi, rest') = y"
  then have "length rest' < length (tl rest)" using getEsc_shorter [of "tl rest" hi rest'] by simp
  with esc show "((rest', r, matched \<or> lo \<le> r \<and> r \<le> hi, nrange + 1), chunk, r, matched, nrange)
      \<in> measure (\<lambda>(chunk, _). length chunk)" by simp
qed simp

declare classLoop.simps [simp del]

lemma classLoop_shorter:
  "classLoop chunk r matched nrange = Some (m, rest) \<Longrightarrow> length rest < length chunk"
proof (induction chunk r matched nrange rule: classLoop.induct)
  case (1 chunk r matched nrange)
  show ?case
  proof (cases "chunk \<noteq> [] \<and> hd chunk = CHR '']'' \<and> nrange > 0")
    case True
    with "1.prems" show ?thesis by (cases chunk) (simp_all add: classLoop.simps)
  next
    case False
    with "1.prems" obtain lo rs where esc: "getEsc chunk = Some (lo, rs)"
      by (auto simp: classLoop.simps [of chunk] split: option.splits)
    show ?thesis
    proof (cases "hd rs = CHR ''-''")
      case True
      with "1.prems" False esc obtain hi rs' where esc': "getEsc (tl rs) = Some (hi, rs')"
        by (auto simp: classLoop.simps [of chunk] split: option.splits)
      have "length rest < length rs'"
        using "1.prems" "1.IH"(1) [OF False esc refl True esc' refl] False esc True esc'
        by (simp add: classLoop.simps [of chunk])
      then show ?thesis using getEsc_shorter [OF esc] getEsc_shorter [OF esc'] by (simp only: length_tl) arith
    next
      case dash: False
      have "length rest < length rs"
        using "1.prems" "1.IH"(2) [OF False esc refl dash] False esc dash
        by (simp add: classLoop.simps [of chunk])
      then show ?thesis using getEsc_shorter [OF esc] by simp
    qed
  qed
qed

section \<open>Matching one chunk\<close>

text \<open>
  \<open>matchChunk\<close>: \<open>failed\<close> says that the name is already known not to match; the rest of the chunk is
  still checked for syntax.
\<close>

function matchChunk :: "bytes \<Rightarrow> bytes \<Rightarrow> bool \<Rightarrow> bytes option option" where
  "matchChunk chunk s failed0 =
     (if chunk = [] then Some (if failed0 then None else Some s)
      else let failed = (failed0 \<or> s = []) in
        if hd chunk = CHR ''['' then
          (let (r, n) = (if failed then (0, 0) else DecodeRune s);
               body = tl chunk;
               negated = (body \<noteq> [] \<and> hd body = CHR ''^'')
           in (case classLoop (if negated then tl body else body) r False 0 of
                 None \<Rightarrow> None
               | Some (matched, rest) \<Rightarrow>
                   matchChunk rest (drop n s) (failed \<or> matched = negated)))
        else if hd chunk = CHR ''?'' then
          (if failed then matchChunk (tl chunk) s True
           else matchChunk (tl chunk) (drop (snd (DecodeRune s)) s) (hd s = CHR ''/''))
        else
          (let body = (if hd chunk = CHR 0x5C then tl chunk else chunk) in
           if body = [] then None
           else if failed then matchChunk (tl body) s True
           else matchChunk (tl body) (tl s) (hd body \<noteq> hd s)))"
  by pat_completeness auto
termination
proof (relation "measure (\<lambda>(chunk, _). length chunk)", goal_cases)
  case (2 chunk s failed0 failed x r n body negated y matched rest)
  then have "length rest < length (if negated then tl body else body)"
    using classLoop_shorter by (metis (no_types, lifting))
  moreover have "length (if negated then tl body else body) \<le> length chunk"
    using 2 by simp
  ultimately show ?case by simp
qed (auto simp: length_Suc_conv neq_Nil_conv)

declare matchChunk.simps [simp del]

section \<open>Matching\<close>

text \<open>The inner loop of \<open>Match\<close>: try the chunk after skipping bytes of the name, but no slash.\<close>

primrec skipLoop :: "bytes \<Rightarrow> bool \<Rightarrow> bytes \<Rightarrow> bytes option option" where
  "skipLoop chunk isLast [] = Some None"
| "skipLoop chunk isLast (c # cs) =
     (if c = CHR ''/'' then Some None
      else (case matchChunk chunk cs False of
          None \<Rightarrow> None
        | Some None \<Rightarrow> skipLoop chunk isLast cs
        | Some (Some t) \<Rightarrow> if isLast \<and> t \<noteq> [] then skipLoop chunk isLast cs else Some (Some t)))"

lemma scanChunk_shorter: "pat \<noteq> [] \<Longrightarrow> scanChunk pat = (star, chunk, rest) \<Longrightarrow> length rest < length pat"
proof -
  assume ne: "pat \<noteq> []" and sc: "scanChunk pat = (star, chunk, rest)"
  define p where "p = dropWhile (\<lambda>c. c = CHR ''*'') pat"
  have rest: "rest = drop (chunkLen p False) p" using sc by (simp add: scanChunk_def Let_def p_def)
  have le: "length p \<le> length pat" by (simp add: p_def length_dropWhile_le)
  show ?thesis
  proof (cases "hd pat = CHR ''*''")
    case True
    with ne have "p = dropWhile (\<lambda>c. c = CHR ''*'') (tl pat)" by (cases pat) (simp_all add: p_def)
    then have "length p \<le> length (tl pat)" by (simp only: length_dropWhile_le)
    with ne rest show ?thesis by (cases pat) simp_all
  next
    case False
    with ne have "p = pat" by (cases pat) (simp_all add: p_def)
    moreover have "0 < chunkLen pat False"
      using ne False by (cases pat) (auto split: list.split)
    ultimately show ?thesis using rest ne by simp
  qed
qed

text \<open>The rest of the pattern is checked for syntax before a mismatch is reported.\<close>

function restValid :: "bytes \<Rightarrow> bool" where
  "restValid pat =
     (if pat = [] then True
      else (case scanChunk pat of (star, chunk, rest) \<Rightarrow>
          matchChunk chunk [] False \<noteq> None \<and> restValid rest))"
  by pat_completeness auto
termination
  by (relation "measure length") (auto dest: scanChunk_shorter [OF _ sym])

function Match :: "bytes \<Rightarrow> bytes \<Rightarrow> bool option" where
  "Match pat name =
     (if pat = [] then Some (name = [])
      else (case scanChunk pat of (star, chunk, rest) \<Rightarrow>
          if star \<and> chunk = [] then Some (CHR ''/'' \<notin> set name)
          else (case matchChunk chunk name False of
              None \<Rightarrow> None
            | Some r \<Rightarrow>
                (case r of
                   Some t \<Rightarrow>
                     if t = [] \<or> rest \<noteq> [] then Match rest t
                     else if star then
                       (case skipLoop chunk (rest = []) name of
                          None \<Rightarrow> None
                        | Some (Some t') \<Rightarrow> Match rest t'
                        | Some None \<Rightarrow> if restValid rest then Some False else None)
                     else if restValid rest then Some False else None
                 | None \<Rightarrow>
                     if star then
                       (case skipLoop chunk (rest = []) name of
                          None \<Rightarrow> None
                        | Some (Some t') \<Rightarrow> Match rest t'
                        | Some None \<Rightarrow> if restValid rest then Some False else None)
                     else if restValid rest then Some False else None))))"
  by pat_completeness auto
termination
  by (relation "measure (\<lambda>(pat, _). length pat)") (auto dest: scanChunk_shorter [OF _ sym])

declare restValid.simps [simp del] Match.simps [simp del]

lemma Match_star: "Match ''*'' name = Some (CHR ''/'' \<notin> set name)"
  by (simp add: Match.simps scanChunk_def)

end
