(* ===== verification/RedisKeyspace.thy ===== *)
theory RedisKeyspace
  imports RedisCollections PathMatch
begin

text \<open>
  Key-space commands of \<open>extensions/redis/redis_commands.go\<close>: \<open>KEYS\<close>, \<open>SCAN\<close>, \<open>DBSIZE\<close> and the
  flushes. The order in which Go iterates a map is the parameter \<open>host_mapOrder\<close>.
\<close>

definition redisLogicalKeys :: "redisHost \<Rightarrow> ctx \<Rightarrow> (('s, 'v) DB, bytes list) op" where
  "redisLogicalKeys host ctx =
     bindE (scanE ctx [] (\<lambda>storageKeys storageKey _. ret (storageKeys @ [storageKey])) [])
       (\<lambda>storageKeys.
     bindE (foldE (\<lambda>key keys. bindE (redisType ctx key) (\<lambda>typ.
              ret (if typ \<noteq> redisTypeNone then keys @ [key] else keys)))
            (host_mapOrder host (remdups (List.map_filter dbProtocol_LogicalKey storageKeys))) [])
       (\<lambda>keys. ret (sort keys)))"

definition redisPatternMatch :: "bytes \<Rightarrow> bytes \<Rightarrow> bool" where
  "redisPatternMatch pat value = (Match pat value = Some True)"

definition redisKeysCommand :: "redisHost \<Rightarrow> bytes list \<Rightarrow> (('s, 'v) DB, respValue) op" where
  "redisKeysCommand host args =
     (if length args \<noteq> 2 then ret redisSyntaxError
      else replyE (bindE (redisLogicalKeys host Background) (\<lambda>keys.
        ret (respArrayValues (map respBulkString (filter (redisPatternMatch (args ! 1)) keys))))))"

text \<open>The option words of \<open>SCAN\<close>. \<open>None\<close> stands for the syntax-error reply.\<close>

datatype scanWord = ScanMatch | ScanCount | ScanType | ScanOther

definition scanWord :: "redisHost \<Rightarrow> bytes \<Rightarrow> scanWord" where
  "scanWord host arg =
     (let w = ToUpper (host_upper host) arg in
      if w = ''MATCH'' then ScanMatch
      else if w = ''COUNT'' then ScanCount
      else if w = ''TYPE'' then ScanType
      else ScanOther)"

fun scanOptionsLoop ::
  "redisHost \<Rightarrow> bytes list \<Rightarrow> bytes \<times> int \<Rightarrow> (bytes \<times> int) option res" where
  "scanOptionsLoop host [] acc = Ok (Some acc)"
| "scanOptionsLoop host [arg] acc = Ok None"
| "scanOptionsLoop host (arg # value # args) acc = (case scanWord host arg of
      ScanMatch \<Rightarrow> scanOptionsLoop host args (value, snd acc)
    | ScanCount \<Rightarrow> (case redisParseNonNegative value of
          Ok count \<Rightarrow> scanOptionsLoop host args (fst acc, if count = 0 then 10 else count)
        | Err e \<Rightarrow> Err e
        | Panic p \<Rightarrow> Panic p)
    | ScanType \<Rightarrow> scanOptionsLoop host args acc
    | ScanOther \<Rightarrow> Ok None)"

text \<open>
  The page of the reply. \<open>cursor + count\<close> and \<open>end - cursor\<close> are \<open>int64\<close> operations. \<open>make\<close> panics
  on a capacity that is negative or needs more memory than the run-time system can address (on
  64-bit targets 48 bits of address, 72 bytes for a \<open>respValue\<close>); a slice expression panics on
  bounds out of order.
\<close>

definition makeCapOk :: "int \<Rightarrow> int \<Rightarrow> bool" where
  "makeCapOk elemSize cap \<longleftrightarrow> 0 \<le> cap \<and> cap * elemSize \<le> 2 ^ 48"

definition respValueSize :: int where "respValueSize = 72"

definition scanPage :: "int \<Rightarrow> int \<Rightarrow> bytes list \<Rightarrow> respValue res" where
  "scanPage cursor count filtered =
     (let len = int (length filtered) in
      if cursor \<ge> len then Ok (respArrayValues [respBulkString ''0'', respArrayValues []])
      else let sum = wrap64 (cursor + count);
               stop = (if sum > len then len else sum);
               next = (if stop < len then stop else 0)
        in if \<not> makeCapOk respValueSize (wrap64 (stop - cursor))
           then Panic ''runtime error: makeslice: cap out of range''
           else if stop < cursor then Panic ''runtime error: slice bounds out of range''
           else Ok (respArrayValues [respBulkString (FormatInt next),
                  respArrayValues (map respBulkString (slice filtered cursor (stop - 1)))]))"

definition redisScan :: "redisHost \<Rightarrow> bytes list \<Rightarrow> (('s, 'v) DB, respValue) op" where
  "redisScan host args =
     (if length args < 2 then ret redisSyntaxError
      else replyE (bindE (liftR (redisParseNonNegative (args ! 1))) (\<lambda>cursor.
        bindE (liftR (scanOptionsLoop host (drop 2 args) (''*'', 10))) (\<lambda>options.
          case options of
            None \<Rightarrow> ret redisSyntaxError
          | Some (pat, count) \<Rightarrow>
              bindE (redisLogicalKeys host Background) (\<lambda>keys.
                liftR (scanPage cursor count (filter (redisPatternMatch pat) keys)))))))"

definition redisDBSize :: "redisHost \<Rightarrow> bytes list \<Rightarrow> (('s, 'v) DB, respValue) op" where
  "redisDBSize host args =
     (if length args \<noteq> 1 then ret redisSyntaxError
      else replyE (bindE (redisLogicalKeys host Background) (\<lambda>keys.
        ret (respIntegerValue (int (length keys))))))"

definition redisFlush :: "bytes list \<Rightarrow> (('s, 'v) DB, respValue) op" where
  "redisFlush args =
     (if length args > 2 then ret redisSyntaxError
      else replyE (bindE (scanE Background [] (\<lambda>storageKeys storageKey _.
             ret (storageKeys @ [storageKey])) []) (\<lambda>storageKeys.
           bindE (deleteEach Background storageKeys) (\<lambda>_. ret (respSimpleString ''OK'')))))"

end
