(* ===== verification/RedisServer.thy ===== *)
theory RedisServer
  imports RedisKeyspace
begin

text \<open>
  Sessions, authentication, dispatch and the connection loop of
  \<open>extensions/redis/redis_server.go\<close>. Commands run on a pair of the handle and the session. The
  accept loop and the shutdown of the listener are network and goroutine code and are not modelled.
\<close>

section \<open>Sessions\<close>

record redisSession =
  rs_authed :: bool
  rs_id :: "64 word"
  rs_proto :: int

text \<open>\<open>int64(session.id)\<close>\<close>

definition sessionId :: "redisSession \<Rightarrow> int" where
  "sessionId session = int64 (rs_id session)"

definition newSession :: "bytes \<Rightarrow> 64 word \<Rightarrow> redisSession" where
  "newSession password i = \<lparr>rs_authed = (password = []), rs_id = i, rs_proto = 2\<rparr>"

definition wrongPass :: respValue where
  "wrongPass = respErrorString ''WRONGPASS invalid username-password pair or user is disabled.''"

definition noAuth :: respValue where
  "noAuth = respErrorString ''NOAUTH Authentication required.''"

definition redisAuth :: "bytes list \<Rightarrow> bytes \<Rightarrow> redisSession \<Rightarrow> respValue \<times> redisSession" where
  "redisAuth args password session =
     (if password = [] then (respErrorString ''ERR AUTH called without any password configured'', session)
      else if length args \<noteq> 2 \<and> length args \<noteq> 3 then (redisSyntaxError, session)
      else let supplied = (if length args = 2 then args ! 1 else args ! 2) in
        if supplied \<noteq> password then (wrongPass, session)
        else (respSimpleString ''OK'', session\<lparr>rs_authed := True\<rparr>))"

text \<open>The option loop of \<open>HELLO\<close>; \<open>Inl\<close> is a reply that ends the command.\<close>

datatype helloWord = HelloAuth | HelloSetName | HelloOther

definition helloWord :: "redisHost \<Rightarrow> bytes \<Rightarrow> helloWord" where
  "helloWord host arg =
     (let w = ToUpper (host_upper host) arg in
      if w = ''AUTH'' then HelloAuth else if w = ''SETNAME'' then HelloSetName else HelloOther)"

fun helloLoop ::
  "redisHost \<Rightarrow> bytes \<Rightarrow> bytes list \<Rightarrow> redisSession \<Rightarrow> (respValue + unit) \<times> redisSession" where
  "helloLoop host password [] session = (Inr (), session)"
| "helloLoop host password (arg # args) session = (case helloWord host arg of
      HelloAuth \<Rightarrow> (case args of
          user # secret # rest \<Rightarrow>
            if password = [] \<or> secret \<noteq> password then (Inl wrongPass, session)
            else helloLoop host password rest (session\<lparr>rs_authed := True\<rparr>)
        | _ \<Rightarrow> (Inl redisSyntaxError, session))
    | HelloSetName \<Rightarrow> (case args of
          name # rest \<Rightarrow> helloLoop host password rest session
        | [] \<Rightarrow> (Inl redisSyntaxError, session))
    | HelloOther \<Rightarrow> (Inl redisSyntaxError, session))"

definition helloItems :: "redisSession \<Rightarrow> respValue list" where
  "helloItems session =
     [respBulkString ''server'', respBulkString ''kvlite'',
      respBulkString ''version'', respBulkString ''0.1.0'',
      respBulkString ''proto'', respIntegerValue 2,
      respBulkString ''id'', respIntegerValue (sessionId session),
      respBulkString ''mode'', respBulkString ''standalone'',
      respBulkString ''role'', respBulkString ''master'',
      respBulkString ''modules'', respArrayValues []]"

text \<open>\<open>redisHello\<close>; the boolean says that the command is finished.\<close>

definition redisHello ::
  "redisHost \<Rightarrow> bytes list \<Rightarrow> bytes \<Rightarrow> redisSession \<Rightarrow> (respValue \<times> bool) \<times> redisSession" where
  "redisHello host args password session =
     (if length args < 1 then ((redisSyntaxError, True), session)
      else let version = (if length args \<ge> 2 then args ! 1 else ''2'') in
        if version \<noteq> ''2'' \<and> version \<noteq> ''3''
        then ((respErrorString ''NOPROTO unsupported RESP version'', True), session)
        else (case helloLoop host password (drop 2 args) session of
            (Inl reply, session') \<Rightarrow> ((reply, True), session')
          | (Inr _, session') \<Rightarrow>
              if password \<noteq> [] \<and> \<not> rs_authed session' then ((noAuth, True), session')
              else if version = ''3''
              then ((respMapValues (helloItems session'), True), session'\<lparr>rs_proto := 3\<rparr>)
              else ((respArrayValues (helloItems session'), True), session'\<lparr>rs_proto := 2\<rparr>)))"

definition redisClient :: "redisHost \<Rightarrow> bytes list \<Rightarrow> redisSession \<Rightarrow> respValue" where
  "redisClient host args session =
     (if length args < 2 then redisSyntaxError
      else let sub = ToUpper (host_upper host) (args ! 1) in
        if sub = ''ID'' then
          (if length args \<noteq> 2 then redisSyntaxError else respIntegerValue (sessionId session))
        else if sub \<in> {''SETNAME'', ''SETINFO'', ''NO-EVICT'', ''REPLY'', ''PAUSE'', ''UNPAUSE'',
                       ''TRACKING'', ''CACHING''}
        then respSimpleString ''OK''
        else respErrorString (''ERR unknown subcommand '' @ [CHR 0x27] @ sub @ [CHR 0x27]))"

definition redisCommandInfo :: "bytes list \<Rightarrow> respValue" where
  "redisCommandInfo args = respArrayValues []"

definition redisConfig :: "bytes list \<Rightarrow> respValue" where
  "redisConfig args =
     (if length args < 2 then redisSyntaxError
      else if EqualFold (args ! 1) ''GET'' then respArrayValues []
      else respSimpleString ''OK'')"

definition infoText :: bytes where
  "infoText = ''# Server'' @ crlf @ ''redis_version:7.2.0'' @ crlf @ ''redis_mode:standalone'' @ crlf
     @ crlf @ ''# KVLite'' @ crlf @ ''kvlite_version:0.1.0'' @ crlf"

definition redisInfo :: "bytes list \<Rightarrow> respValue" where
  "redisInfo args = (if length args > 2 then redisSyntaxError else respBulkString infoText)"

definition redisTime :: "(('s, 'v) DB, respValue) op" where
  "redisTime = bindE dbProtocol_Now (\<lambda>t. ret (respArrayValues
     [respBulkString (FormatInt (t div nanosPerSecond)),
      respBulkString (FormatInt ((t mod nanosPerSecond) div 1000))]))"

definition redisPing :: "bytes list \<Rightarrow> respValue" where
  "redisPing args =
     (if length args = 1 then respSimpleString ''PONG''
      else if length args = 2 then respBulkBytes (args ! 1)
      else redisSyntaxError)"

section \<open>Dispatch\<close>

text \<open>The commands that read or write the database, by their upper-cased names.\<close>

definition dataCommands ::
  "redisHost \<Rightarrow> bytes \<Rightarrow> bytes list \<Rightarrow> (bytes \<times> (('s, 'v) DB, respValue) op) list" where
  "dataCommands host command args = [
       (''GET'', redisGet args), (''SET'', redisSet host args), (''SETNX'', redisSetNX args),
       (''SETEX'', redisSetEX args False), (''PSETEX'', redisSetEX args True),
       (''GETSET'', redisGetSet args), (''GETDEL'', redisGetDel args),
       (''GETEX'', redisGetEx host args), (''MGET'', redisMGet args), (''MSET'', redisMSet args),
       (''MSETNX'', redisMSetNX args), (''STRLEN'', redisStrLen args),
       (''APPEND'', redisAppend args), (''INCR'', redisIncrementCommand args 1),
       (''INCRBY'', redisIncrementByCommand args False),
       (''DECR'', redisIncrementCommand args (-1)),
       (''DECRBY'', redisIncrementByCommand args True),
       (''DEL'', redisDelete args), (''UNLINK'', redisDelete args),
       (''EXISTS'', redisExists args), (''TYPE'', redisTypeCommand args),
       (''EXPIRE'', redisExpireCommand args command), (''PEXPIRE'', redisExpireCommand args command),
       (''EXPIREAT'', redisExpireCommand args command),
       (''PEXPIREAT'', redisExpireCommand args command),
       (''TTL'', redisTTLCommand args command), (''PTTL'', redisTTLCommand args command),
       (''PERSIST'', redisPersistCommand args),
       (''HSET'', redisHSet args), (''HMSET'', redisHSet args), (''HGET'', redisHGet args),
       (''HMGET'', redisHMGet args), (''HGETALL'', redisHGetAll args), (''HDEL'', redisHDel args),
       (''HEXISTS'', redisHExists args), (''HLEN'', redisHLen args), (''HKEYS'', redisHKeys args),
       (''HVALS'', redisHVals args), (''HINCRBY'', redisHIncrBy args),
       (''SADD'', redisSAdd args), (''SREM'', redisSRem args),
       (''SISMEMBER'', redisSIsMember args), (''SMISMEMBER'', redisSMIsMember args),
       (''SMEMBERS'', redisSMembers args), (''SCARD'', redisSCard args),
       (''LPUSH'', redisPush args True), (''RPUSH'', redisPush args False),
       (''LPUSHX'', redisPushX args True), (''RPUSHX'', redisPushX args False),
       (''LRANGE'', redisLRange args), (''LLEN'', redisLLen args),
       (''LPOP'', redisPop args True), (''RPOP'', redisPop args False),
       (''LTRIM'', redisLTrim args), (''SCAN'', redisScan host args),
       (''KEYS'', redisKeysCommand host args), (''DBSIZE'', redisDBSize host args),
       (''FLUSHDB'', redisFlush args), (''FLUSHALL'', redisFlush args), (''TIME'', redisTime)]"

definition dataCommand ::
  "redisHost \<Rightarrow> bytes \<Rightarrow> bytes list \<Rightarrow> (('s, 'v) DB, respValue) op option" where
  "dataCommand host command args = map_of (dataCommands host command args) command"

text \<open>The commands that answer from the arguments and the session alone.\<close>

definition sessionCommand ::
  "redisHost \<Rightarrow> bytes \<Rightarrow> bytes list \<Rightarrow> redisSession \<Rightarrow> respValue option" where
  "sessionCommand host command args session =
     map_of [
       (''PING'', redisPing args),
       (''ECHO'', if length args \<noteq> 2 then redisSyntaxError else respBulkBytes (args ! 1)),
       (''HELLO'', redisSyntaxError),
       (''SELECT'', if length args \<noteq> 2 \<or> args ! 1 \<noteq> ''0''
                    then respErrorString ''ERR DB index is out of range'' else respSimpleString ''OK''),
       (''CLIENT'', redisClient host args session),
       (''COMMAND'', redisCommandInfo args),
       (''ROLE'', respArrayValues [respBulkString ''master'', respArrayValues []]),
       (''READONLY'', respSimpleString ''OK''), (''READWRITE'', respSimpleString ''OK''),
       (''CONFIG'', redisConfig args), (''INFO'', redisInfo args)]
     command"

record ('s, 'v) serverState =
  srv_db :: "('s, 'v) DB"
  srv_session :: redisSession

definition onDB :: "(('s, 'v) DB, 'a) op \<Rightarrow> (('s, 'v) serverState, 'a) op" where
  "onDB m st = (case m (srv_db st) of (r, db) \<Rightarrow> (r, st\<lparr>srv_db := db\<rparr>))"

text \<open>The reply and whether the connection ends.\<close>

definition redisDispatch ::
  "redisHost \<Rightarrow> bytes list \<Rightarrow> bytes \<Rightarrow> (('s, 'v) serverState, respValue \<times> bool) op" where
  "redisDispatch host args password st =
     (case args of
        [] \<Rightarrow> (Panic ''runtime error: index out of range'', st)
      | name # _ \<Rightarrow>
          let command = ToUpper (host_upper host) name;
              session = srv_session st;
              (hello, session') = (if command = ''HELLO''
                 then map_prod Some id (redisHello host args password session)
                 else (None, session));
              st' = st\<lparr>srv_session := session'\<rparr>
          in case hello of
               Some (reply, True) \<Rightarrow> (Ok (reply, False), st')
             | _ \<Rightarrow>
                 if command = ''AUTH''
                 then (case redisAuth args password session' of
                     (reply, session'') \<Rightarrow> (Ok (reply, False), st\<lparr>srv_session := session''\<rparr>))
                 else if command = ''QUIT'' then (Ok (respSimpleString ''OK'', True), st')
                 else if password \<noteq> [] \<and> \<not> rs_authed session' then (Ok (noAuth, False), st')
                 else (case sessionCommand host command args session' of
                     Some reply \<Rightarrow> (Ok (reply, False), st')
                   | None \<Rightarrow> (case dataCommand host command args of
                         Some m \<Rightarrow> bindE (onDB m) (\<lambda>reply. ret (reply, False)) st'
                       | None \<Rightarrow> (Ok (respErrorString
                             (''ERR unknown command '' @ [CHR 0x27] @ command @ [CHR 0x27]), False), st'))))"

section \<open>One connection\<close>

definition redisCommandArg :: "respValue \<Rightarrow> bytes res" where
  "redisCommandArg item =
     (if resp_null item then Err (errorsNew ''null command argument'')
      else if resp_kind item = respBulk \<or> resp_kind item = respSimple then Ok (resp_data item)
      else if resp_kind item = respInteger then Ok (FormatInt (resp_value item))
      else Err (errorsNew ''command arguments must be strings''))"

primrec commandArgsLoop :: "respValue list \<Rightarrow> bytes list res" where
  "commandArgsLoop [] = Ok []"
| "commandArgsLoop (item # items) = (case redisCommandArg item of
      Err e \<Rightarrow> Err e
    | Panic p \<Rightarrow> Panic p
    | Ok arg \<Rightarrow> (case commandArgsLoop items of
          Err e \<Rightarrow> Err e
        | Panic p \<Rightarrow> Panic p
        | Ok args \<Rightarrow> Ok (arg # args)))"

definition redisCommandArgs :: "respValue \<Rightarrow> bytes list res" where
  "redisCommandArgs request =
     (if resp_kind request \<noteq> respArray \<or> resp_null request \<or> resp_items request = []
      then Err (errorsNew ''expected a non-empty command array'')
      else commandArgsLoop (resp_items request))"

datatype connEnd = ConnClosed | ConnPanic bytes | ConnOutOfFuel

text \<open>
  The loop of \<open>serveRedisConnection\<close> over the bytes a client sends before it closes its side: what
  is written to the client, how the connection ends, and the state it leaves. Each request
  consumes input, so the length of the input is fuel enough.
\<close>

primrec serveLoop ::
  "nat \<Rightarrow> redisHost \<Rightarrow> bytes \<Rightarrow> bytes \<Rightarrow> ('s, 'v) serverState \<Rightarrow> bytes \<Rightarrow>
   bytes \<times> connEnd \<times> ('s, 'v) serverState" where
  "serveLoop 0 host password input st out = (out, ConnOutOfFuel, st)"
| "serveLoop (Suc fuel) host password input st out = (case readRequest input of
      Inl _ \<Rightarrow> (out, ConnClosed, st)
    | Inr (request, rest) \<Rightarrow> (case redisCommandArgs request of
          Ok args \<Rightarrow> (case redisDispatch host args password st of
              (Ok (reply, quit), st') \<Rightarrow> (case writeRESP reply of
                  Inl _ \<Rightarrow> (out, ConnClosed, st')
                | Inr bytes \<Rightarrow>
                    if quit then (out @ bytes, ConnClosed, st')
                    else serveLoop fuel host password rest st' (out @ bytes))
            | (Err e, st') \<Rightarrow> (out, ConnClosed, st')
            | (Panic p, st') \<Rightarrow> (out, ConnPanic p, st'))
        | Err e \<Rightarrow> (case writeRESP (respErrorString (''ERR '' @ err_text e)) of
              Inl _ \<Rightarrow> (out, ConnClosed, st)
            | Inr bytes \<Rightarrow> serveLoop fuel host password rest st (out @ bytes))
        | Panic p \<Rightarrow> (out, ConnPanic p, st)))"

definition serveRedisConnection ::
  "redisHost \<Rightarrow> bytes \<Rightarrow> bytes \<Rightarrow> ('s, 'v) serverState \<Rightarrow> bytes \<times> connEnd \<times> ('s, 'v) serverState" where
  "serveRedisConnection host password input st =
     serveLoop (Suc (length input)) host password input st []"

end
