(* ===== verification/RedisInvariant.thy ===== *)
theory RedisInvariant
  imports Coherence RedisServer
begin

text \<open>
  Every Redis command keeps the store coherent and, except for an overflowing \<open>SCAN\<close>, does not
  panic, whatever the clock says and whatever the records hold.
\<close>

section \<open>Rules for commands\<close>

lemma triple_replyE: "triple P m (\<lambda>_. I) I \<Longrightarrow> triple P (replyE m) (\<lambda>_. I) E"
  by (fastforce simp: triple_def replyE_def split: prod.splits res.splits)

lemma keeps_replyE: "keeps I m \<Longrightarrow> keeps I (replyE m)"
  unfolding keeps_def by (rule triple_replyE)

lemma parse_no_panic: "redisParseInt data \<noteq> Panic p" "redisParseNonNegative data \<noteq> Panic p"
  by (auto simp: redisParseInt_def redisParseNonNegative_def split: sum.splits res.splits)

lemma encode_no_panic: "dbProtocol_EncodeRecord c pl e \<noteq> Panic p" "encodeRecord c pl e \<noteq> Panic p"
  by (simp_all add: encodeRecord_def dbProtocol_EncodeRecord_def marshalEnvelope_def)

lemma encodeValues_no_panic: "encodeValues vs \<noteq> Panic p"
  by (induction vs) (auto simp: encode_no_panic split: res.splits)

lemma redisListReply_no_panic: "redisListReply items now \<noteq> Panic p"
  by (induction items) (auto simp: decode_no_panic split: res.splits)

lemma popCount_no_panic: "popCount args \<noteq> Panic p"
  by (auto simp: popCount_def split: res.splits)

lemma redisExpiryFromCommand_no_panic: "redisExpiryFromCommand now command amount \<noteq> Panic p"
  by (simp add: redisExpiryFromCommand_def Let_def)

lemma scanOptions_no_panic: "scanOptionsLoop host args acc \<noteq> Panic p"
  by (induction host args acc rule: scanOptionsLoop.induct)
    (auto simp: parse_no_panic split: scanWord.splits res.splits)

lemmas no_panic_rules =
  parse_no_panic encode_no_panic encodeValues_no_panic redisListReply_no_panic popCount_no_panic
  redisExpiryFromCommand_no_panic scanOptions_no_panic decode_no_panic

text \<open>The arguments at even positions: the keys of \<open>MSETNX\<close>.\<close>

primrec everyOther :: "bool \<Rightarrow> 'a list \<Rightarrow> 'a set" where
  "everyOther b [] = {}"
| "everyOther b (x # xs) = (if b then insert x (everyOther False xs) else everyOther True xs)"

lemma everyOther_subset: "everyOther b xs \<subseteq> set xs"
  by (induction xs arbitrary: b) auto

lemma pairArgs_even:
  "\<not> (length (args :: bytes list) < 3 \<or> length args mod 2 \<noteq> 1) \<Longrightarrow> even (length (tl args))"
  by (simp add: even_iff_mod_2_eq_zero) presburger

lemma triple_conj:
  "triple P m Q E \<Longrightarrow> triple P' m Q' E' \<Longrightarrow>
   triple (\<lambda>s. P s \<and> P' s) m (\<lambda>x s. Q x s \<and> Q' x s) (\<lambda>s. E s \<and> E' s)"
  by (fastforce simp: triple_def split: prod.splits res.splits)

lemma onlyRepr_put_other:
  assumes "onlyRepr R key m" "reprKey R key' sk" "lenOk key" "lenOk key'"
  shows "onlyRepr R key (m(sk \<mapsto> v))"
proof (cases "key' = key")
  case True
  with assms show ?thesis by (simp add: onlyRepr_put)
next
  case False
  then have "sk' \<noteq> sk" if "reprKey R' key sk'" for R' sk'
    using reprKey_unique [OF assms(2) _ assms(4,3)] that by blast
  with assms(1) show ?thesis by (simp add: onlyRepr_def lacksRepr_def)
qed

text \<open>An invariant that survives even a panic.\<close>

definition stable :: "('s \<Rightarrow> bool) \<Rightarrow> ('s, 'a) op \<Rightarrow> bool" where
  "stable I m \<longleftrightarrow> (\<forall>s. I s \<longrightarrow> I (snd (m s)))"

lemma keeps_stable: "keeps I m \<Longrightarrow> stable I m"
  by (simp add: stable_def keepsD)

lemma stable_rules:
  "stable I (ret x)" "stable I (throw e)" "stable I (liftR r)"
  "stable I m \<Longrightarrow> (\<And>x. stable I (f x)) \<Longrightarrow> stable I (bindE m f)"
  "(b \<Longrightarrow> stable I m) \<Longrightarrow> (\<not> b \<Longrightarrow> stable I n) \<Longrightarrow> stable I (if b then m else n)"
  by (auto simp: stable_def ret_def throw_def liftR_def bindE_def split: prod.splits res.splits)

lemma stable_replyE: "stable I m \<Longrightarrow> stable I (replyE m)"
  by (fastforce simp: stable_def replyE_def split: prod.splits res.splits)

context local_engine
begin

lemma triple_keeps: "keeps P m \<Longrightarrow> (\<And>db. P db \<Longrightarrow> X db) \<Longrightarrow> triple P m (\<lambda>_. P) X"
  unfolding keeps_def by (rule triple_conseq)

lemma bind_keeps:
  "keeps P m \<Longrightarrow> (\<And>db. P db \<Longrightarrow> X db) \<Longrightarrow> (\<And>x. triple P (f x) Q X) \<Longrightarrow> triple P (bindE m f) Q X"
  by (rule triple_bindE [OF triple_keeps])

lemma bind_type:
  "lenOk key \<Longrightarrow> (\<And>ty. triple (only (reprOf ty) key) (f ty) Q inv) \<Longrightarrow>
   triple inv (bindE (redisType None key) f) Q inv"
  by (rule triple_bindE [OF redisType_spec])

lemma Put_spec:
  assumes "reprKey R key sk" "lenOk key"
  shows "keeps (only R key) (dbProtocol_Put None sk v)"
  using assms
  by (intro keepsI) (auto simp: only_def inv_def op_simps onlyRepr_put coherent_put)

lemma Put_TTL_keeps: "keeps (only R key) (dbProtocol_Put None (collectionTTLKey key') v)"
  by (intro keepsI) (auto simp: only_def inv_def op_simps put_TTL)

lemma DeleteRaw_spec: "triple inv (redisDeleteRaw None key) (\<lambda>_. only ReprNone key) inv"
  by (rule tripleI) (simp add: inv_def op_simps dropKey_onlyNone [unfolded inv_def])

lemma putPayload_keeps:
  assumes "shrinks P" "\<And>v. keeps P (dbProtocol_Put None sk v)"
  shows "keeps P (putPayload None sk codec payload ttl)"
  unfolding putPayload_def
  by (intro keeps_rules keeps_Now no_panic_rules assms)

lemma writeString_keeps:
  assumes "shrinks P" "\<And>v. keeps P (dbProtocol_Put None (valueKey key) v)"
  shows "keeps P (redisWriteString None key value e)"
    "keeps P (redisWriteStringWithCodec None key value codec e)"
  unfolding redisWriteString_def redisWriteStringWithCodec_def Let_def
  by (intro keeps_rules keeps_calls putPayload_keeps assms; simp add: assms)+

lemma writeString_only:
  assumes "lenOk key"
  shows "keeps (only ReprScalar key) (redisWriteString None key value e)"
    "keeps (only ReprScalar key) (redisWriteStringWithCodec None key value codec e)"
  by (intro writeString_keeps shrinks_only Put_spec assms; simp)+

lemma writeList_only:
  assumes "lenOk key"
  shows "keeps (only ReprList key) (redisWriteList None key items)"
  unfolding redisWriteList_def
  by (intro keeps_rules keeps_calls shrinks_only; simp add: Put_spec assms)

text \<open>From a state in which only \<open>R\<close> represents the key, an operation ends in a coherent store.\<close>

lemma toInv: "keeps (only R key) m \<Longrightarrow> triple (only R key) m (\<lambda>_. inv) inv"
  unfolding keeps_def by (erule triple_conseq) (simp_all add: only_inv)

lemma toInv_None: "triple (only R key) m Q X \<Longrightarrow> triple (only ReprNone key) m Q X"
  by (erule triple_pre) (rule onlyNone_only)

lemma toInv_keeps: "keeps inv m \<Longrightarrow> triple (only R key) m (\<lambda>_. inv) inv"
  unfolding keeps_def by (erule triple_pre) (rule only_inv)

lemma toInv_type:
  "reprOf ty = R \<or> ty = redisTypeNone \<Longrightarrow> keeps (only R key) m \<Longrightarrow>
   triple (only (reprOf ty) key) m (\<lambda>_. inv) inv"
  using toInv [of R key m] toInv_None [of R key m] by auto

lemma toInv_basic:
  "triple (only R key) (ret x) (\<lambda>_. inv) inv" "triple (only R key) (throw e) (\<lambda>_. inv) inv"
  by (simp_all add: toInv)

lemma keeps_after_type:
  assumes "lenOk key" "\<And>ty. triple (only (reprOf ty) key) (f ty) (\<lambda>_. inv) inv"
  shows "keeps inv (bindE (redisType None key) f)"
  unfolding keeps_def by (rule bind_type [OF assms])

lemma keeps_after_delete:
  assumes "\<And>b. triple (only ReprNone key) (f b) (\<lambda>_. inv) inv"
  shows "keeps inv (bindE (redisDeleteRaw None key) f)"
  unfolding keeps_def by (rule triple_bindE [OF DeleteRaw_spec assms])

section \<open>Strings and deadlines\<close>

lemma redisSetExpiry_keeps:
  assumes "lenOk key"
  shows "keeps inv (redisSetExpiry None key e)"
  unfolding redisSetExpiry_def
  by (rule keeps_after_type [OF assms], rule toInv)
    (intro keeps_rules keeps_calls shrinks_only no_panic_rules;
      simp add: writeString_only assms Put_TTL_keeps)

lemma redisPersist_keeps:
  assumes "lenOk key"
  shows "keeps inv (redisPersist None key)"
  unfolding redisPersist_def
  by (rule keeps_after_type [OF assms], rule toInv)
    (intro keeps_rules keeps_calls keeps_reads shrinks_only no_panic_rules;
      simp add: putPayload_keeps shrinks_only assms Put_spec)

lemma redisDeleteAndWriteString_keeps:
  assumes "lenOk key"
  shows "keeps inv (redisDeleteAndWriteString key value e)"
  unfolding redisDeleteAndWriteString_def Background_def
  by (rule keeps_after_delete, rule toInv_None, rule toInv, rule writeString_only [OF assms])

lemmas keeps_commands = keeps_replyE keeps_rules keeps_calls keeps_reads no_panic_rules

lemma shrinking_strings:
  assumes "shrinks I"
  shows "keeps I (redisGet args)" "keeps I (redisGetDel args)" "keeps I (redisMGet args)"
    "keeps I (redisStrLen args)" "keeps I (redisDelete args)" "keeps I (redisExists args)"
    "keeps I (redisTypeCommand args)" "keeps I (redisTTLCommand args command)" "keeps I redisTime"
  unfolding redisGet_def redisGetDel_def redisMGet_def redisStrLen_def redisDelete_def redisExists_def
    redisTypeCommand_def redisTTLCommand_def redisTime_def Let_def Background_def
  by (intro keeps_commands keeps_foldE assms)+

lemma setOptions_keeps:
  assumes "shrinks I"
  shows "keeps I (redisSetOptions host args)"
proof -
  have "keeps I (setOptionExpiry u b arg)" for u b arg
    unfolding setOptionExpiry_def by (intro keeps_commands assms)
  then have "keeps I (setOptionsLoop host args options)" for args options
    by (induction host args options rule: setOptionsLoop.induct)
      (auto split: setWord.splits list.splits intro!: keeps_rules)
  then show ?thesis by (simp add: redisSetOptions_def)
qed

lemma keyValueLoop_keeps:
  assumes "\<And>key value. key \<in> set args \<Longrightarrow> keeps I (f key value)" "even (length args)"
  shows "keeps I (keyValueLoop f args)"
  using assms by (induction f args rule: keyValueLoop.induct) (auto intro!: keeps_bindE)

lemma args_lenOk: "list_all lenOk args \<Longrightarrow> i < length args \<Longrightarrow> lenOk (args ! i)"
  by (simp add: list_all_length)

lemma redisSet_keeps:
  assumes "list_all lenOk args"
  shows "keeps inv (redisSet host args)"
  unfolding redisSet_def Let_def Background_def using assms
  by (intro keeps_commands setOptions_keeps shrinks_inv redisDeleteAndWriteString_keeps args_lenOk)
    simp_all

text \<open>
  A command that first detects the type, answers or fails early, and otherwise runs \<open>m\<close> on the
  representation \<open>R\<close>.
\<close>

lemma redisSetNX_keeps:
  assumes "list_all lenOk args"
  shows "keeps inv (redisSetNX args)"
  unfolding redisSetNX_def Background_def using assms
  by (intro keeps_if keeps_basic keeps_replyE keeps_after_type triple_if toInv_basic
      toInv_type [where R = ReprScalar] keeps_bindE writeString_only args_lenOk) simp_all

lemma redisSetEX_keeps:
  assumes "list_all lenOk args"
  shows "keeps inv (redisSetEX args ms)"
  unfolding redisSetEX_def Background_def Let_def using assms
  by (intro keeps_if keeps_res keeps_basic keeps_replyE keeps_bindE [OF keeps_Now [OF shrinks_inv]]
      keeps_after_delete toInv_None [where R = ReprScalar] toInv keeps_bindE writeString_only args_lenOk)
    simp_all

lemma redisGetSet_keeps:
  assumes "list_all lenOk args"
  shows "keeps inv (redisGetSet args)"
  unfolding redisGetSet_def Background_def using assms
  by (intro keeps_if keeps_basic keeps_replyE keeps_bindE [OF keeps_redisString [OF shrinks_inv]]
      keeps_after_delete toInv_None [where R = ReprScalar] toInv keeps_bindE writeString_only args_lenOk)
    simp_all

lemma getExDeadline_keeps: "keeps inv (getExDeadline option amount)"
  unfolding getExDeadline_def by (intro keeps_rules keeps_Now shrinks_inv)

lemma redisGetEx_keeps:
  assumes "list_all lenOk args"
  shows "keeps inv (redisGetEx host args)"
proof (cases "length args < 2")
  case True
  then show ?thesis by (simp add: redisGetEx_def)
next
  case False
  then have "lenOk (args ! 1)" using assms by (simp add: args_lenOk)
  then show ?thesis
    unfolding redisGetEx_def Background_def Let_def
    by (intro keeps_commands shrinks_inv redisSetExpiry_keeps redisPersist_keeps getExDeadline_keeps)
qed

lemma redisExpire_keeps:
  assumes "list_all lenOk args"
  shows "keeps inv (redisExpireCommand args command)" "keeps inv (redisPersistCommand args)"
  unfolding redisExpireCommand_def redisPersistCommand_def Background_def using assms
  by (intro keeps_commands shrinks_inv redisSetExpiry_keeps redisPersist_keeps args_lenOk; simp)+

text \<open>A read that does not fail has found its own representation or none.\<close>

lemma read_spec:
  assumes "lenOk key" "reprOf tname = R" "\<And>ty. keeps (only R key) (f ty)"
    "\<And>ty. ty \<noteq> redisTypeNone \<Longrightarrow> ty \<noteq> tname \<Longrightarrow> f ty = throw (wrongType ty)"
  shows "triple inv (bindE (redisType None key) f) (\<lambda>_. only R key) inv"
proof (rule bind_type [OF assms(1)])
  fix ty
  have R: "triple (only R key) (f ty) (\<lambda>_. only R key) inv"
    using triple_keeps [OF assms(3)] only_inv by blast
  show "triple (only (reprOf ty) key) (f ty) (\<lambda>_. only R key) inv"
    using R toInv_None [OF R] assms(2,4)
    by (cases "ty = redisTypeNone"; cases "ty = tname") (auto intro: triple_throw simp: only_inv)
qed

lemma redisString_spec:
  assumes "lenOk key"
  shows "triple inv (redisString None key) (\<lambda>_. only ReprScalar key) inv"
  unfolding redisString_def
  by (rule read_spec [OF assms reprOf_simps(2)]) (intro keeps_commands shrinks_only, simp)

lemma redisHashField_spec:
  assumes "lenOk key"
  shows "triple inv (redisHashField None key field) (\<lambda>_. only ReprHash key) inv"
  unfolding redisHashField_def
  by (rule read_spec [OF assms reprOf_simps(3)]) (intro keeps_commands shrinks_only, simp)

lemma redisList_spec:
  assumes "lenOk key"
  shows "triple inv (redisList None key) (\<lambda>_. only ReprList key) inv"
  unfolding redisList_def
  by (rule read_spec [OF assms reprOf_simps(5)]) (intro keeps_commands shrinks_only, simp)

lemma keeps_after:
  assumes "triple inv m (\<lambda>_. only R key) inv" "\<And>x. keeps (only R key) (f x)"
  shows "keeps inv (bindE m f)"
  unfolding keeps_def by (rule triple_bindE [OF assms(1)], rule toInv, rule assms(2))

lemma redisAppend_keeps:
  assumes "list_all lenOk args"
  shows "keeps inv (redisAppend args)"
  unfolding redisAppend_def Background_def Let_def using assms
  by (intro keeps_if keeps_basic keeps_replyE keeps_after [OF redisString_spec] keeps_bindE
      keeps_redisExpiry shrinks_only writeString_only args_lenOk) simp_all

lemma redisIncrementBig_keeps:
  assumes "lenOk key"
  shows "keeps inv (redisIncrementBig key delta)"
  unfolding redisIncrementBig_def Background_def Let_def
  by (intro keeps_replyE keeps_after [OF redisString_spec] keeps_rules
      keeps_redisExpiry shrinks_only writeString_only assms)

lemma redisIncrement_keeps:
  assumes "list_all lenOk args"
  shows "keeps inv (redisIncrementCommand args delta)" "keeps inv (redisIncrementByCommand args dec)"
  unfolding redisIncrementCommand_def redisIncrementByCommand_def redisIncrement_def using assms
  by (intro keeps_replyE keeps_rules redisIncrementBig_keeps no_panic_rules args_lenOk; simp)+

lemma tl_lenOk: "list_all lenOk args \<Longrightarrow> key \<in> set (tl args) \<Longrightarrow> lenOk key"
  by (cases args) (auto simp: list_all_iff)

lemma redisMSet_keeps:
  assumes "list_all lenOk args"
  shows "keeps (inv :: ('s, 'v) DB \<Rightarrow> bool) (redisMSet args)"
proof -
  have "keeps (inv :: ('s, 'v) DB \<Rightarrow> bool) (bindE (redisDeleteRaw None key) (\<lambda>_. redisWriteString None key v 0))"
    if "key \<in> set (tl args)" for key v
    by (intro keeps_after_delete toInv_None [where R = ReprScalar] toInv writeString_only
        tl_lenOk [OF assms that])
  then have loop: "keeps (inv :: ('s, 'v) DB \<Rightarrow> bool) (keyValueLoop (\<lambda>key value. bindE (redisDeleteRaw None key)
      (\<lambda>_. redisWriteString None key value 0)) (tl args))" if "even (length (tl args))"
    by (intro keyValueLoop_keeps that)
  show ?thesis
    unfolding redisMSet_def Background_def
    by (intro keeps_replyE keeps_if keeps_basic keeps_bindE [OF _ keeps_basic(1)] loop pairArgs_even)
qed

text \<open>\<open>MSETNX\<close> writes several keys after it has seen that none of them exists.\<close>

definition onlyAll :: "repr \<Rightarrow> bytes set \<Rightarrow> ('s, 'v) DB \<Rightarrow> bool" where
  "onlyAll R K db \<longleftrightarrow> inv db \<and> (\<forall>k\<in>K. onlyRepr R k (dbView db))"

lemma onlyAll_simps: "onlyAll R {} = inv" "onlyAll R (insert k K) = (\<lambda>db. only R k db \<and> onlyAll R K db)"
  by (auto simp: fun_eq_iff onlyAll_def only_def)

lemma shrinks_onlyAll: "shrinks (onlyAll R K)"
  unfolding shrinks_def onlyAll_def inv_def by (meson coherent_sub onlyRepr_sub)

lemma Put_onlyAll:
  assumes "reprKey R key sk" "key \<in> K" "\<forall>k\<in>K. lenOk k"
  shows "keeps (onlyAll R K) (dbProtocol_Put None sk v)"
proof (rule keepsI)
  fix db
  assume P: "onlyAll R K db"
  have "onlyRepr R k ((dbView db)(sk \<mapsto> v))" if "k \<in> K" for k
    using P onlyRepr_put_other [of R k "dbView db" key sk] assms that by (auto simp: onlyAll_def)
  then show "\<exists>x db'. dbProtocol_Put None sk v db = (Ok x, db') \<and> onlyAll R K db'"
    using P assms coherent_put [of "dbView db" R key sk v]
    by (auto simp: onlyAll_def inv_def op_simps)
qed

lemma keyValueLoop_everyOther:
  assumes "\<And>key value. key \<in> everyOther True args \<Longrightarrow> keeps I (f key value)" "even (length args)"
  shows "keeps I (keyValueLoop f args)"
  using assms by (induction f args rule: keyValueLoop.induct) (auto intro!: keeps_bindE)

lemma anyExists_spec:
  assumes "list_all lenOk ks"
  shows "triple (onlyAll ReprNone K :: ('s, 'v) DB \<Rightarrow> bool) (anyExistsLoop ks)
    (\<lambda>b. if b then inv else onlyAll ReprNone (K \<union> everyOther True ks)) inv"
  using assms
proof (induction ks arbitrary: K rule: anyExistsLoop.induct)
  case 1
  then show ?case by (auto intro!: triple_ret)
next
  case (2 key rest)
  let ?f = "\<lambda>ty. if ty \<noteq> redisTypeNone then ret True else anyExistsLoop (drop 1 rest)"
  have t: "triple (onlyAll ReprNone K :: ('s, 'v) DB \<Rightarrow> bool) (redisType None key)
      (\<lambda>ty db. only (reprOf ty) key db \<and> onlyAll ReprNone K db) inv"
    by (rule triple_conseq [OF triple_conj [OF redisType_spec [of key]
          keeps_redisType [OF shrinks_onlyAll, unfolded keeps_def]]])
      (use 2(2) in \<open>auto simp: onlyAll_def\<close>)
  show ?case
    unfolding anyExistsLoop.simps Background_def
  proof (rule triple_bindE [OF t])
    fix ty
    show "triple (\<lambda>db :: ('s, 'v) DB. only (reprOf ty) key db \<and> onlyAll ReprNone K db) (?f ty)
      (\<lambda>b. if b then inv else onlyAll ReprNone (K \<union> everyOther True (key # rest))) inv"
    proof (cases "ty = redisTypeNone")
      case True
      have e: "K \<union> everyOther True (key # rest) = insert key K \<union> everyOther True (drop 1 rest)"
        by (cases rest) simp_all
      have "list_all lenOk (drop 1 rest)" using 2(2) by (cases rest) simp_all
      then show ?thesis
        using True 2(1) [of ty "insert key K"] unfolding e by (simp add: onlyAll_simps)
    next
      case False
      then show ?thesis by (auto intro!: triple_ret simp: onlyAll_def)
    qed
  qed
qed

lemma redisMSetNX_keeps:
  assumes "list_all lenOk args"
  shows "keeps (inv :: ('s, 'v) DB \<Rightarrow> bool) (redisMSetNX args)"
proof -
  let ?K = "everyOther True (tl args)"
  have any: "triple (inv :: ('s, 'v) DB \<Rightarrow> bool) (anyExistsLoop (tl args)) (\<lambda>b. if b then inv else onlyAll ReprScalar ?K) inv"
    by (rule triple_conseq [OF anyExists_spec [where K = "{}"]])
      (use tl_lenOk [OF assms] in \<open>auto simp: list_all_iff onlyAll_def onlyRepr_None_mono split: if_splits\<close>)
  have lens: "\<forall>k\<in>?K. lenOk k"
    using tl_lenOk [OF assms] everyOther_subset [of True "tl args"] by blast
  have "keeps (onlyAll ReprScalar ?K :: ('s, 'v) DB \<Rightarrow> bool) (keyValueLoop (\<lambda>key value. redisWriteString None key value 0) (tl args))"
    if "even (length (tl args))"
    by (rule keyValueLoop_everyOther [OF _ that])
      (intro writeString_keeps shrinks_onlyAll Put_onlyAll [OF reprKey_simps(1) _ lens])
  then have loop: "keeps (onlyAll ReprScalar ?K :: ('s, 'v) DB \<Rightarrow> bool)
     (bindE (keyValueLoop (\<lambda>key value. redisWriteString None key value 0) (tl args))
        (\<lambda>_. ret (respIntegerValue 1)))" if "even (length (tl args))"
    using that by (blast intro: keeps_bindE keeps_basic)
  have "triple (onlyAll ReprScalar ?K :: ('s, 'v) DB \<Rightarrow> bool)
     (bindE (keyValueLoop (\<lambda>key value. redisWriteString None key value 0) (tl args))
        (\<lambda>_. ret (respIntegerValue 1))) (\<lambda>_. inv) inv" if "even (length (tl args))"
    by (rule triple_conseq [OF loop [OF that, unfolded keeps_def]]) (simp_all add: onlyAll_def)
  then have all: "keeps (inv :: ('s, 'v) DB \<Rightarrow> bool) (bindE (anyExistsLoop (tl args)) (\<lambda>exists.
        if exists then ret (respIntegerValue 0)
        else bindE (keyValueLoop (\<lambda>key value. redisWriteString None key value 0) (tl args))
               (\<lambda>_. ret (respIntegerValue 1))))" if "even (length (tl args))"
    unfolding keeps_def using that
    by (intro triple_bindE [OF any]) (auto intro!: triple_ret)
  show ?thesis
    unfolding redisMSetNX_def Background_def
    by (intro keeps_replyE keeps_if keeps_basic all pairArgs_even)
qed

section \<open>Collections\<close>

lemma keeps_hashEntries: "shrinks I \<Longrightarrow> keeps I (redisHashEntries None key)"
  unfolding redisHashEntries_def hashEntryStep_def
  by (intro keeps_commands keeps_foldE)

lemma keeps_setMembers: "shrinks I \<Longrightarrow> keeps I (redisSetMembers None key)"
  unfolding redisSetMembers_def by (intro keeps_commands)

lemma keeps_hDelStep: "shrinks I \<Longrightarrow> keeps I (redisHDelStep key field n)"
  unfolding redisHDelStep_def Background_def by (intro keeps_commands)

lemma keeps_sRemStep: "shrinks I \<Longrightarrow> keeps I (redisSRemStep key field n)"
  unfolding redisSRemStep_def Background_def by (intro keeps_commands)

lemma keeps_sIsMember: "shrinks I \<Longrightarrow> keeps I (redisSIsMember args)"
  unfolding redisSIsMember_def Background_def by (intro keeps_commands)

lemma keeps_smIsMemberLoop: "shrinks I \<Longrightarrow> keeps I (smIsMemberLoop key members items)"
  by (induction members arbitrary: items) (auto intro!: keeps_rules keeps_sIsMember)

lemma shrinking_collections:
  assumes "shrinks I"
  shows "keeps I (redisHGet args)" "keeps I (redisHMGet args)" "keeps I (redisHGetAll args)"
    "keeps I (redisHDel args)" "keeps I (redisHExists args)" "keeps I (redisHLen args)"
    "keeps I (redisHKeys args)" "keeps I (redisHVals args)" "keeps I (redisSRem args)"
    "keeps I (redisSMIsMember args)" "keeps I (redisSMembers args)" "keeps I (redisSCard args)"
  unfolding redisHGet_def redisHMGet_def redisHGetAll_def redisHDel_def redisHExists_def redisHLen_def
    redisHKeys_def redisHVals_def redisSRem_def redisSMIsMember_def redisSMembers_def redisSCard_def
    Background_def
  by (intro keeps_commands keeps_foldE keeps_hashEntries keeps_setMembers keeps_hDelStep keeps_sRemStep
      keeps_smIsMemberLoop assms)+

lemma hSetLoop_only:
  assumes "lenOk key" "even (length args)"
  shows "keeps (only ReprHash key) (redisHSetLoop key args n)"
proof -
  have "keeps (only ReprHash key :: ('s, 'v) DB \<Rightarrow> bool) (redisHSetStep key field v n)" for field v n
    unfolding redisHSetStep_def Background_def
    by (intro keeps_rules keeps_calls putPayload_keeps shrinks_only; simp add: Put_spec assms)
  with assms(2) show ?thesis
    by (induction key args n rule: redisHSetLoop.induct) (auto intro!: keeps_rules)
qed

lemma redisHSet_keeps:
  assumes "list_all lenOk args"
  shows "keeps inv (redisHSet args)"
  unfolding redisHSet_def Background_def using assms
  by (intro keeps_if keeps_basic keeps_replyE keeps_after_type triple_if toInv_basic
      toInv_type [where R = ReprHash] keeps_bindE keeps_ignoreE keeps_calls shrinks_only
      hSetLoop_only args_lenOk) auto

lemma redisHIncrBy_keeps:
  assumes "list_all lenOk args"
  shows "keeps inv (redisHIncrBy args)"
  unfolding redisHIncrBy_def Background_def Let_def using assms
  by (intro keeps_if keeps_basic keeps_replyE keeps_bindE [OF keeps_liftR [OF parse_no_panic(1)]]
      keeps_after_type triple_if toInv_basic toInv_type [where R = ReprHash] keeps_bindE keeps_option
      keeps_reads putPayload_keeps shrinks_only args_lenOk; fastforce simp: Put_spec args_lenOk)

lemma sAddStep_only: "lenOk key \<Longrightarrow> keeps (only ReprSet key) (redisSAddStep key member n)"
  unfolding redisSAddStep_def Background_def
  by (intro keeps_rules keeps_calls shrinks_only; simp add: Put_spec)

lemma redisSAdd_keeps:
  assumes "list_all lenOk args"
  shows "keeps inv (redisSAdd args)"
  unfolding redisSAdd_def Background_def using assms
  by (intro keeps_if keeps_basic keeps_replyE keeps_after_type triple_if toInv_basic
      toInv_type [where R = ReprSet] keeps_bindE keeps_ignoreE keeps_calls shrinks_only
      keeps_foldE sAddStep_only args_lenOk) auto

lemma listValues_only:
  assumes "lenOk key"
  shows "keeps (only ReprList key) (redisListValues None key)"
  unfolding redisListValues_def liveItemStep_def
  by (intro keeps_commands keeps_foldE shrinks_only writeList_only assms)

lemma redisListValues_spec:
  assumes "lenOk key"
  shows "triple inv (redisListValues None key) (\<lambda>_. only ReprList key) inv"
proof -
  have "keeps (only ReprList key :: ('s, 'v) DB \<Rightarrow> bool) (case r of None \<Rightarrow> ret None
     | Some items \<Rightarrow> bindE (foldE liveItemStep items ([], False)) (\<lambda>acc.
           bindE (if snd acc then redisWriteList None key (fst acc) else ret ()) (\<lambda>_.
             ret (if fst acc = [] then None else Some (fst acc)))))" for r
    unfolding liveItemStep_def
    by (intro keeps_commands keeps_foldE shrinks_only writeList_only assms)
  then show ?thesis
    unfolding redisListValues_def
    by (intro triple_bindE [OF redisList_spec [OF assms]] triple_keeps only_inv)
qed

lemma redisPushValues_keeps:
  assumes "lenOk key"
  shows "keeps inv (redisPushValues key items left onlyIfExists)"
  unfolding redisPushValues_def Background_def Let_def
  by (intro keeps_if keeps_basic keeps_replyE keeps_after_type triple_if toInv_basic
      toInv_type [where R = ReprList] keeps_bindE listValues_only keeps_liftR no_panic_rules
      keeps_ignoreE keeps_calls shrinks_only writeList_only assms) auto

lemma redisPush_keeps:
  assumes "list_all lenOk args"
  shows "keeps inv (redisPush args left)" "keeps inv (redisPushX args left)"
  unfolding redisPush_def redisPushX_def using assms
  by (intro keeps_if keeps_basic redisPushValues_keeps args_lenOk; simp)+

lemma list_commands_keep:
  assumes "list_all lenOk args"
  shows "keeps inv (redisLRange args)" "keeps inv (redisLLen args)" "keeps inv (redisPop args left)"
    "keeps inv (redisLTrim args)"
proof -
  note defs = redisLRange_def redisLLen_def redisPop_def redisLTrim_def
  have "keeps inv (redisLRange args) \<and> keeps inv (redisLLen args) \<and> keeps inv (redisPop args left)
    \<and> keeps inv (redisLTrim args)"
  proof (cases "1 < length args")
    case True
    then have "lenOk (args ! 1)" using assms by (simp add: args_lenOk)
    then show ?thesis
      unfolding defs Background_def Let_def
      by (intro conjI keeps_if keeps_basic keeps_replyE keeps_bindE [OF keeps_liftR [OF parse_no_panic(1)]]
          keeps_after [OF redisListValues_spec] keeps_rules keeps_calls shrinks_only no_panic_rules
          writeList_only)
  next
    case False
    then show ?thesis by (simp add: defs)
  qed
  then show "keeps inv (redisLRange args)" "keeps inv (redisLLen args)" "keeps inv (redisPop args left)"
    "keeps inv (redisLTrim args)" by blast+
qed

section \<open>The key space\<close>

lemma keeps_logicalKeys: "shrinks I \<Longrightarrow> keeps I (redisLogicalKeys host None)"
  unfolding redisLogicalKeys_def by (intro keeps_commands keeps_foldE)

lemma shrinking_keyspace:
  assumes "shrinks I"
  shows "keeps I (redisKeysCommand host args)" "keeps I (redisDBSize host args)" "keeps I (redisFlush args)"
  unfolding redisKeysCommand_def redisDBSize_def redisFlush_def Background_def
  by (intro keeps_commands keeps_logicalKeys assms)+

lemma redisScan_stable:
  assumes "shrinks I"
  shows "stable I (redisScan host args)"
proof -
  have "stable I (redisLogicalKeys host None)"
    by (rule keeps_stable, rule keeps_logicalKeys, rule assms)
  then show ?thesis
    unfolding redisScan_def Background_def
    by (intro stable_rules stable_replyE) (auto intro!: stable_rules split: option.split)
qed

section \<open>Dispatch\<close>

lemma dataCommand_keeps:
  assumes "list_all lenOk args" "dataCommand host command args = Some m" "command \<noteq> ''SCAN''"
  shows "keeps inv m"
proof -
  note facts = shrinking_strings [OF shrinks_inv] shrinking_collections [OF shrinks_inv]
    shrinking_keyspace [OF shrinks_inv] keeps_sIsMember [OF shrinks_inv]
    redisSet_keeps [OF assms(1)] redisSetNX_keeps [OF assms(1)] redisSetEX_keeps [OF assms(1)]
    redisGetSet_keeps [OF assms(1)] redisGetEx_keeps [OF assms(1)] redisMSet_keeps [OF assms(1)]
    redisMSetNX_keeps [OF assms(1)] redisAppend_keeps [OF assms(1)] redisIncrement_keeps [OF assms(1)]
    redisExpire_keeps [OF assms(1)] redisHSet_keeps [OF assms(1)] redisHIncrBy_keeps [OF assms(1)]
    redisSAdd_keeps [OF assms(1)] redisPush_keeps [OF assms(1)] list_commands_keep [OF assms(1)]
  from assms(2) have "(command, m) \<in> set (dataCommands host command args)"
    unfolding dataCommand_def by (rule map_of_SomeD)
  with assms(3) have "m \<in> snd ` set (filter (\<lambda>e. fst e \<noteq> ''SCAN'') (dataCommands host command args))"
    by force
  then show ?thesis
    unfolding dataCommands_def by (auto simp: facts)
qed

end

end
