(* ===== verification/RedisReplies.thy ===== *)
theory RedisReplies
  imports RedisInvariant RESPProps
begin

text \<open>
  Every reply of a command can be written to the client: the protocol writer never meets an
  unknown kind of value or a map without pairs.
\<close>

definition writable :: "respValue \<Rightarrow> bool" where
  "writable v \<longleftrightarrow> (\<exists>out. writeRESP v = Inr out)"

lemma concatReplies_Inr: "(\<forall>r\<in>set rs. \<exists>out. r = Inr out) \<Longrightarrow> \<exists>out. concatReplies rs = Inr out"
  by (induction rs) auto

lemma writable_basic [simp]:
  "writable (respSimpleString s)" "writable (respErrorString s)" "writable (respIntegerValue n)"
  "writable (respBulkBytes d)" "writable (respBulkString d)" "writable respNil"
  by (simp_all add: writable_def resp_value_defs resp_kind_defs)

lemma writable_array [simp]: "list_all writable items \<Longrightarrow> writable (respArrayValues items)"
  using concatReplies_Inr [of "map writeRESP items"]
  by (auto simp: writable_def respArrayValues_def prependOut_def list_all_iff resp_kind_defs)

lemma writable_map [simp]:
  "list_all writable items \<Longrightarrow> even (length items) \<Longrightarrow> writable (respMapValues items)"
  using concatReplies_Inr [of "map writeRESP items"]
  by (auto simp: writable_def respMapValues_def prependOut_def list_all_iff resp_kind_defs)

lemma writable_replies [simp]:
  "writable redisSyntaxError" "writable (redisErrorReply e)" "writable (bulkOrNil r)"
  "writable noAuth" "writable wrongPass"
  by (simp_all add: redisSyntaxError_def redisErrorReply_def bulkOrNil_def noAuth_def wrongPass_def
      split: option.split)

section \<open>Partial correctness of results\<close>

definition yields :: "('a \<Rightarrow> bool) \<Rightarrow> ('s, 'a) op \<Rightarrow> bool" where
  "yields Q m \<longleftrightarrow> (\<forall>s x s'. m s = (Ok x, s') \<longrightarrow> Q x)"

lemma yields_basic [simp]:
  "Q x \<Longrightarrow> yields Q (ret x)" "yields Q (throw e)" "yields Q (panic p)"
  "(\<And>x. r = Ok x \<Longrightarrow> Q x) \<Longrightarrow> yields Q (liftR r)"
  by (simp_all add: yields_def ret_def throw_def panic_def liftR_def)

lemma yields_bindE: "(\<And>x. yields Q (f x)) \<Longrightarrow> yields Q (bindE m f)"
  by (fastforce simp: yields_def bindE_def split: prod.splits res.splits)

lemma yields_bindE': "yields R m \<Longrightarrow> (\<And>x. R x \<Longrightarrow> yields Q (f x)) \<Longrightarrow> yields Q (bindE m f)"
  by (fastforce simp: yields_def bindE_def split: prod.splits res.splits)

lemma yields_foldE:
  assumes "\<And>x acc. x \<in> set xs \<Longrightarrow> Q acc \<Longrightarrow> yields Q (f x acc)" "Q acc"
  shows "yields Q (foldE f xs acc)"
  using assms
proof (induction xs arbitrary: acc)
  case (Cons x xs)
  then show ?case by (auto intro!: yields_bindE' [of Q])
qed simp

lemma yields_replyE: "yields writable m \<Longrightarrow> yields writable (replyE m)"
  by (fastforce simp: yields_def replyE_def split: prod.splits res.splits)

lemma yields_if:
  "(b \<Longrightarrow> yields Q m) \<Longrightarrow> (\<not> b \<Longrightarrow> yields Q n) \<Longrightarrow> yields Q (if b then m else n)"
  by simp

lemma yields_option:
  "(r = None \<Longrightarrow> yields Q m) \<Longrightarrow> (\<And>x. r = Some x \<Longrightarrow> yields Q (f x)) \<Longrightarrow>
   yields Q (case r of None \<Rightarrow> m | Some x \<Rightarrow> f x)"
  by (cases r) simp_all

lemma yields_res:
  "(\<And>x. r = Ok x \<Longrightarrow> yields Q (f x)) \<Longrightarrow> (\<And>e. r = Err e \<Longrightarrow> yields Q (g e)) \<Longrightarrow>
   (\<And>p. r = Panic p \<Longrightarrow> yields Q (h p)) \<Longrightarrow>
   yields Q (case r of Ok x \<Rightarrow> f x | Err e \<Rightarrow> g e | Panic p \<Rightarrow> h p)"
  by (cases r) simp_all

lemma yields_prod: "(\<And>a b. p = (a, b) \<Longrightarrow> yields Q (f a b)) \<Longrightarrow> yields Q (case p of (a, b) \<Rightarrow> f a b)"
  by (cases p) simp

lemma yields_bool:
  "(b \<Longrightarrow> yields Q m) \<Longrightarrow> (\<not> b \<Longrightarrow> yields Q n) \<Longrightarrow> yields Q (case b of True \<Rightarrow> m | False \<Rightarrow> n)"
  by (cases b) simp_all

lemmas yields_rules =
  yields_replyE yields_bindE yields_if yields_option yields_res yields_prod yields_bool yields_basic

section \<open>The replies of the commands\<close>

lemma replies_strings:
  "yields writable (redisGet args)" "yields writable (redisSetNX args)"
  "yields writable (redisSetEX args ms)" "yields writable (redisGetSet args)"
  "yields writable (redisGetDel args)" "yields writable (redisGetEx host args)"
  "yields writable (redisMSet args)" "yields writable (redisMSetNX args)"
  "yields writable (redisStrLen args)" "yields writable (redisAppend args)"
  "yields writable (redisDelete args)" "yields writable (redisExists args)"
  "yields writable (redisTypeCommand args)" "yields writable (redisExpireCommand args command)"
  "yields writable (redisTTLCommand args command)" "yields writable (redisPersistCommand args)"
  unfolding redisGet_def redisSetNX_def redisSetEX_def redisGetSet_def redisGetDel_def redisGetEx_def
    redisMSet_def redisMSetNX_def redisStrLen_def redisAppend_def redisDelete_def redisExists_def
    redisTypeCommand_def redisExpireCommand_def redisTTLCommand_def redisPersistCommand_def Let_def
  by (intro yields_rules writable_basic writable_replies)+

lemma replies_set: "yields writable (redisSet host args)"
  unfolding redisSet_def Let_def
  by (intro yields_rules yields_bindE' [where R = writable and m = "if _ then _ else _"]
      writable_basic writable_replies; simp)

lemma list_all_snoc: "list_all P (xs @ [x]) \<longleftrightarrow> list_all P xs \<and> P x"
  by simp

lemma yields_bulks:
  "yields (list_all writable) (foldE (\<lambda>arg items. bindE (m arg) (\<lambda>r. ret (items @ [bulkOrNil r]))) args [])"
  by (rule yields_foldE) (auto intro!: yields_rules)

lemma replies_many: "yields writable (redisMGet args)" "yields writable (redisHMGet args)"
  unfolding redisMGet_def redisHMGet_def
  by (intro yields_replyE yields_if yields_basic(1) writable_replies yields_bindE' [OF yields_bulks]
      writable_array; assumption?)+

lemma replies_counters:
  "yields writable (redisIncrementBig key delta)" "yields writable (redisIncrement key delta)"
  "yields writable (redisIncrementCommand args delta)" "yields writable (redisIncrementByCommand args dec)"
  unfolding redisIncrementCommand_def redisIncrementByCommand_def redisIncrement_def redisIncrementBig_def Let_def
  by (intro yields_rules writable_basic writable_replies)+

lemma replies_hashes:
  "yields writable (redisHSet args)" "yields writable (redisHGet args)"
  "yields writable (redisHGetAll args)" "yields writable (redisHDel args)"
  "yields writable (redisHExists args)" "yields writable (redisHLen args)"
  "yields writable (redisHKeys args)" "yields writable (redisHVals args)"
  "yields writable (redisHIncrBy args)"
  unfolding redisHSet_def redisHGet_def redisHGetAll_def redisHDel_def redisHExists_def redisHLen_def
    redisHKeys_def redisHVals_def redisHIncrBy_def Let_def
  by (intro yields_rules writable_basic writable_replies writable_array; simp add: list_all_iff)+

lemma replies_sIsMember: "yields writable (redisSIsMember args)"
  unfolding redisSIsMember_def
  by (intro yields_rules writable_basic writable_replies)

lemma replies_smLoop: "list_all writable items \<Longrightarrow> yields writable (smIsMemberLoop key members items)"
  by (induction members arbitrary: items)
    (auto intro!: yields_bindE' [OF replies_sIsMember] yields_if)

lemma replies_sets:
  "yields writable (redisSAdd args)" "yields writable (redisSRem args)"
  "yields writable (redisSMIsMember args)" "yields writable (redisSMembers args)"
  "yields writable (redisSCard args)"
  unfolding redisSAdd_def redisSRem_def redisSMIsMember_def redisSMembers_def redisSCard_def
  by (intro yields_rules replies_smLoop writable_basic writable_replies writable_array; simp add: list_all_iff)+

lemma redisListReply_writable: "redisListReply items now = Ok replies \<Longrightarrow> list_all writable replies"
  by (induction items arbitrary: replies) (auto split: res.splits option.splits)

lemma yields_listReply:
  "(\<And>replies. list_all writable replies \<Longrightarrow> yields Q (f replies)) \<Longrightarrow>
   yields Q (bindE (liftR (redisListReply items now)) f)"
  by (rule yields_bindE' [where R = "list_all writable"], rule yields_basic(4))
    (rule redisListReply_writable)

lemma replies_lists:
  "yields writable (redisPush args left)" "yields writable (redisPushX args left)"
  "yields writable (redisLRange args)" "yields writable (redisLLen args)"
  "yields writable (redisPop args left)" "yields writable (redisLTrim args)"
  unfolding redisPush_def redisPushX_def redisPushValues_def redisLRange_def redisLLen_def redisPop_def
    redisLTrim_def Let_def
  by (intro yields_replyE yields_if yields_listReply yields_rules writable_basic writable_replies writable_array; simp)+

lemma scanPage_writable: "scanPage cursor count keys = Ok reply \<Longrightarrow> writable reply"
  by (auto simp: scanPage_def Let_def list_all_iff split: if_splits)

lemma replies_keyspace:
  "yields writable (redisKeysCommand host args)" "yields writable (redisScan host args)"
  "yields writable (redisDBSize host args)" "yields writable (redisFlush args)" "yields writable redisTime"
  unfolding redisKeysCommand_def redisScan_def redisDBSize_def redisFlush_def redisTime_def
  by (intro yields_rules writable_basic writable_replies writable_array; auto simp: list_all_iff scanPage_writable)+

lemma dataCommand_writable:
  assumes "dataCommand host command args = Some m"
  shows "yields writable m"
proof -
  have "m \<in> snd ` set (dataCommands host command args)"
    using assms unfolding dataCommand_def by (force dest: map_of_SomeD)
  then show ?thesis
    unfolding dataCommands_def
    by (auto simp: replies_strings replies_set replies_many replies_counters replies_hashes
        replies_sIsMember replies_sets replies_lists replies_keyspace)
qed

lemma sessionCommand_writable:
  assumes "sessionCommand host command args session = Some reply"
  shows "writable reply"
  using assms
  by (auto simp: sessionCommand_def redisPing_def redisClient_def redisCommandInfo_def redisConfig_def
      redisInfo_def Let_def split: if_splits)

lemma helloLoop_writable:
  "fst (helloLoop host password args session) = Inl reply \<Longrightarrow> writable reply"
proof (induction host password args session rule: helloLoop.induct)
  case (2 host password arg args session)
  then show ?case
    by (cases "helloWord host arg") (auto split: list.splits if_splits)
qed simp

lemma redisHello_writable: "writable (fst (fst (redisHello host args password session)))"
proof (cases "helloLoop host password (drop 2 args) session")
  case (Pair r session')
  show ?thesis
  proof (cases r)
    case (Inl reply)
    with Pair helloLoop_writable [of host password "drop 2 args" session reply]
    show ?thesis by (simp add: redisHello_def Let_def)
  next
    case (Inr u)
    have "list_all writable (helloItems session')" "even (length (helloItems session'))"
      by (simp_all add: helloItems_def)
    with Pair Inr show ?thesis by (simp add: redisHello_def Let_def)
  qed
qed

lemma redisHello_handled: "snd (fst (redisHello host args password session))"
proof (cases "helloLoop host password (drop 2 args) session")
  case (Pair r session')
  then show ?thesis by (cases r) (simp_all add: redisHello_def Let_def)
qed

lemma redisAuth_writable: "writable (fst (redisAuth args password session))"
  by (simp add: redisAuth_def Let_def)

text \<open>The three parts of the dispatcher.\<close>

lemma dispatch_hello:
  assumes "ToUpper (host_upper host) name = ''HELLO''"
  shows "redisDispatch host (name # rest) password st =
    (case redisHello host (name # rest) password (srv_session st) of
       (r, session') \<Rightarrow> (Ok (fst r, False), st\<lparr>srv_session := session'\<rparr>))"
proof -
  obtain reply session' where "redisHello host (name # rest) password (srv_session st) = ((reply, True), session')"
    by (metis redisHello_handled prod.collapse)
  with assms show ?thesis by (simp add: redisDispatch_def)
qed

lemma dispatch_auth:
  assumes "ToUpper (host_upper host) name = ''AUTH''"
  shows "redisDispatch host (name # rest) password st =
    (case redisAuth (name # rest) password (srv_session st) of
       (reply, session') \<Rightarrow> (Ok (reply, False), st\<lparr>srv_session := session'\<rparr>))"
  using assms by (simp add: redisDispatch_def)

lemma dispatch_other:
  assumes "ToUpper (host_upper host) name \<noteq> ''HELLO''" "ToUpper (host_upper host) name \<noteq> ''AUTH''"
  shows "redisDispatch host (name # rest) password st =
    (if ToUpper (host_upper host) name = ''QUIT'' then (Ok (respSimpleString ''OK'', True), st)
     else if password \<noteq> [] \<and> \<not> rs_authed (srv_session st) then (Ok (noAuth, False), st)
     else (case sessionCommand host (ToUpper (host_upper host) name) (name # rest) (srv_session st) of
         Some reply \<Rightarrow> (Ok (reply, False), st)
       | None \<Rightarrow> (case dataCommand host (ToUpper (host_upper host) name) (name # rest) of
             Some m \<Rightarrow> bindE (onDB m) (\<lambda>reply. ret (reply, False)) st
           | None \<Rightarrow> (Ok (respErrorString (''ERR unknown command '' @ [CHR 0x27]
               @ ToUpper (host_upper host) name @ [CHR 0x27]), False), st))))"
proof -
  have "st\<lparr>srv_session := srv_session st\<rparr> = st" by simp
  with assms show ?thesis
    by (simp only: redisDispatch_def Let_def list.case if_False option.case prod.case)
qed

text \<open>A command is answered from the session alone, or is a data command that runs on the store.\<close>

lemma redisDispatch_cases:
  fixes st :: "('s, 'v) serverState"
  obtains (fromSession) reply quit st' where
      "redisDispatch host (name # rest) password st = (Ok (reply, quit), st')"
      "srv_db st' = srv_db st" "writable reply"
  | (onData) m where "dataCommand host (ToUpper (host_upper host) name) (name # rest) = Some m"
      "redisDispatch host (name # rest) password st = bindE (onDB m) (\<lambda>reply. ret (reply, False)) st"
proof -
  let ?command = "ToUpper (host_upper host) name" and ?args = "name # rest"
  consider "?command = ''HELLO''" | "?command = ''AUTH''"
    | (other) "?command \<noteq> ''HELLO''" "?command \<noteq> ''AUTH''" by blast
  then show thesis
  proof cases
    case 1
    show thesis
      using redisHello_writable [of host ?args password "srv_session st"]
      by (intro fromSession [OF dispatch_hello [OF 1, unfolded split_def]]) simp_all
  next
    case 2
    show thesis
      using redisAuth_writable [of ?args password "srv_session st"]
      by (intro fromSession [OF dispatch_auth [OF 2, unfolded split_def]]) simp_all
  next
    case other
    note eq = dispatch_other [OF other, of rest password st]
    show thesis
    proof (cases "?command = ''QUIT'' \<or> (password \<noteq> [] \<and> \<not> rs_authed (srv_session st))")
      case True
      then show thesis
        using eq fromSession [of "respSimpleString ''OK''" True st] fromSession [of noAuth False st]
        by (cases "?command = ''QUIT''") simp_all
    next
      case False
      then have q: "?command \<noteq> ''QUIT''" and a: "\<not> (password \<noteq> [] \<and> \<not> rs_authed (srv_session st))"
        by blast+
      have eq': "redisDispatch host ?args password st =
        (case sessionCommand host ?command ?args (srv_session st) of
           Some reply \<Rightarrow> (Ok (reply, False), st)
         | None \<Rightarrow> (case dataCommand host ?command ?args of
             Some m \<Rightarrow> bindE (onDB m) (\<lambda>reply. ret (reply, False)) st
           | None \<Rightarrow> (Ok (respErrorString (''ERR unknown command '' @ [CHR 0x27] @ ?command @ [CHR 0x27]),
               False), st)))"
        using eq by (simp only: q a if_False)
      show thesis
      proof (cases "sessionCommand host ?command ?args (srv_session st)")
        case (Some reply)
        then show thesis
          using fromSession [of reply False st] eq' sessionCommand_writable [OF Some] by simp
      next
        case none: None
        show thesis
        proof (cases "dataCommand host ?command ?args :: (('s, 'v) DB, respValue) op option")
          case None
          show thesis
            by (rule fromSession [OF eq' [unfolded none None option.case]]) simp_all
        next
          case (Some m)
          show thesis
            by (rule onData [OF Some eq' [unfolded none Some option.case]])
        qed
      qed
    qed
  qed
qed

text \<open>Every reply the dispatcher returns can be written.\<close>

lemma redisDispatch_writable:
  assumes "redisDispatch host args password st = (Ok (reply, quit), st')"
  shows "writable reply"
proof -
  obtain name rest where args: "args = name # rest" using assms by (cases args) (auto simp: redisDispatch_def)
  show ?thesis
  proof (cases rule: redisDispatch_cases [of host name rest password st])
    case (fromSession reply' quit' st'')
    with assms args show ?thesis by simp
  next
    case (onData m)
    with assms args dataCommand_writable [OF onData(1)] show ?thesis
      by (auto simp: bindE_def onDB_def ret_def yields_def split: prod.splits res.splits)
  qed
qed

end
