(* ===== verification/RedisConn.thy ===== *)
theory RedisConn
  imports RedisReplies
begin

text \<open>
  Whole connections: the arguments a client can send, the order of replies, and what a connection
  leaves in the store.
\<close>

section \<open>Arguments\<close>

text \<open>The limits of the parser keep every argument far below the length a storage key can encode.\<close>

definition argOk :: "respValue \<Rightarrow> bool" where
  "argOk v \<longleftrightarrow> length (resp_data v) \<le> 2 ^ 26 \<and> \<bar>resp_value v\<bar> \<le> 2 ^ 63"

lemma ParseInt_bound: "ParseInt 64 s = Inr v \<Longrightarrow> \<bar>v\<bar> \<le> 2 ^ 63"
  by (auto simp: ParseInt_def split: prod.splits if_splits sum.splits)

lemma readRESPLine_bound: "readRESPLine input = Inr (line, rest) \<Longrightarrow> length line \<le> maxRESPLine"
  by (auto simp: readRESPLine_def Let_def split: list.splits if_splits)

lemma readScalar_argOk: "readScalar c input = Inr (v, rest) \<Longrightarrow> argOk v \<and> resp_items v = []"
  by (auto simp: readScalar_def argOk_def maxRESPLine_def split: sum.splits if_splits
      dest!: readRESPLine_bound ParseInt_bound)

lemma readBulk_argOk: "readBulk input = Inr (v, rest) \<Longrightarrow> argOk v \<and> resp_items v = []"
  by (auto simp: readBulk_def argOk_def maxRESPBulk_def respNil_def readFull_def nat_le_iff
      split: sum.splits if_splits)

lemma fieldsLoop_length: "part \<in> set (fieldsLoop s k word) \<Longrightarrow> length part \<le> length word + length s"
proof (induction s arbitrary: k word)
  case (Cons c s)
  then show ?case by (fastforce split: if_splits)
qed (simp split: if_splits)

lemma readInline_argOk: "readInline c input = Inr (v, rest) \<Longrightarrow> argOk v \<and> list_all argOk (resp_items v)"
  by (force simp: readInline_def readRESPLineAfterPrefix_def argOk_def Let_def list_all_iff Fields_def
      maxRESPLine_def split: sum.splits if_splits dest!: readRESPLine_bound fieldsLoop_length)

lemma readItems_argOk:
  assumes "\<And>i v r. item i = Inr (v, r) \<Longrightarrow> argOk v"
  shows "readItems item e n input = Inr (vs, rest) \<Longrightarrow> list_all argOk vs"
proof (induction n arbitrary: input vs)
  case (Suc n)
  then show ?case using assms by (fastforce split: sum.splits if_splits)
qed simp

lemma readRESP_argOk: "readRESP fuel input = Inr (v, rest) \<Longrightarrow> argOk v \<and> list_all argOk (resp_items v)"
proof (induction fuel arbitrary: input v rest)
  case (Suc fuel)
  from Suc.prems obtain c body where input: "input = c # body" by (cases input) auto
  have items: "list_all argOk vs" if "readItems (readRESP fuel) e n i = Inr (vs, r)" for e n i vs r
    using readItems_argOk [OF _ that] Suc.IH by blast
  have a: "argOk v \<and> list_all argOk (resp_items v)" if "readArray (readRESP fuel) body = Inr (v, rest)"
    using that items by (auto simp: readArray_def argOk_def split: sum.splits if_splits)
  have m: "argOk v \<and> list_all argOk (resp_items v)" if "readMap (readRESP fuel) body = Inr (v, rest)"
    using that items by (auto simp: readMap_def argOk_def split: sum.splits if_splits)
  show ?case
    using Suc.prems input a m readBulk_argOk [of body v rest] readScalar_argOk [of c body v rest]
      readInline_argOk [of c body v rest]
    by (auto split: if_splits)
qed simp

lemma FormatInt_lenOk:
  assumes "\<bar>v\<bar> \<le> 2 ^ 63"
  shows "lenOk (FormatInt v)"
proof -
  have "\<bar>v\<bar> < 10 ^ 20" using assms by simp
  then have "length (FormatInt v) \<le> maxRESPLine" by (rule length_FormatInt)
  then show ?thesis by (simp add: lenOk_def maxRESPLine_def)
qed

lemma commandArgsLoop_lenOk:
  "list_all argOk items \<Longrightarrow> commandArgsLoop items = Ok args \<Longrightarrow>
   list_all lenOk args \<and> length args = length items"
proof (induction items arbitrary: args)
  case (Cons item items)
  then obtain arg args' where a: "redisCommandArg item = Ok arg" "commandArgsLoop items = Ok args'"
    "args = arg # args'" by (auto split: res.splits)
  have "lenOk arg"
    using a(1) Cons.prems(1) FormatInt_lenOk [of "resp_value item"]
    by (auto simp: redisCommandArg_def argOk_def lenOk_def split: if_splits)
  with Cons a show ?case by simp
qed simp

lemma readRequest_args:
  assumes "readRequest input = Inr (request, rest)" "redisCommandArgs request = Ok args"
  shows "list_all lenOk args" "args \<noteq> []"
proof -
  have "list_all argOk (resp_items request)" "resp_items request \<noteq> []"
    "commandArgsLoop (resp_items request) = Ok args"
    using assms readRESP_argOk [of "Suc (length input)" input]
    by (auto simp: readRequest_def redisCommandArgs_def simp del: readRESP.simps split: if_splits)
  then show "list_all lenOk args" "args \<noteq> []" using commandArgsLoop_lenOk by fastforce+
qed

section \<open>Commands turn errors into replies\<close>

definition noErr :: "('s, 'a) op \<Rightarrow> bool" where
  "noErr m \<longleftrightarrow> (\<forall>s e s'. m s \<noteq> (Err e, s'))"

lemma noErr_rules:
  "noErr (ret x)" "noErr (replyE n)"
  "(b \<Longrightarrow> noErr m) \<Longrightarrow> (\<not> b \<Longrightarrow> noErr m') \<Longrightarrow> noErr (if b then m else m')"
  "noErr m \<Longrightarrow> (\<And>x. noErr (f x)) \<Longrightarrow> noErr (bindE m f)"
  by (auto simp: noErr_def ret_def replyE_def bindE_def split: prod.splits res.splits)

lemma noErr_commands:
  "noErr (redisIncrementBig key delta)" "noErr (redisSIsMember args)" "noErr redisTime"
  "noErr (redisPushValues key xs left b)" "noErr (redisSetEX args ms)" "noErr (smIsMemberLoop key members items)"
proof -
  show "noErr (redisIncrementBig key delta)" "noErr (redisPushValues key xs left b)"
    unfolding redisIncrementBig_def redisPushValues_def by (rule noErr_rules)+
  show *: "noErr (redisSIsMember args)" for args
    unfolding redisSIsMember_def by (intro noErr_rules)
  show "noErr redisTime" by (simp add: redisTime_def noErr_def bindE_def dbProtocol_Now_def db_now_def ret_def)
  show "noErr (redisSetEX args ms)"
    unfolding redisSetEX_def Let_def by (cases "redisParseInt (args ! 2)") (auto intro!: noErr_rules)
  show "noErr (smIsMemberLoop key members items)"
    by (induction members arbitrary: items) (auto intro!: noErr_rules *)
qed

lemma dataCommand_noErr:
  assumes "dataCommand host command args = Some m"
  shows "noErr m"
proof -
  have "m \<in> snd ` set (dataCommands host command args)"
    using assms unfolding dataCommand_def by (force dest: map_of_SomeD)
  then show ?thesis
    unfolding dataCommands_def redisGet_def redisSet_def redisSetNX_def redisGetSet_def
      redisGetDel_def redisGetEx_def redisMGet_def redisMSet_def redisMSetNX_def redisStrLen_def
      redisAppend_def redisIncrementCommand_def redisIncrementByCommand_def redisIncrement_def
      redisDelete_def redisExists_def redisTypeCommand_def redisExpireCommand_def redisTTLCommand_def
      redisPersistCommand_def redisHSet_def redisHGet_def redisHMGet_def redisHGetAll_def
      redisHDel_def redisHExists_def redisHLen_def redisHKeys_def redisHVals_def redisHIncrBy_def
      redisSAdd_def redisSRem_def redisSMIsMember_def redisSMembers_def redisSCard_def
      redisPush_def redisPushX_def redisLRange_def redisLLen_def redisPop_def redisLTrim_def
      redisScan_def redisKeysCommand_def redisDBSize_def redisFlush_def
    by (auto intro!: noErr_rules noErr_commands)
qed

section \<open>Dispatch keeps the store coherent\<close>

context local_engine
begin

lemma dispatch_inv:
  assumes "inv (srv_db st)" "list_all lenOk args" "args \<noteq> []"
    "redisDispatch host args password st = (r, st')"
  shows "inv (srv_db st')"
    "r \<noteq> Err e" "r = Panic p \<Longrightarrow> ToUpper (host_upper host) (hd args) = ''SCAN''"
proof -
  obtain name rest where args: "args = name # rest" using assms(3) by (cases args) auto
  have "inv (srv_db st') \<and> r \<noteq> Err e \<and> (r = Panic p \<longrightarrow> ToUpper (host_upper host) (hd args) = ''SCAN'')"
  proof (cases rule: redisDispatch_cases [of host name rest password st])
    case (fromSession reply quit st'')
    then show ?thesis using assms args by auto
  next
    case (onData m)
    have eq: "bindE (onDB m) (\<lambda>reply. ret (reply, False)) st = (r, st')"
      using onData(2) assms(4) args by simp
    have noErr: "noErr m" using onData(1) by (rule dataCommand_noErr)
    obtain x db where m: "m (srv_db st) = (x, db)" by (meson surj_pair)
    show ?thesis
    proof (cases "ToUpper (host_upper host) name = ''SCAN''")
      case True
      then have "m = redisScan host args" using onData(1) args by (simp add: dataCommand_def dataCommands_def)
      then have "inv db"
        using redisScan_stable [OF shrinks_inv, of host args] assms(1) m by (fastforce simp: stable_def)
      then show ?thesis using eq m True args noErr
        by (cases x) (auto simp: bindE_def onDB_def ret_def noErr_def)
    next
      case False
      then have "keeps inv m" using dataCommand_keeps onData(1) assms(2) args by blast
      then show ?thesis
        using eq m keepsD [of inv m "srv_db st"] assms(1)
          noErr
        by (cases x) (auto simp: bindE_def onDB_def ret_def noErr_def)
    qed
  qed
  then show "inv (srv_db st')" "r \<noteq> Err e" "r = Panic p \<Longrightarrow> ToUpper (host_upper host) (hd args) = ''SCAN''"
    by blast+
qed

end

section \<open>The requests of a connection\<close>

text \<open>
  The specification of a connection: the requests in the input, in order, each answered by one
  reply until the client quits.
\<close>

function requestsOf :: "bytes \<Rightarrow> respValue list" where
  "requestsOf input = (case readRequest input of
      Inl _ \<Rightarrow> []
    | Inr (request, rest) \<Rightarrow> request # requestsOf rest)"
  by auto
termination
proof (relation "measure length")
  fix input :: bytes and y request rest
  assume "readRequest input = Inr y" "(request, rest) = y"
  then show "(rest, input) \<in> measure length"
    using readRESP_consumes [of "Suc (length input)"]
    by (auto simp: readRequest_def consumes_def simp del: readRESP.simps)
qed simp

declare requestsOf.simps [simp del]

primrec runRequests ::
  "redisHost \<Rightarrow> bytes \<Rightarrow> respValue list \<Rightarrow> ('s, 'v) serverState \<Rightarrow>
   respValue list \<times> connEnd \<times> ('s, 'v) serverState" where
  "runRequests host password [] st = ([], ConnClosed, st)"
| "runRequests host password (request # requests) st = (case redisCommandArgs request of
      Err e \<Rightarrow> apfst (Cons (respErrorString (''ERR '' @ err_text e))) (runRequests host password requests st)
    | Panic p \<Rightarrow> ([], ConnPanic p, st)
    | Ok args \<Rightarrow> (case redisDispatch host args password st of
          (Ok (reply, quit), st') \<Rightarrow>
            if quit then ([reply], ConnClosed, st')
            else apfst (Cons reply) (runRequests host password requests st')
        | (Err e, st') \<Rightarrow> ([], ConnClosed, st')
        | (Panic p, st') \<Rightarrow> ([], ConnPanic p, st')))"

definition encodeReply :: "respValue \<Rightarrow> bytes" where
  "encodeReply v = (case writeRESP v of Inr out \<Rightarrow> out | Inl _ \<Rightarrow> [])"

lemma writable_encode: "writable v \<Longrightarrow> writeRESP v = Inr (encodeReply v)"
  by (auto simp: writable_def encodeReply_def)

lemma runRequests_writable: "list_all writable (fst (runRequests host password requests st))"
proof (induction requests arbitrary: st)
  case (Cons request requests)
  then show ?case
    using redisDispatch_writable
    by (fastforce split: res.splits prod.splits if_splits)
qed simp

lemma serveLoop_runs:
  assumes "length input < fuel"
  shows "serveLoop fuel host password input st out =
    (case runRequests host password (requestsOf input) st of
       (replies, ending, st') \<Rightarrow> (out @ concat (map encodeReply replies), ending, st'))"
  using assms
proof (induction fuel arbitrary: input st out)
  case (Suc fuel)
  show ?case
  proof (cases "readRequest input")
    case (Inl e)
    then show ?thesis by (simp add: requestsOf.simps [of input])
  next
    case (Inr x)
    then obtain request rest where req: "readRequest input = Inr (request, rest)" by (cases x) auto
    then have "length rest < fuel"
      using readRESP_consumes [of "Suc (length input)"] Suc.prems
      by (fastforce simp: readRequest_def consumes_def simp del: readRESP.simps)
    note IH = Suc.IH [OF this]
    have rs: "requestsOf input = request # requestsOf rest"
      using req by (simp add: requestsOf.simps [of input])
    show ?thesis
    proof (cases "redisCommandArgs request")
      case (Ok args)
      obtain r st' where d: "redisDispatch host args password st = (r, st')" by (meson surj_pair)
      show ?thesis
      proof (cases r)
        case (Ok y)
        then obtain reply quit where y: "r = Ok (reply, quit)" by (cases y) auto
        then have w: "writeRESP reply = Inr (encodeReply reply)"
          using d redisDispatch_writable writable_encode by blast
        show ?thesis
          using \<open>redisCommandArgs request = Ok args\<close> d y w req rs
          by (simp add: IH split: prod.split)
      qed (use \<open>redisCommandArgs request = Ok args\<close> d req rs in simp_all)
    next
      case (Err e)
      have "writeRESP (respErrorString (''ERR '' @ err_text e))
          = Inr (encodeReply (respErrorString (''ERR '' @ err_text e)))"
        by (rule writable_encode) simp
      with Err req rs show ?thesis by (simp add: IH split: prod.split)
    qed (simp add: req rs)
  qed
qed simp

text \<open>
  C23. A connection answers the requests in its input strictly in order, one reply each: what it
  writes is the encodings of the replies of running the requests one after the other, every reply
  can be encoded, and the loop has fuel enough for every input.
\<close>

theorem connection_in_order:
  "serveRedisConnection host password input st =
     (case runRequests host password (requestsOf input) st of
        (replies, ending, st') \<Rightarrow> (concat (map encodeReply replies), ending, st'))
   \<and> list_all writable (fst (runRequests host password (requestsOf input) st))"
  using serveLoop_runs [of input "Suc (length input)" host password st "[]"] runRequests_writable
  by (simp add: serveRedisConnection_def del: serveLoop.simps)

section \<open>What a connection leaves behind\<close>

definition fromWire :: "respValue \<Rightarrow> bool" where
  "fromWire request \<longleftrightarrow> (\<exists>input rest. readRequest input = Inr (request, rest))"

lemma requestsOf_fromWire: "list_all fromWire (requestsOf input)"
proof (induction input rule: requestsOf.induct)
  case (1 input)
  have "fromWire request" if "readRequest input = Inr (request, rest)" for request rest
    using that by (auto simp: fromWire_def)
  with 1 show ?case by (subst requestsOf.simps) (auto split: sum.split prod.split)
qed

definition isScan :: "redisHost \<Rightarrow> respValue \<Rightarrow> bool" where
  "isScan host request \<longleftrightarrow> (case redisCommandArgs request of
      Ok (name # _) \<Rightarrow> ToUpper (host_upper host) name = ''SCAN''
    | _ \<Rightarrow> False)"

lemma commandArgs_no_panic: "redisCommandArgs request \<noteq> Panic p"
proof -
  have "redisCommandArg v \<noteq> Panic p" for v by (simp add: redisCommandArg_def)
  then have "commandArgsLoop items \<noteq> Panic p" for items by (induction items) (auto split: res.split)
  then show ?thesis by (simp add: redisCommandArgs_def)
qed

context local_engine
begin

lemma runRequests_inv:
  assumes "inv (srv_db st)" "list_all fromWire requests"
    "runRequests host password requests st = (replies, ending, st')"
  shows "inv (srv_db st') \<and> (ending = ConnClosed \<or> list_ex (isScan host) requests)"
  using assms
proof (induction requests arbitrary: st replies)
  case (Cons request requests)
  show ?case
  proof (cases "redisCommandArgs request")
    case (Ok args)
    obtain input rest where "readRequest input = Inr (request, rest)"
      using Cons.prems(2) by (auto simp: fromWire_def)
    note args = readRequest_args [OF this Ok]
    obtain r st1 where d: "redisDispatch host args password st = (r, st1)" by (meson surj_pair)
    note inv1 = dispatch_inv [OF Cons.prems(1) args d]
    show ?thesis
    proof (cases r)
      case (Ok y)
      then obtain reply quit where "r = Ok (reply, quit)" by (cases y) auto
      moreover obtain rs e2 st2 where run: "runRequests host password requests st1 = (rs, e2, st2)"
        by (metis prod_cases3)
      ultimately show ?thesis
        using d \<open>redisCommandArgs request = Ok args\<close> Cons.prems Cons.IH [OF inv1(1)] inv1(1)
        by (cases quit) auto
    next
      case (Err e)
      with inv1(2) show ?thesis by blast
    next
      case (Panic p)
      with inv1(3) args(2) have "isScan host request"
        using \<open>redisCommandArgs request = Ok args\<close> by (cases args) (auto simp: isScan_def)
      with d \<open>redisCommandArgs request = Ok args\<close> Cons.prems Panic inv1(1) show ?thesis by auto
    qed
  next
    case (Err e)
    moreover obtain rs e2 st2 where "runRequests host password requests st = (rs, e2, st2)"
      by (metis prod_cases3)
    ultimately show ?thesis using Cons.prems Cons.IH [OF Cons.prems(1)] by auto
  next
    case (Panic p)
    then show ?thesis using commandArgs_no_panic by blast
  qed
qed simp

end

text \<open>
  C24. Whatever bytes a client sends and whatever the clock does, a connection leaves the store
  open and coherent: every logical key has one representation (scalar, hash, set or list) and no
  record of another. The connection ends by closing, unless the client sent a \<open>SCAN\<close>.
\<close>

theorem connection_coherent:
  assumes "memOpen (srv_db st)" "coherent (storeView (srv_db st))"
    "serveRedisConnection host password input st = (out, ending, st')"
  shows "memOpen (srv_db st') \<and> coherent (storeView (srv_db st')) \<and>
    (ending = ConnClosed \<or> list_ex (isScan host) (requestsOf input))"
proof -
  obtain replies where "runRequests host password (requestsOf input) st = (replies, ending, st')"
    using assms(3) serveLoop_runs [of input "Suc (length input)" host password st "[]"]
    by (auto simp: serveRedisConnection_def simp del: serveLoop.simps split: prod.splits)
  moreover have "mem.inv (srv_db st)" using assms(1,2) by (simp add: mem.inv_def memOpen_dbOk storeView_dbView)
  ultimately show ?thesis
    using mem.runRequests_inv [OF _ requestsOf_fromWire]
    by (simp add: mem.inv_def memOpen_dbOk storeView_dbView)
qed

lemma coherent_empty: "coherent Map.empty"
  by (simp add: coherent_def onlyRepr_def lacksRepr_def)

theorem connection_coherent_witness:
  "memOpen (srv_db (snd (snd (serveRedisConnection \<lparr>host_upper = id, host_mapOrder = id\<rparr> []
      (''HSET k f v'' @ crlf @ ''SET k v'' @ crlf)
      \<lparr>srv_db = memDB [(listKey ''k'', ''x'')], srv_session = newSession [] 1\<rparr>))))"
proof -
  let ?st = "\<lparr>srv_db = memDB [(listKey ''k'', ''x'')], srv_session = newSession [] 1\<rparr>"
  have coh: "coherent (storeView (srv_db ?st))"
    using coherent_put [OF coherent_empty, of ReprList "''k''" "listKey ''k''" "''x''"]
    by (simp add: onlyRepr_def lacksRepr_def lenOk_def)
  have mo: "memOpen (srv_db ?st)" by simp
  obtain out ending st' where eq: "serveRedisConnection \<lparr>host_upper = id, host_mapOrder = id\<rparr> []
      (''HSET k f v'' @ crlf @ ''SET k v'' @ crlf) ?st = (out, ending, st')"
    using prod_cases3 by blast
  from connection_coherent [OF mo coh eq] show ?thesis unfolding eq by simp
qed

section \<open>Authentication\<close>

lemma helloLoop_unauth:
  "password \<noteq> [] \<Longrightarrow> password \<notin> set args \<Longrightarrow> snd (helloLoop host password args session) = session"
proof (induction host password args session rule: helloLoop.induct)
  case (2 host password arg args session)
  then show ?case by (cases "helloWord host arg") (auto split: list.splits)
qed simp

lemma dispatch_unauth:
  assumes "password \<noteq> []" "\<not> rs_authed session" "password \<notin> set (name # rest)"
  shows "\<exists>reply quit. \<forall>db. redisDispatch host (name # rest) password \<lparr>srv_db = db, srv_session = session\<rparr>
     = (Ok (reply, quit), \<lparr>srv_db = db, srv_session = session\<rparr>)"
proof -
  let ?command = "ToUpper (host_upper host) name" and ?args = "name # rest"
  consider "?command = ''HELLO''" | "?command = ''AUTH''"
    | (other) "?command \<noteq> ''HELLO''" "?command \<noteq> ''AUTH''" by blast
  then show ?thesis
  proof cases
    case 1
    have "password \<notin> set (drop 2 ?args)" using assms(3) in_set_dropD by fastforce
    then have "snd (helloLoop host password (drop 2 ?args) session) = session"
      using helloLoop_unauth assms(1) by blast
    then obtain r where "helloLoop host password (drop 2 ?args) session = (r, session)"
      by (metis prod.collapse)
    then have "snd (redisHello host ?args password session) = session"
      using assms(1,2) by (cases r) (simp_all add: redisHello_def Let_def)
    then show ?thesis
      by (intro exI [of _ "fst (fst (redisHello host ?args password session))"] exI [of _ False])
        (simp add: dispatch_hello [OF 1] split_def)
  next
    case 2
    have nth: "i < length ?args \<Longrightarrow> ?args ! i \<noteq> password" for i using assms(3) nth_mem by metis
    have "length ?args = 2 \<Longrightarrow> rest ! 0 \<noteq> password" "length ?args = 3 \<Longrightarrow> rest ! 1 \<noteq> password"
      using nth [of 1] nth [of 2] by simp_all
    then have "snd (redisAuth ?args password session) = session"
      by (simp add: redisAuth_def Let_def)
    then show ?thesis
      by (intro exI [of _ "fst (redisAuth ?args password session)"] exI [of _ False])
        (simp add: dispatch_auth [OF 2] split_def)
  next
    case other
    show ?thesis
      using assms(1,2)
      by (intro exI [of _ "if ?command = ''QUIT'' then respSimpleString ''OK'' else noAuth"]
          exI [of _ "?command = ''QUIT''"])
        (simp add: dispatch_other [OF other])
  qed
qed

lemma redisCommandArgs_nonempty: "redisCommandArgs request = Ok args \<Longrightarrow> args \<noteq> []"
  by (cases "resp_items request") (auto simp: redisCommandArgs_def split: if_splits res.splits)

text \<open>
  C25. On a server with a password, a client that never sends the password can neither change the
  database nor learn anything about it: for every database its requests get the same replies, the
  database (its clock included) stays as it was, and the session stays unauthenticated.
\<close>

theorem auth_gate:
  assumes "password \<noteq> []" "\<not> rs_authed session"
    "\<forall>request\<in>set requests. case redisCommandArgs request of Ok args \<Rightarrow> password \<notin> set args | _ \<Rightarrow> True"
  shows "\<exists>replies ending. \<forall>db :: ('s, 'v) DB. runRequests host password requests \<lparr>srv_db = db, srv_session = session\<rparr>
     = (replies, ending, \<lparr>srv_db = db, srv_session = session\<rparr>)"
  using assms(3)
proof (induction requests)
  case (Cons request requests)
  then obtain replies ending where IH: "\<And>db :: ('s, 'v) DB. runRequests host password requests
      \<lparr>srv_db = db, srv_session = session\<rparr> = (replies, ending, \<lparr>srv_db = db, srv_session = session\<rparr>)"
    by auto
  show ?case
  proof (cases "redisCommandArgs request")
    case (Ok args)
    then obtain name rest where args: "args = name # rest"
      using redisCommandArgs_nonempty by (cases args) auto
    then have "password \<notin> set (name # rest)" using Cons.prems Ok by simp
    from dispatch_unauth [OF assms(1,2) this, of host] obtain reply quit where
      "\<And>db :: ('s, 'v) DB. redisDispatch host (name # rest) password \<lparr>srv_db = db, srv_session = session\<rparr>
         = (Ok (reply, quit), \<lparr>srv_db = db, srv_session = session\<rparr>)" by blast
    then show ?thesis
      using Ok args IH
      by (intro exI [of _ "if quit then [reply] else reply # replies"] exI [of _ "if quit then ConnClosed else ending"])
        simp
  next
    case (Err e)
    then show ?thesis using IH
      by (intro exI [of _ "respErrorString (''ERR '' @ err_text e) # replies"] exI [of _ ending]) simp
  qed (simp add: commandArgs_no_panic)
qed simp

theorem auth_gate_witness:
  "\<exists>replies ending. \<forall>db :: (memoryDriverEngine, unit) DB.
     runRequests \<lparr>host_upper = id, host_mapOrder = id\<rparr> ''secret''
       [respArrayValues [respBulkString ''AUTH'', respBulkString ''guess''],
        respArrayValues [respBulkString ''FLUSHALL'']]
       \<lparr>srv_db = db, srv_session = newSession ''secret'' 1\<rparr>
     = (replies, ending, \<lparr>srv_db = db, srv_session = newSession ''secret'' 1\<rparr>)"
  by (rule auth_gate)
    (simp_all add: newSession_def redisCommandArgs_def redisCommandArg_def resp_value_defs)

end
