(* ===== verification/Keyspace.thy ===== *)
theory Keyspace
  imports RedisConn
begin

text \<open>
  An abstract Redis key space and its commands: a key is absent or holds a string, a hash, a set
  or a list together with a deadline (0 for none). A key whose deadline has passed is removed when
  a command looks at it. The commands are written on this state alone; \<open>KeyspaceRep\<close> relates it to
  the records of the store.
\<close>

datatype robj = RString bytes | RHash "bytes \<Rightarrow> bytes option" | RSet "bytes set" | RList "bytes list"

type_synonym keyspace = "bytes \<Rightarrow> (robj \<times> int) option"

definition alive :: "time \<Rightarrow> (robj \<times> int) option \<Rightarrow> (robj \<times> int) option" where
  "alive t r = (case r of None \<Rightarrow> None | Some (x, e) \<Rightarrow> if 0 < e \<and> e \<le> t then None else Some (x, e))"

definition purge :: "time \<Rightarrow> bytes \<Rightarrow> keyspace \<Rightarrow> keyspace" where
  "purge t key A = A(key := alive t (A key))"

definition visible :: "time \<Rightarrow> keyspace \<Rightarrow> keyspace" where
  "visible t A = (\<lambda>key. alive t (A key))"

definition typeName :: "(robj \<times> int) option \<Rightarrow> bytes" where
  "typeName r = (case r of
      None \<Rightarrow> redisTypeNone
    | Some (RString _, _) \<Rightarrow> redisTypeString
    | Some (RHash _, _) \<Rightarrow> redisTypeHash
    | Some (RSet _, _) \<Rightarrow> redisTypeSet
    | Some (RList _, _) \<Rightarrow> redisTypeList)"

lemma typeName_simps [simp]:
  "typeName None = redisTypeNone" "typeName (Some (RString v, e)) = redisTypeString"
  "typeName (Some (RHash h, e)) = redisTypeHash" "typeName (Some (RSet S, e)) = redisTypeSet"
  "typeName (Some (RList xs, e)) = redisTypeList"
  by (simp_all add: typeName_def)

lemma typeName_none_iff [simp]: "typeName r = redisTypeNone \<longleftrightarrow> r = None"
  by (auto simp: typeName_def split: option.split prod.split robj.split)

lemma purge_same [simp]: "purge t key A key = alive t (A key)"
  by (simp add: purge_def)

lemma purge_other [simp]: "key' \<noteq> key \<Longrightarrow> purge t key A key' = A key'"
  by (simp add: purge_def)

lemma alive_alive [simp]: "alive t (alive t r) = alive t r"
  by (auto simp: alive_def split: option.split)

lemma purge_purge [simp]: "purge t key (purge t key A) = purge t key A"
  by (simp add: purge_def)

lemma purge_upd [simp]: "(purge t key A)(key := x) = A(key := x)"
  by (simp add: purge_def)

lemma purge_live: "alive t (A key) = A key \<Longrightarrow> purge t key A = A"
  by (simp add: purge_def fun_upd_idem)

lemma alive_Some_iff: "alive t r = Some (x, e) \<longleftrightarrow> r = Some (x, e) \<and> \<not> (0 < e \<and> e \<le> t)"
  by (auto simp: alive_def split: option.split)

text \<open>A key as the collection a command wants: absent is empty, another type is \<open>None\<close>.\<close>

definition asHash :: "(robj \<times> int) option \<Rightarrow> ((bytes \<Rightarrow> bytes option) \<times> int) option" where
  "asHash r = (case r of None \<Rightarrow> Some (Map.empty, 0) | Some (RHash h, e) \<Rightarrow> Some (h, e) | _ \<Rightarrow> None)"

definition asSet :: "(robj \<times> int) option \<Rightarrow> (bytes set \<times> int) option" where
  "asSet r = (case r of None \<Rightarrow> Some ({}, 0) | Some (RSet S, e) \<Rightarrow> Some (S, e) | _ \<Rightarrow> None)"

definition asList :: "(robj \<times> int) option \<Rightarrow> (bytes list \<times> int) option" where
  "asList r = (case r of None \<Rightarrow> Some ([], 0) | Some (RList xs, e) \<Rightarrow> Some (xs, e) | _ \<Rightarrow> None)"

lemmas as_defs = asHash_def asSet_def asList_def

text \<open>A hash, set or list object, or no key when it is empty.\<close>

definition hashObj :: "(bytes \<Rightarrow> bytes option) \<Rightarrow> int \<Rightarrow> (robj \<times> int) option" where
  "hashObj h e = (if h = Map.empty then None else Some (RHash h, e))"

definition setObj :: "bytes set \<Rightarrow> int \<Rightarrow> (robj \<times> int) option" where
  "setObj S e = (if S = {} then None else Some (RSet S, e))"

definition listObj :: "bytes list \<Rightarrow> int \<Rightarrow> (robj \<times> int) option" where
  "listObj xs e = (if xs = [] then None else Some (RList xs, e))"

definition wrongTypeReply :: respValue where
  "wrongTypeReply = respErrorString (sentinel_text ErrRedisWrongType)"

section \<open>Commands on the key space\<close>

text \<open>
  \<open>onKey t key A f\<close> looks at a key after removing it if it has expired; \<open>f\<close> gives the reply and the
  key space it leaves.
\<close>

type_synonym spec = "keyspace \<Rightarrow> respValue \<times> keyspace"

definition onKey ::
  "time \<Rightarrow> bytes \<Rightarrow> keyspace \<Rightarrow> ((robj \<times> int) option \<Rightarrow> keyspace \<Rightarrow> respValue \<times> keyspace) \<Rightarrow> respValue \<times> keyspace" where
  "onKey t key A f = (let A' = purge t key A in f (A' key) A')"

definition arity :: "bool \<Rightarrow> spec \<Rightarrow> spec" where
  "arity ok f A = (if ok then f A else (redisSyntaxError, A))"

definition specGet :: "time \<Rightarrow> bytes list \<Rightarrow> spec" where
  "specGet t args = arity (length args = 2) (\<lambda>A. onKey t (args ! 1) A (\<lambda>r A'.
     (case r of None \<Rightarrow> respNil | Some (RString v, _) \<Rightarrow> respBulkBytes v | _ \<Rightarrow> wrongTypeReply, A')))"

definition specStrLen :: "time \<Rightarrow> bytes list \<Rightarrow> spec" where
  "specStrLen t args = arity (length args = 2) (\<lambda>A. onKey t (args ! 1) A (\<lambda>r A'.
     (case r of None \<Rightarrow> respIntegerValue 0 | Some (RString v, _) \<Rightarrow> respIntegerValue (int (length v))
      | _ \<Rightarrow> wrongTypeReply, A')))"

definition specType :: "time \<Rightarrow> bytes list \<Rightarrow> spec" where
  "specType t args = arity (length args = 2) (\<lambda>A. onKey t (args ! 1) A (\<lambda>r A'.
     (respSimpleString (typeName r), A')))"

definition specSetNX :: "time \<Rightarrow> bytes list \<Rightarrow> spec" where
  "specSetNX t args = arity (length args = 3) (\<lambda>A. onKey t (args ! 1) A (\<lambda>r A'.
     if r \<noteq> None then (respIntegerValue 0, A')
     else (respIntegerValue 1, A'(args ! 1 \<mapsto> (RString (args ! 2), 0)))))"

definition specGetSet :: "time \<Rightarrow> bytes list \<Rightarrow> spec" where
  "specGetSet t args = arity (length args = 3) (\<lambda>A. onKey t (args ! 1) A (\<lambda>r A'.
     let A'' = A'(args ! 1 \<mapsto> (RString (args ! 2), 0)) in
     case r of None \<Rightarrow> (respNil, A'') | Some (RString v, _) \<Rightarrow> (respBulkBytes v, A'')
     | _ \<Rightarrow> (wrongTypeReply, A')))"

definition specGetDel :: "time \<Rightarrow> bytes list \<Rightarrow> spec" where
  "specGetDel t args = arity (length args = 2) (\<lambda>A. onKey t (args ! 1) A (\<lambda>r A'.
     case r of None \<Rightarrow> (respNil, A') | Some (RString v, _) \<Rightarrow> (respBulkBytes v, A'(args ! 1 := None))
     | _ \<Rightarrow> (wrongTypeReply, A')))"

definition specAppend :: "time \<Rightarrow> bytes list \<Rightarrow> spec" where
  "specAppend t args = arity (length args = 3) (\<lambda>A. onKey t (args ! 1) A (\<lambda>r A'.
     let put = (\<lambda>v e. (respIntegerValue (int (length v)), A'(args ! 1 \<mapsto> (RString v, e)))) in
     case r of None \<Rightarrow> put (args ! 2) 0 | Some (RString v, e) \<Rightarrow> put (v @ args ! 2) e
     | _ \<Rightarrow> (wrongTypeReply, A')))"

definition notInteger :: respValue where
  "notInteger = respErrorString ''ERR value is not an integer or out of range''"

definition specIncrBy :: "time \<Rightarrow> bytes \<Rightarrow> int \<Rightarrow> spec" where
  "specIncrBy t key delta A = onKey t key A (\<lambda>r A'.
     let add = (\<lambda>v e. if isInt64 (v + delta)
           then (respIntegerValue (v + delta), A'(key \<mapsto> (RString (FormatInt (v + delta)), e)))
           else (respErrorString ''ERR increment or decrement would overflow'', A')) in
     case r of None \<Rightarrow> add 0 0
     | Some (RString s, e) \<Rightarrow> (case bigSetString s of Some v \<Rightarrow> add v e | None \<Rightarrow> (notInteger, A'))
     | _ \<Rightarrow> (wrongTypeReply, A'))"

definition withInt :: "bytes \<Rightarrow> (int \<Rightarrow> spec) \<Rightarrow> spec" where
  "withInt arg f A = (case ParseInt 64 arg of Inr n \<Rightarrow> f n A | Inl _ \<Rightarrow> (notInteger, A))"

definition specIncr :: "time \<Rightarrow> bytes list \<Rightarrow> int \<Rightarrow> spec" where
  "specIncr t args delta = arity (length args = 2) (specIncrBy t (args ! 1) delta)"

definition specIncrByCommand :: "time \<Rightarrow> bytes list \<Rightarrow> bool \<Rightarrow> spec" where
  "specIncrByCommand t args decrement = arity (length args = 3)
     (withInt (args ! 2) (\<lambda>n. specIncrBy t (args ! 1) (if decrement then - n else n)))"

subsection \<open>Deadlines\<close>

text \<open>\<open>n\<close> units from now or from the epoch, when the sum is a representable time.\<close>

definition deadline :: "time \<Rightarrow> int \<Rightarrow> bool \<Rightarrow> int \<Rightarrow> int option" where
  "deadline t unit absolute n =
     (let e = (if absolute then n * unit else t + n * unit) in
      if isInt64 (n * unit) \<and> isInt64 e then Some e else None)"

definition specExpire :: "time \<Rightarrow> bytes list \<Rightarrow> int \<Rightarrow> bool \<Rightarrow> spec" where
  "specExpire t args unit absolute = arity (length args = 3) (withInt (args ! 2) (\<lambda>n A.
     case deadline t unit absolute n of
       None \<Rightarrow> (respErrorString ''ERR invalid expire time'', A)
     | Some e \<Rightarrow> onKey t (args ! 1) A (\<lambda>r A'. case r of
           None \<Rightarrow> (respIntegerValue 0, A')
         | Some (x, _) \<Rightarrow> (respIntegerValue 1,
             if e \<le> t then A'(args ! 1 := None) else A'(args ! 1 \<mapsto> (x, e))))))"

definition specPersist :: "time \<Rightarrow> bytes list \<Rightarrow> spec" where
  "specPersist t args = arity (length args = 2) (\<lambda>A. onKey t (args ! 1) A (\<lambda>r A'. case r of
      None \<Rightarrow> (respIntegerValue 0, A')
    | Some (x, e) \<Rightarrow> if e = 0 then (respIntegerValue 0, A')
                     else (respIntegerValue 1, A'(args ! 1 \<mapsto> (x, 0)))))"

text \<open>The remaining lifetime in units of \<open>unit\<close> nanoseconds, rounded down but at least 1.\<close>

definition specTTL :: "time \<Rightarrow> bytes list \<Rightarrow> int \<Rightarrow> spec" where
  "specTTL t args unit = arity (length args = 2) (\<lambda>A. onKey t (args ! 1) A (\<lambda>r A'.
     (respIntegerValue (case r of None \<Rightarrow> -2 | Some (_, e) \<Rightarrow>
        if e = 0 then -1 else max 1 ((e - t) div unit)), A')))"

definition specSetEX :: "time \<Rightarrow> bytes list \<Rightarrow> int \<Rightarrow> spec" where
  "specSetEX t args unit = arity (length args = 4) (\<lambda>A.
     case ParseInt 64 (args ! 2) of
       Inr n \<Rightarrow> (case (if 0 < n then deadline t unit False n else None) of
           Some e \<Rightarrow> (respSimpleString ''OK'', A(args ! 1 \<mapsto> (RString (args ! 3), e)))
         | None \<Rightarrow> (respErrorString ''ERR invalid expire time in set'', A))
     | Inl _ \<Rightarrow> (respErrorString ''ERR invalid expire time in set'', A))"

text \<open>
  The options of \<open>SET\<close>: at most one of \<open>NX\<close> and \<open>XX\<close>, at most one deadline, and no deadline
  before a \<open>KEEPTTL\<close>.
\<close>

fun setOptionsAt :: "time \<Rightarrow> redisHost \<Rightarrow> bytes list \<Rightarrow> redisSetOptions \<Rightarrow> redisSetOptions res" where
  "setOptionsAt t host [] opt = Ok opt"
| "setOptionsAt t host (arg # args) opt = (case setWord host arg of
      WordNX \<Rightarrow> if so_xx opt then Err errSyntax else setOptionsAt t host args (opt\<lparr>so_nx := True\<rparr>)
    | WordXX \<Rightarrow> if so_nx opt then Err errSyntax else setOptionsAt t host args (opt\<lparr>so_xx := True\<rparr>)
    | WordGET \<Rightarrow> setOptionsAt t host args (opt\<lparr>so_get := True\<rparr>)
    | WordKEEPTTL \<Rightarrow> if so_hasExpiry opt then Err errSyntax
                     else setOptionsAt t host args (opt\<lparr>so_keepTTL := True\<rparr>)
    | WordExpire unit absolute \<Rightarrow> (case args of
          [] \<Rightarrow> Err errSyntax
        | amount # args' \<Rightarrow> if so_hasExpiry opt then Err errSyntax else
            (case ParseInt 64 amount of
               Inl _ \<Rightarrow> Err errNotInteger
             | Inr n \<Rightarrow> (case (if 0 < n then deadline t unit absolute n else None) of
                   None \<Rightarrow> Err errSetExpire
                 | Some e \<Rightarrow> setOptionsAt t host args' (opt\<lparr>so_expiresAt := e, so_hasExpiry := True\<rparr>))))
    | WordOther \<Rightarrow> Err errSyntax)"

definition noSetOptions :: redisSetOptions where
  "noSetOptions = \<lparr>so_expiresAt = 0, so_hasExpiry = False, so_nx = False, so_xx = False,
     so_get = False, so_keepTTL = False\<rparr>"

definition specSet :: "time \<Rightarrow> redisHost \<Rightarrow> bytes list \<Rightarrow> spec" where
  "specSet t host args = arity (3 \<le> length args) (\<lambda>A.
     case setOptionsAt t host (drop 3 args) noSetOptions of
       Ok opt \<Rightarrow> onKey t (args ! 1) A (\<lambda>r A'.
         let keep = (case r of Some (_, e) \<Rightarrow> e | None \<Rightarrow> 0);
             e = (if so_hasExpiry opt then so_expiresAt opt else if so_keepTTL opt then keep else 0);
             A'' = A'(args ! 1 := alive t (Some (RString (args ! 2), e)))
         in if so_nx opt \<and> r \<noteq> None \<or> so_xx opt \<and> r = None then (respNil, A')
            else if \<not> so_get opt then (respSimpleString ''OK'', A'')
            else (case r of None \<Rightarrow> (respNil, A'') | Some (RString v, _) \<Rightarrow> (respBulkBytes v, A'')
                  | _ \<Rightarrow> (wrongTypeReply, A')))
     | Err err \<Rightarrow> (redisErrorReply (Some err), A)
     | Panic _ \<Rightarrow> (respNil, A))"

definition errGetexReply :: respValue where
  "errGetexReply = respErrorString ''ERR invalid expire time in getex''"

text \<open>The unit and the origin of an option of \<open>GETEX\<close>.\<close>

definition getexWord :: "redisHost \<Rightarrow> bytes \<Rightarrow> (int \<times> bool) option" where
  "getexWord host arg = (case setWord host arg of WordExpire unit absolute \<Rightarrow> Some (unit, absolute) | _ \<Rightarrow> None)"

definition specGetEx :: "time \<Rightarrow> redisHost \<Rightarrow> bytes list \<Rightarrow> spec" where
  "specGetEx t host args = arity (2 \<le> length args) (\<lambda>A. onKey t (args ! 1) A (\<lambda>r A'. case r of
      None \<Rightarrow> (respNil, A')
    | Some (RString v, e) \<Rightarrow>
        if length args = 2 then (respBulkBytes v, A')
        else if length args = 3 \<and> EqualFold (args ! 2) ''PERSIST''
        then (respBulkBytes v, A'(args ! 1 \<mapsto> (RString v, 0)))
        else if length args \<noteq> 4 then (redisSyntaxError, A')
        else (case ParseInt 64 (args ! 3) of
            Inl _ \<Rightarrow> (errGetexReply, A')
          | Inr n \<Rightarrow> (case getexWord host (args ! 2) of
                None \<Rightarrow> (redisSyntaxError, A')
              | Some (unit, absolute) \<Rightarrow>
                  (case (if \<not> absolute \<and> n \<le> 0 then None else deadline t unit absolute n) of
                     None \<Rightarrow> (errGetexReply, A')
                   | Some e' \<Rightarrow> (respBulkBytes v,
                       if e' \<le> t then A'(args ! 1 := None) else A'(args ! 1 \<mapsto> (RString v, e'))))))
    | _ \<Rightarrow> (wrongTypeReply, A')))"

subsection \<open>Several keys\<close>

primrec specDelKeys :: "bytes list \<Rightarrow> int \<Rightarrow> spec" where
  "specDelKeys [] n A = (respIntegerValue n, A)"
| "specDelKeys (key # keys) n A = specDelKeys keys (if A key = None then n else n + 1) (A(key := None))"

definition specDel :: "bytes list \<Rightarrow> spec" where
  "specDel args = arity (2 \<le> length args) (specDelKeys (tl args) 0)"

primrec specExistsKeys :: "time \<Rightarrow> bytes list \<Rightarrow> int \<Rightarrow> spec" where
  "specExistsKeys t [] n A = (respIntegerValue n, A)"
| "specExistsKeys t (key # keys) n A =
     specExistsKeys t keys (if alive t (A key) = None then n else n + 1) (purge t key A)"

definition specExists :: "time \<Rightarrow> bytes list \<Rightarrow> spec" where
  "specExists t args = arity (2 \<le> length args) (specExistsKeys t (tl args) 0)"

primrec specMGetKeys :: "time \<Rightarrow> bytes list \<Rightarrow> respValue list \<Rightarrow> spec" where
  "specMGetKeys t [] items A = (respArrayValues items, A)"
| "specMGetKeys t (key # keys) items A = onKey t key A (\<lambda>r A'. case r of
      None \<Rightarrow> specMGetKeys t keys (items @ [respNil]) A'
    | Some (RString v, _) \<Rightarrow> specMGetKeys t keys (items @ [respBulkBytes v]) A'
    | _ \<Rightarrow> (wrongTypeReply, A'))"

definition specMGet :: "time \<Rightarrow> bytes list \<Rightarrow> spec" where
  "specMGet t args = arity (2 \<le> length args) (specMGetKeys t (tl args) [])"

fun putPairs :: "bytes list \<Rightarrow> keyspace \<Rightarrow> keyspace" where
  "putPairs (key # v # rest) A = putPairs rest (A(key \<mapsto> (RString v, 0)))"
| "putPairs _ A = A"

definition specMSet :: "bytes list \<Rightarrow> spec" where
  "specMSet args = arity (3 \<le> length args \<and> odd (length args))
     (\<lambda>A. (respSimpleString ''OK'', putPairs (tl args) A))"

fun anyAlive :: "time \<Rightarrow> bytes list \<Rightarrow> keyspace \<Rightarrow> bool \<times> keyspace" where
  "anyAlive t [] A = (False, A)"
| "anyAlive t (key # rest) A =
     (if alive t (A key) \<noteq> None then (True, purge t key A) else anyAlive t (drop 1 rest) (purge t key A))"

definition specMSetNX :: "time \<Rightarrow> bytes list \<Rightarrow> spec" where
  "specMSetNX t args = arity (3 \<le> length args \<and> odd (length args)) (\<lambda>A.
     case anyAlive t (tl args) A of
       (True, A') \<Rightarrow> (respIntegerValue 0, A')
     | (False, A') \<Rightarrow> (respIntegerValue 1, putPairs (tl args) A'))"

subsection \<open>The key space as a whole\<close>

text \<open>The live keys, of the length that the storage format can hold.\<close>

definition liveKeys :: "time \<Rightarrow> keyspace \<Rightarrow> bytes set" where
  "liveKeys t A = {key. lenOk key \<and> alive t (A key) \<noteq> None}"

definition specKeys :: "time \<Rightarrow> bytes list \<Rightarrow> spec" where
  "specKeys t args = arity (length args = 2) (\<lambda>A. (respArrayValues (map respBulkString
     (filter (redisPatternMatch (args ! 1)) (sorted_list_of_set (liveKeys t A)))), visible t A))"

definition specDBSize :: "time \<Rightarrow> bytes list \<Rightarrow> spec" where
  "specDBSize t args = arity (length args = 1) (\<lambda>A. (respIntegerValue (int (card (liveKeys t A))), visible t A))"

definition specFlush :: "bytes list \<Rightarrow> spec" where
  "specFlush args = arity (length args \<le> 2) (\<lambda>A. (respSimpleString ''OK'', \<lambda>_. None))"

definition specTime :: "time \<Rightarrow> spec" where
  "specTime t A = (respArrayValues [respBulkString (FormatInt (t div nanosPerSecond)),
     respBulkString (FormatInt (t mod nanosPerSecond div 1000))], A)"

subsection \<open>Hashes\<close>

definition onHash :: "time \<Rightarrow> bytes \<Rightarrow> keyspace \<Rightarrow>
    ((bytes \<Rightarrow> bytes option) \<Rightarrow> int \<Rightarrow> keyspace \<Rightarrow> respValue \<times> keyspace) \<Rightarrow> respValue \<times> keyspace" where
  "onHash t key A f = onKey t key A (\<lambda>r A'. case asHash r of
     Some (h, e) \<Rightarrow> f h e A' | None \<Rightarrow> (wrongTypeReply, A'))"

fun putFields :: "bytes list \<Rightarrow> (bytes \<Rightarrow> bytes option) \<Rightarrow> bytes \<Rightarrow> bytes option" where
  "putFields (field # v # rest) h = putFields rest (h(field \<mapsto> v))"
| "putFields _ h = h"

text \<open>The reply to \<open>HSET\<close> is the number of fields that are new.\<close>

definition specHSet :: "time \<Rightarrow> bytes list \<Rightarrow> spec" where
  "specHSet t args = arity (4 \<le> length args \<and> even (length args)) (\<lambda>A.
     onHash t (args ! 1) A (\<lambda>h e A'. let h' = putFields (drop 2 args) h in
       (respIntegerValue (int (card (dom h' - dom h))), A'(args ! 1 \<mapsto> (RHash h', e)))))"

definition bulkValue :: "bytes option \<Rightarrow> respValue" where
  "bulkValue r = (case r of Some v \<Rightarrow> respBulkBytes v | None \<Rightarrow> respNil)"

definition boolReply :: "bool \<Rightarrow> respValue" where
  "boolReply b = respIntegerValue (if b then 1 else 0)"

definition specHGet :: "time \<Rightarrow> bytes list \<Rightarrow> spec" where
  "specHGet t args = arity (length args = 3) (\<lambda>A.
     onHash t (args ! 1) A (\<lambda>h e A'. (bulkValue (h (args ! 2)), A')))"

definition specHMGet :: "time \<Rightarrow> bytes list \<Rightarrow> spec" where
  "specHMGet t args = arity (3 \<le> length args) (\<lambda>A.
     onHash t (args ! 1) A (\<lambda>h e A'. (respArrayValues (map (\<lambda>f. bulkValue (h f)) (drop 2 args)), A')))"

definition fieldsOf :: "(bytes \<Rightarrow> bytes option) \<Rightarrow> bytes list" where
  "fieldsOf h = sorted_list_of_set (dom h)"

definition specHGetAll :: "time \<Rightarrow> bytes list \<Rightarrow> spec" where
  "specHGetAll t args = arity (length args = 2) (\<lambda>A. onHash t (args ! 1) A (\<lambda>h e A'.
     (respArrayValues (concat (map (\<lambda>f. [respBulkString f, respBulkBytes (the (h f))]) (fieldsOf h))), A')))"

definition specHKeys :: "time \<Rightarrow> bytes list \<Rightarrow> spec" where
  "specHKeys t args = arity (length args = 2) (\<lambda>A. onHash t (args ! 1) A (\<lambda>h e A'.
     (respArrayValues (map respBulkString (fieldsOf h)), A')))"

definition specHVals :: "time \<Rightarrow> bytes list \<Rightarrow> spec" where
  "specHVals t args = arity (length args = 2) (\<lambda>A. onHash t (args ! 1) A (\<lambda>h e A'.
     (respArrayValues (map (\<lambda>f. respBulkBytes (the (h f))) (fieldsOf h)), A')))"

definition specHLen :: "time \<Rightarrow> bytes list \<Rightarrow> spec" where
  "specHLen t args = arity (length args = 2) (\<lambda>A. onHash t (args ! 1) A (\<lambda>h e A'.
     (respIntegerValue (int (card (dom h))), A')))"

definition specHExists :: "time \<Rightarrow> bytes list \<Rightarrow> spec" where
  "specHExists t args = arity (length args = 3) (\<lambda>A. onHash t (args ! 1) A (\<lambda>h e A'.
     (boolReply (h (args ! 2) \<noteq> None), A')))"

text \<open>A hash, set or list that a command leaves empty is no key any more.\<close>

definition specHDel :: "time \<Rightarrow> bytes list \<Rightarrow> spec" where
  "specHDel t args = arity (3 \<le> length args) (\<lambda>A. onHash t (args ! 1) A (\<lambda>h e A'.
     (respIntegerValue (int (card (set (drop 2 args) \<inter> dom h))),
      A'(args ! 1 := hashObj (h |` (- set (drop 2 args))) e))))"

definition specHIncrBy :: "time \<Rightarrow> bytes list \<Rightarrow> spec" where
  "specHIncrBy t args = arity (length args = 4) (withInt (args ! 3) (\<lambda>n A.
     onHash t (args ! 1) A (\<lambda>h e A'.
       case (case h (args ! 2) of None \<Rightarrow> Some 0 | Some v \<Rightarrow> bigSetString v) of
         None \<Rightarrow> (respErrorString ''ERR hash value is not an integer'', A')
       | Some v \<Rightarrow> if isInt64 (v + n)
           then (respIntegerValue (v + n), A'(args ! 1 \<mapsto> (RHash (h(args ! 2 \<mapsto> FormatInt (v + n))), e)))
           else (respErrorString ''ERR increment or decrement would overflow'', A'))))"

subsection \<open>Sets\<close>

definition onSet :: "time \<Rightarrow> bytes \<Rightarrow> keyspace \<Rightarrow>
    (bytes set \<Rightarrow> int \<Rightarrow> keyspace \<Rightarrow> respValue \<times> keyspace) \<Rightarrow> respValue \<times> keyspace" where
  "onSet t key A f = onKey t key A (\<lambda>r A'. case asSet r of
     Some (S, e) \<Rightarrow> f S e A' | None \<Rightarrow> (wrongTypeReply, A'))"

definition specSAdd :: "time \<Rightarrow> bytes list \<Rightarrow> spec" where
  "specSAdd t args = arity (3 \<le> length args) (\<lambda>A. onSet t (args ! 1) A (\<lambda>S e A'.
     (respIntegerValue (int (card (set (drop 2 args) - S))), A'(args ! 1 \<mapsto> (RSet (S \<union> set (drop 2 args)), e)))))"

definition specSRem :: "time \<Rightarrow> bytes list \<Rightarrow> spec" where
  "specSRem t args = arity (3 \<le> length args) (\<lambda>A. onSet t (args ! 1) A (\<lambda>S e A'.
     (respIntegerValue (int (card (set (drop 2 args) \<inter> S))), A'(args ! 1 := setObj (S - set (drop 2 args)) e))))"

definition specSIsMember :: "time \<Rightarrow> bytes list \<Rightarrow> spec" where
  "specSIsMember t args = arity (length args = 3) (\<lambda>A. onSet t (args ! 1) A (\<lambda>S e A'.
     (boolReply (args ! 2 \<in> S), A')))"

definition specSMIsMember :: "time \<Rightarrow> bytes list \<Rightarrow> spec" where
  "specSMIsMember t args = arity (3 \<le> length args) (\<lambda>A. onSet t (args ! 1) A (\<lambda>S e A'.
     (respArrayValues (map (\<lambda>x. boolReply (x \<in> S)) (drop 2 args)), A')))"

definition specSMembers :: "time \<Rightarrow> bytes list \<Rightarrow> spec" where
  "specSMembers t args = arity (length args = 2) (\<lambda>A. onSet t (args ! 1) A (\<lambda>S e A'.
     (respArrayValues (map respBulkString (sorted_list_of_set S)), A')))"

definition specSCard :: "time \<Rightarrow> bytes list \<Rightarrow> spec" where
  "specSCard t args = arity (length args = 2) (\<lambda>A. onSet t (args ! 1) A (\<lambda>S e A'.
     (respIntegerValue (int (card S)), A')))"

subsection \<open>Lists\<close>

definition onList :: "time \<Rightarrow> bytes \<Rightarrow> keyspace \<Rightarrow>
    (bytes list \<Rightarrow> int \<Rightarrow> keyspace \<Rightarrow> respValue \<times> keyspace) \<Rightarrow> respValue \<times> keyspace" where
  "onList t key A f = onKey t key A (\<lambda>r A'. case asList r of
     Some (xs, e) \<Rightarrow> f xs e A' | None \<Rightarrow> (wrongTypeReply, A'))"

definition specPush :: "time \<Rightarrow> bytes list \<Rightarrow> bool \<Rightarrow> bool \<Rightarrow> spec" where
  "specPush t args left onlyIfExists = arity (3 \<le> length args) (\<lambda>A. onList t (args ! 1) A (\<lambda>xs e A'.
     if onlyIfExists \<and> xs = [] then (respIntegerValue 0, A')
     else let ys = (if left then rev (drop 2 args) @ xs else xs @ drop 2 args) in
       (respIntegerValue (int (length ys)), A'(args ! 1 \<mapsto> (RList ys, e)))))"

text \<open>The elements from index \<open>start\<close> to index \<open>stop\<close>; a negative index counts from the end.\<close>

definition rangeOf :: "bytes list \<Rightarrow> int \<Rightarrow> int \<Rightarrow> bytes list" where
  "rangeOf xs start stop =
     (let at = (\<lambda>i. if i < 0 then int (length xs) + i else i) in
      nths xs {i. at start \<le> int i \<and> int i \<le> at stop})"

definition specLRange :: "time \<Rightarrow> bytes list \<Rightarrow> spec" where
  "specLRange t args = arity (length args = 4) (withInt (args ! 2) (\<lambda>start. withInt (args ! 3) (\<lambda>stop A.
     onList t (args ! 1) A (\<lambda>xs e A'. (respArrayValues (map respBulkBytes (rangeOf xs start stop)), A')))))"

definition specLTrim :: "time \<Rightarrow> bytes list \<Rightarrow> spec" where
  "specLTrim t args = arity (length args = 4) (withInt (args ! 2) (\<lambda>start. withInt (args ! 3) (\<lambda>stop A.
     onList t (args ! 1) A (\<lambda>xs e A'. (respSimpleString ''OK'', A'(args ! 1 := listObj (rangeOf xs start stop) e))))))"

definition specLLen :: "time \<Rightarrow> bytes list \<Rightarrow> spec" where
  "specLLen t args = arity (length args = 2) (\<lambda>A. onList t (args ! 1) A (\<lambda>xs e A'.
     (respIntegerValue (int (length xs)), A')))"

definition specPop :: "time \<Rightarrow> bytes list \<Rightarrow> bool \<Rightarrow> spec" where
  "specPop t args left = arity (length args = 2 \<or> length args = 3) (\<lambda>A. onList t (args ! 1) A (\<lambda>xs e A'.
     if xs = [] then (if length args = 3 then respArrayValues [] else respNil, A')
     else if length args = 2 then
       (respBulkBytes (if left then hd xs else last xs),
        A'(args ! 1 := listObj (if left then tl xs else butlast xs) e))
     else case ParseInt 64 (args ! 2) of
         Inl _ \<Rightarrow> (notInteger, A')
       | Inr n \<Rightarrow> if n < 0 then (notInteger, A')
           else let k = nat (min n (int (length xs)));
                    split = (if left then (take k xs, drop k xs)
                             else (drop (length xs - k) xs, take (length xs - k) xs))
             in (respArrayValues (map respBulkBytes (fst split)), A'(args ! 1 := listObj (snd split) e))))"

end
