(* ===== verification/KeyspaceRep.thy ===== *)
theory KeyspaceRep
  imports Keyspace
begin

text \<open>
  How the records of a store represent the abstract key space, and the storage layer of the Redis
  extension as operations on it, with the clock stopped at a time \<open>t\<close> for the length of a command.
\<close>

section \<open>Representation\<close>

definition recordIs :: "bytes \<Rightarrow> bytes \<Rightarrow> int \<Rightarrow> bool" where
  "recordIs data v e \<longleftrightarrow>
     (\<exists>rec. decodeRecord data = Ok rec \<and> rr_payload rec = v \<and> rr_expiresAt rec = e)"

definition ttlIs :: "int \<Rightarrow> bytes \<Rightarrow> (bytes \<Rightarrow> bytes option) \<Rightarrow> bool" where
  "ttlIs e key m \<longleftrightarrow> m (collectionTTLKey key) = (if e = 0 then None else Some (encodeRedisExpiry e))"

definition objRepr :: "robj \<Rightarrow> repr" where
  "objRepr x = (case x of RString _ \<Rightarrow> ReprScalar | RHash _ \<Rightarrow> ReprHash | RSet _ \<Rightarrow> ReprSet
     | RList _ \<Rightarrow> ReprList)"

definition repData :: "robj \<Rightarrow> int \<Rightarrow> bytes \<Rightarrow> (bytes \<Rightarrow> bytes option) \<Rightarrow> bool" where
  "repData x e key m = (case x of
      RString v \<Rightarrow> (\<exists>data. m (valueKey key) = Some data \<and> recordIs data v e) \<and> ttlIs 0 key m
    | RHash h \<Rightarrow> h \<noteq> Map.empty \<and> ttlIs e key m \<and>
        (\<forall>f. rel_option (\<lambda>data v. recordIs data v 0) (m (namespacedKey kindHash key f)) (h f))
    | RSet S \<Rightarrow> S \<noteq> {} \<and> ttlIs e key m \<and> (\<forall>x. m (namespacedKey kindSet key x) \<noteq> None \<longleftrightarrow> x \<in> S)
    | RList xs \<Rightarrow> xs \<noteq> [] \<and> ttlIs e key m \<and>
        (\<exists>data items. m (listKey key) = Some data \<and> decodeList data = Ok items \<and>
           list_all2 (\<lambda>item v. recordIs item v 0) items xs))"

definition repKey :: "(robj \<times> int) option \<Rightarrow> bytes \<Rightarrow> (bytes \<Rightarrow> bytes option) \<Rightarrow> bool" where
  "repKey r key m = (case r of
      None \<Rightarrow> \<forall>sk. recordOf key sk \<longrightarrow> m sk = None
    | Some (x, e) \<Rightarrow> 0 \<le> e \<and> isInt64 e \<and> onlyRepr (objRepr x) key m \<and> repData x e key m)"

definition owned :: "(bytes \<Rightarrow> bytes option) \<Rightarrow> bool" where
  "owned m \<longleftrightarrow> (\<forall>sk. m sk \<noteq> None \<longrightarrow> (\<exists>key. lenOk key \<and> recordOf key sk))"

definition rep :: "keyspace \<Rightarrow> (bytes \<Rightarrow> bytes option) \<Rightarrow> bool" where
  "rep A m \<longleftrightarrow> owned m \<and> (\<forall>key. lenOk key \<longrightarrow> repKey (A key) key m)"

lemma recordOf_keys [simp]:
  "recordOf key (valueKey key)" "recordOf key (listKey key)" "recordOf key (collectionTTLKey key)"
  "recordOf key (namespacedKey kindHash key f)" "recordOf key (namespacedKey kindSet key f)"
  by (simp_all add: recordOf_def)

lemma recordOf_cases:
  assumes "recordOf key sk"
  obtains (ttl) "sk = collectionTTLKey key" | (data) R where "reprKey R key sk"
proof -
  have "reprKey ReprScalar key (valueKey key)" "reprKey ReprList key (listKey key)" by simp_all
  moreover have "prefix (namespacePrefix kindHash key) sk \<Longrightarrow> reprKey ReprHash key sk"
    "prefix (namespacePrefix kindSet key) sk \<Longrightarrow> reprKey ReprSet key sk" by (simp_all add: reprKey_def)
  ultimately show thesis using assms ttl data unfolding recordOf_def by blast
qed

lemma recordOf_unique: "recordOf key sk \<Longrightarrow> recordOf key' sk \<Longrightarrow> lenOk key \<Longrightarrow> lenOk key' \<Longrightarrow> key' = key"
  by (simp add: recordOf_iff_logicalKey)

lemma onlyRepr_cong:
  assumes "\<And>sk. recordOf key sk \<Longrightarrow> m sk = m' sk"
  shows "onlyRepr R key m = onlyRepr R key m'"
  using assms reprKey_recordOf by (fastforce simp: onlyRepr_def lacksRepr_def)

lemma repKey_cong:
  assumes "\<And>sk. recordOf key sk \<Longrightarrow> m sk = m' sk"
  shows "repKey r key m = repKey r key m'"
  using onlyRepr_cong [OF assms] assms
  by (simp add: repKey_def repData_def ttlIs_def split: option.split prod.split robj.split)

lemma rep_update:
  assumes "rep A m" "lenOk key" "\<And>sk. \<not> recordOf key sk \<Longrightarrow> m' sk = m sk" "repKey r key m'"
  shows "rep (A(key := r)) m'"
  unfolding rep_def
proof (intro conjI allI impI)
  show "owned m'"
    using assms(1-3) unfolding owned_def rep_def by metis
  fix key'
  assume len: "lenOk key'"
  show "repKey ((A(key := r)) key') key' m'"
  proof (cases "key' = key")
    case False
    have "m' sk = m sk" if "recordOf key' sk" for sk
      using assms(3) recordOf_unique [OF _ that assms(2) len] False by blast
    then have "repKey (A key') key' m' = repKey (A key') key' m" by (rule repKey_cong)
    with assms(1) len False show ?thesis by (simp add: rep_def)
  qed (simp add: assms(4))
qed

lemma repKeyD: "rep A m \<Longrightarrow> lenOk key \<Longrightarrow> repKey (A key) key m"
  by (simp add: rep_def)

lemma rep_none:
  assumes "rep A m" "lenOk key" "A key = None" "recordOf key sk"
  shows "m sk = None"
  using repKeyD [OF assms(1,2)] assms(3,4) by (simp add: repKey_def)

text \<open>Which records a present key has.\<close>

lemma repKey_lacks:
  assumes "repKey (Some (x, e)) key m" "reprKey R key sk" "R \<noteq> objRepr x"
  shows "m sk = None"
  using assms by (auto simp: repKey_def onlyRepr_def lacksRepr_def)

lemma decode_envBytes: "length c \<le> 65535 \<Longrightarrow> isInt64 e \<Longrightarrow> recordIs (envBytes c v e) v e"
  by (simp add: recordIs_def decodeRecord_def dbProtocol_DecodeRecord_def)

lemma expiry_roundtrip [simp]: "length (encodeRedisExpiry e) = 8"
  "isInt64 e \<Longrightarrow> int64 (Uint64 (encodeRedisExpiry e)) = e"
  by (simp_all add: encodeRedisExpiry_def)

lemma record_exists:
  assumes "repKey (Some (x, e)) key m"
  shows "\<exists>sk. m sk \<noteq> None \<and> recordOf key sk"
proof (cases x)
  case (RString v)
  then have "m (valueKey key) \<noteq> None" using assms by (auto simp: repKey_def repData_def)
  then show ?thesis using recordOf_keys by blast
next
  case (RHash h)
  then obtain f v where "h f = Some v" using assms by (auto simp: repKey_def repData_def fun_eq_iff)
  moreover have "rel_option (\<lambda>data v. recordIs data v 0) (m (namespacedKey kindHash key f)) (h f)"
    using assms RHash by (simp add: repKey_def repData_def)
  ultimately have "m (namespacedKey kindHash key f) \<noteq> None" by (auto simp: option_rel_Some2)
  then show ?thesis using recordOf_keys by blast
next
  case (RSet S)
  then obtain y where "y \<in> S" using assms by (auto simp: repKey_def repData_def)
  then have "m (namespacedKey kindSet key y) \<noteq> None" using assms RSet by (simp add: repKey_def repData_def)
  then show ?thesis using recordOf_keys by blast
next
  case (RList xs)
  then have "m (listKey key) \<noteq> None" using assms by (auto simp: repKey_def repData_def)
  then show ?thesis using recordOf_keys by blast
qed

lemma isInt64_0 [simp]: "isInt64 0"
  by (simp add: int64_defs)

definition stringOf :: "(robj \<times> int) option \<Rightarrow> bytes option res" where
  "stringOf r = (case r of None \<Rightarrow> Ok None | Some (RString v, _) \<Rightarrow> Ok (Some v)
     | Some y \<Rightarrow> Err (wrongType (typeName (Some y))))"

text \<open>A key that is absent or a string already.\<close>

definition scalarOrNone :: "(robj \<times> int) option \<Rightarrow> bool" where
  "scalarOrNone r = (case r of None \<Rightarrow> True | Some (RString _, _) \<Rightarrow> True | _ \<Rightarrow> False)"

definition deadlineOf :: "(robj \<times> int) option \<Rightarrow> int option" where
  "deadlineOf r = (case r of None \<Rightarrow> None | Some (_, e) \<Rightarrow> if e = 0 then None else Some e)"

section \<open>Symbolic execution\<close>

text \<open>
  \<open>runs t m A r A'\<close>: on a store that represents \<open>A\<close>, with the clock at \<open>t\<close>, the operation \<open>m\<close>
  ends with the result \<open>r\<close> and a store that represents \<open>A'\<close>.
\<close>

context local_engine
begin

definition holds :: "time \<Rightarrow> keyspace \<Rightarrow> ('s, 'v) DB \<Rightarrow> bool" where
  "holds t A db \<longleftrightarrow> dbOk db \<and> clockIs t db \<and> 0 \<le> t \<and> isInt64 t \<and> rep A (dbView db)"

definition runs :: "time \<Rightarrow> (('s, 'v) DB, 'a) op \<Rightarrow> keyspace \<Rightarrow> 'a res \<Rightarrow> keyspace \<Rightarrow> bool" where
  "runs t m A r A' \<longleftrightarrow> (\<forall>db. holds t A db \<longrightarrow> (\<exists>db'. m db = (r, db') \<and> holds t A' db'))"

lemma runsI: "(\<And>db. holds t A db \<Longrightarrow> \<exists>db'. m db = (r, db') \<and> holds t A' db') \<Longrightarrow> runs t m A r A'"
  by (simp add: runs_def)

lemma runsE:
  assumes "runs t m A r A'" "holds t A db"
  obtains db' where "m db = (r, db')" "holds t A' db'"
  using assms by (auto simp: runs_def)

lemma runs_eq: "runs t m A r A' \<Longrightarrow> r = r' \<Longrightarrow> A' = A'' \<Longrightarrow> runs t m A r' A''"
  by simp

lemma runs_basic:
  "runs t (ret x) A (Ok x) A" "runs t (throw e) A (Err e) A" "runs t (liftR r) A r A"
  by (simp_all add: runs_def ret_def throw_def liftR_def)

lemma runs_bind: "runs t m A (Ok x) A' \<Longrightarrow> runs t (f x) A' r A'' \<Longrightarrow> runs t (bindE m f) A r A''"
  by (fastforce simp: runs_def bindE_def)

lemma runs_bindErr: "runs t m A (Err e) A' \<Longrightarrow> runs t (bindE m f) A (Err e) A'"
  by (fastforce simp: runs_def bindE_def)

lemma runs_reply: "runs t m A (Ok x) A' \<Longrightarrow> runs t (replyE m) A (Ok x) A'"
  by (fastforce simp: runs_def replyE_def)

lemma runs_replyErr: "runs t m A (Err e) A' \<Longrightarrow> runs t (replyE m) A (Ok (redisErrorReply (Some e))) A'"
  by (fastforce simp: runs_def replyE_def)

lemma runs_ignore: "runs t m A (Ok x) A' \<Longrightarrow> runs t (ignoreE m) A (Ok ()) A'"
  by (fastforce simp: runs_def ignoreE_def)

lemma runs_Now: "runs t dbProtocol_Now A (Ok t) A"
  by (auto simp: runs_def holds_def dbProtocol_Now_def op_simps)

lemma holds_simps:
  assumes "holds t A db"
  shows "dbOk db" "clockIs t db" "rep A (dbView db)" "UnixNano t = t" "0 \<le> t" "isInt64 t"
  using assms by (simp_all add: holds_def UnixNano_def)

lemma holds_upd:
  assumes "holds t A db" "lenOk key" "dbOk db'" "clockIs t db'"
    "\<And>sk. \<not> recordOf key sk \<Longrightarrow> dbView db' sk = dbView db sk" "repKey r key (dbView db')"
  shows "holds t (A(key := r)) db'"
  using assms rep_update [of A "dbView db" key "dbView db'" r] by (auto simp: holds_def)

lemma runs_DeleteRaw:
  assumes "lenOk key"
  shows "runs t (redisDeleteRaw None key) A (Ok (A key \<noteq> None)) (A(key := None))"
proof (rule runsI)
  fix db :: "('s, 'v) DB"
  assume h: "holds t A db"
  note s = holds_simps [OF h]
  have "holds t (A(key := None)) (dropKey key db)"
    using s(1,2) by (intro holds_upd [OF h assms]) (simp_all add: dbView_dropKey repKey_def)
  moreover have "(\<exists>sk. dbView db sk \<noteq> None \<and> recordOf key sk) \<longleftrightarrow> A key \<noteq> None"
  proof (cases "A key")
    case None
    then show ?thesis using rep_none [OF s(3) assms] by auto
  next
    case (Some y)
    obtain x e where y: "y = (x, e)" by (cases y)
    have "\<exists>sk. dbView db sk \<noteq> None \<and> recordOf key sk"
      using repKeyD [OF s(3) assms] Some y record_exists by metis
    with Some show ?thesis by simp
  qed
  ultimately show "\<exists>db'. redisDeleteRaw None key db = (Ok (A key \<noteq> None), db') \<and> holds t (A(key := None)) db'"
    using s(1) by (simp add: op_simps)
qed

lemma Now_eq: "holds t A db \<Longrightarrow> dbProtocol_Now db = (Ok t, db)"
  by (simp add: dbProtocol_Now_def op_simps holds_simps)

lemma recordExpired_eq:
  "holds t A db \<Longrightarrow> recordExpired rec db = (Ok (0 < rr_expiresAt rec \<and> rr_expiresAt rec \<le> t), db)"
  by (simp add: recordExpired_def bindE_def ret_def Now_eq holds_simps)

section \<open>Type detection\<close>

lemma keyExpired_eq:
  assumes h: "holds t A db" and ttl: "ttlIs e key (dbView db)" "0 \<le> e" "isInt64 e"
  shows "redisKeyExpired None key db =
    (if 0 < e \<and> e \<le> t then (Ok True, dropKey key db) else (Ok False, db))"
  using holds_simps [OF h] ttl
  by (auto simp: redisKeyExpired_def redisMetadataExpiry_def bindE_def ret_def dbProtocol_Now_def
      op_simps ttlIs_def)

lemma typeScalar_none:
  "dbOk db \<Longrightarrow> dbView db (valueKey key) = None \<Longrightarrow> redisTypeScalar None key db = (Ok False, db)"
  by (simp add: redisTypeScalar_def bindE_def ret_def op_simps)

lemma typeListed_none:
  "dbOk db \<Longrightarrow> dbView db (listKey key) = None \<Longrightarrow> redisTypeListed None key db = (Ok False, db)"
  by (simp add: redisTypeListed_def bindE_def ret_def op_simps)

lemma scanRun_live:
  assumes "\<And>k d. (k, d) \<in> set items \<Longrightarrow> \<exists>v. recordIs d v 0"
  shows "scanRun hashScanCallback items None ([], found) db = (Ok (([], found \<or> items \<noteq> []), None), db)"
  using assms
proof (induction items arbitrary: found)
  case (Cons x items)
  obtain v where "recordIs (snd x) v 0" using Cons.prems [of "fst x" "snd x"] by auto
  then obtain rec where "decodeRecord (snd x) = Ok rec" "rr_expiresAt rec = 0" by (auto simp: recordIs_def)
  then have "hashScanCallback ([], found) (fst x) (snd x) db = (Ok ([], True), db)"
    by (simp add: hashScanCallback_def bindE_def liftR_def recordExpired_def ret_def)
  moreover have "scanRun hashScanCallback items None ([], True) db = (Ok (([], True), None), db)"
    using Cons.IH [of True] Cons.prems by (metis list.set_intros(2))
  ultimately show ?case by simp
qed simp

lemma typeHashed_live:
  assumes "dbOk db" "\<And>k d. dbView db k = Some d \<Longrightarrow> prefix (namespacePrefix kindHash key) k \<Longrightarrow> \<exists>v. recordIs d v 0"
  shows "redisTypeHashed None key db = (Ok (dbItems (namespacePrefix kindHash key) db \<noteq> []), db)"
proof -
  have "\<exists>v. recordIs d v 0" if "(k, d) \<in> set (dbItems (namespacePrefix kindHash key) db)" for k d
    using that assms dbItems_set [OF assms(1)] by auto
  then have "scanE None (namespacePrefix kindHash key) hashScanCallback ([], False) db
      = (Ok ([], dbItems (namespacePrefix kindHash key) db \<noteq> []), db)"
    using assms(1) by (simp add: scanE_def bindE_def ret_def op_simps scanRun_live)
  then show ?thesis using assms(1) by (simp add: redisTypeHashed_def bindE_def ret_def op_simps)
qed

lemma dbItems_nil:
  "dbOk db \<Longrightarrow> (\<And>f. dbView db (namespacedKey k key f) = None) \<Longrightarrow> dbItems (namespacePrefix k key) db = []"
  using dbItems_empty_iff by (metis prefix_namespacePrefixE)

lemma dbItems_some:
  "dbOk db \<Longrightarrow> dbView db (namespacedKey k key f) \<noteq> None \<Longrightarrow> dbItems (namespacePrefix k key) db \<noteq> []"
  using dbItems_empty_iff by (metis prefix_namespacedKey)

lemma hashed_nil:
  assumes "dbOk db" "\<And>f. dbView db (namespacedKey kindHash key f) = None"
  shows "redisTypeHashed None key db = (Ok False, db)"
  using typeHashed_live [OF assms(1), of key] dbItems_nil [OF assms] assms(2)
  by (metis option.distinct(1) prefix_namespacePrefixE)

text \<open>The rest of \<open>redisType\<close> on a key that has no record left.\<close>

lemma type_absent:
  assumes "dbOk db" "\<And>sk. recordOf key sk \<Longrightarrow> dbView db sk = None"
  shows "redisTypeHashed None key db = (Ok False, db)" "redisTypeSetted None key db = (Ok False, db)"
    "redisTypeListed None key db = (Ok False, db)" "redisTypeScalar None key db = (Ok False, db)"
  using assms by (simp_all add: hashed_nil op_simps dbItems_nil typeListed_none typeScalar_none)

lemma type_none:
  assumes h: "holds t A db" and len: "lenOk key" and none: "A key = None"
  shows "redisType None key db = (Ok redisTypeNone, db)"
proof -
  note s = holds_simps [OF h]
  have all: "dbView db sk = None" if "recordOf key sk" for sk
    using rep_none [OF s(3) len none] that by blast
  have "redisKeyExpired None key db = (Ok False, db)"
    using keyExpired_eq [OF h, of 0 key] all by (simp add: ttlIs_def)
  then show ?thesis using type_absent [OF s(1) all] by (simp add: redisType_def bindE_def ret_def)
qed

lemma type_string:
  assumes h: "holds t A db" and len: "lenOk key" and some: "A key = Some (RString v, e)"
  shows "\<exists>db'. redisType None key db = (Ok (typeName (alive t (A key))), db') \<and> holds t (purge t key A) db'"
proof -
  note s = holds_simps [OF h]
  note rk = repKeyD [OF s(3) len, unfolded some]
  obtain data rec where data: "dbView db (valueKey key) = Some data" "decodeRecord data = Ok rec"
    "rr_payload rec = v" "rr_expiresAt rec = e" "ttlIs 0 key (dbView db)"
    using rk by (auto simp: repKey_def repData_def recordIs_def)
  have ttl: "redisKeyExpired None key db = (Ok False, db)" using keyExpired_eq [OF h data(5)] by simp
  show ?thesis
  proof (cases "0 < e \<and> e \<le> t")
    case False
    then have "redisType None key db = (Ok redisTypeString, db)"
      using ttl data s(1) by (auto simp: redisType_def redisTypeScalar_def bindE_def ret_def liftR_def
          op_simps recordExpired_eq [OF h])
    with False some h show ?thesis by (auto simp: alive_def purge_def fun_upd_idem)
  next
    case True
    let ?db = "dbDel (valueKey key) db"
    have gone: "dbView ?db sk = None" if "recordOf key sk" for sk
      using that
    proof (cases rule: recordOf_cases)
      case ttl
      then show ?thesis using data(5) s(1) by (simp add: ttlIs_def)
    next
      case (data R)
      show ?thesis
      proof (cases "R = ReprScalar")
        case True
        then show ?thesis using data s(1) by (simp add: reprKey_def)
      next
        case False
        then have "dbView db sk = None" using repKey_lacks [OF rk data] by (simp add: objRepr_def)
        then show ?thesis using s(1) by simp
      qed
    qed
    have "holds t (A(key := None)) ?db"
      using s(1,2) gone
      by (intro holds_upd [OF h len]) (auto simp: repKey_def)
    moreover have "redisType None key db = (Ok redisTypeNone, ?db)"
      using True ttl data s(1) type_absent [OF _ gone]
      by (simp add: redisType_def redisTypeScalar_def bindE_def ret_def liftR_def ignoreE_def
          op_simps recordExpired_eq [OF h])
    ultimately show ?thesis using True some by (simp add: alive_def purge_def)
  qed
qed

lemma type_collection:
  assumes h: "holds t A db" and len: "lenOk key" and some: "A key = Some (x, e)"
    and x: "objRepr x \<noteq> ReprScalar"
  shows "\<exists>db'. redisType None key db = (Ok (typeName (alive t (A key))), db') \<and> holds t (purge t key A) db'"
proof -
  note s = holds_simps [OF h]
  note rk = repKeyD [OF s(3) len, unfolded some]
  have e: "0 \<le> e" "isInt64 e" using rk by (simp_all add: repKey_def)
  have "ttlIs e key (dbView db)"
    using rk x by (cases x) (simp_all add: repKey_def repData_def objRepr_def)
  note ttl = keyExpired_eq [OF h this e]
  have lacks: "dbView db (valueKey key) = None" using repKey_lacks [OF rk reprKey_simps(1)] x by metis
  show ?thesis
  proof (cases "0 < e \<and> e \<le> t")
    case True
    then have "redisType None key db = (Ok redisTypeNone, dropKey key db)"
      using ttl by (simp add: redisType_def bindE_def ret_def)
    moreover have "holds t (A(key := None)) (dropKey key db)"
      using s(1,2) by (intro holds_upd [OF h len]) (simp_all add: dbView_dropKey repKey_def)
    ultimately show ?thesis using True some by (simp add: alive_def purge_def)
  next
    case False
    have hash: "redisTypeHashed None key db = (Ok (objRepr x = ReprHash), db)"
    proof (cases x)
      case (RHash hm)
      then obtain f v where "hm f = Some v" using rk by (auto simp: repKey_def repData_def fun_eq_iff)
      moreover have rel: "rel_option (\<lambda>data v. recordIs data v 0) (dbView db (namespacedKey kindHash key f)) (hm f)" for f
        using rk RHash by (simp add: repKey_def repData_def)
      ultimately have "dbView db (namespacedKey kindHash key f) \<noteq> None" by (metis option.rel_sel option.discI)
      moreover have "\<exists>v. recordIs d v 0" if "dbView db k = Some d" "prefix (namespacePrefix kindHash key) k" for k d
        using that rel by (metis option_rel_Some1 prefix_namespacePrefixE)
      ultimately show ?thesis
        using typeHashed_live [OF s(1)] dbItems_some [OF s(1)] RHash by (simp add: objRepr_def)
    qed (use hashed_nil [OF s(1)] repKey_lacks [OF rk reprKey_simps(3)] in \<open>simp_all add: objRepr_def\<close>)
    have set: "redisTypeSetted None key db = (Ok (objRepr x = ReprSet), db)"
    proof (cases x)
      case (RSet S)
      then obtain y where "y \<in> S" using rk by (auto simp: repKey_def repData_def)
      then have "dbView db (namespacedKey kindSet key y) \<noteq> None" using rk RSet by (simp add: repKey_def repData_def)
      then show ?thesis using dbItems_some [OF s(1)] s(1) RSet by (simp add: op_simps objRepr_def)
    qed (use dbItems_nil [OF s(1)] repKey_lacks [OF rk reprKey_simps(4)] s(1) in \<open>simp_all add: objRepr_def op_simps\<close>)
    have list: "redisTypeListed None key db = (Ok True, db)" if "objRepr x = ReprList"
      using that rk s(1)
      by (cases x) (auto simp: objRepr_def repKey_def repData_def redisTypeListed_def bindE_def ret_def
          liftR_def op_simps dbProtocol_DecodeList_def list_all2_conv_all_nth)
    have "redisType None key db = (Ok (typeName (A key)), db)"
      using False ttl lacks s(1) hash set list x some
      by (cases x) (simp_all add: redisType_def bindE_def ret_def typeScalar_none objRepr_def)
    with False some h show ?thesis by (auto simp: alive_def purge_def fun_upd_idem)
  qed
qed

lemma runs_redisType:
  assumes len: "lenOk key"
  shows "runs t (redisType None key) A (Ok (typeName (alive t (A key)))) (purge t key A)"
proof (rule runsI)
  fix db :: "('s, 'v) DB"
  assume h: "holds t A db"
  show "\<exists>db'. redisType None key db = (Ok (typeName (alive t (A key))), db') \<and> holds t (purge t key A) db'"
  proof (cases "A key")
    case None
    then show ?thesis
      using type_none [OF h len] h by (simp add: alive_def purge_def fun_upd_idem)
  next
    case (Some y)
    then obtain x e where "A key = Some (x, e)" by (cases y) auto
    then show ?thesis
      using type_string [OF h len] type_collection [OF h len] by (cases x) (auto simp: objRepr_def)
  qed
qed

section \<open>Strings\<close>

lemma scalarE:
  assumes "holds t A db" "lenOk key" "A key = Some (RString v, e)"
  obtains data rec where "dbView db (valueKey key) = Some data" "decodeRecord data = Ok rec"
    "rr_payload rec = v" "rr_expiresAt rec = e" "length (rr_codec rec) \<le> 65535"
proof -
  obtain data rec where *: "dbView db (valueKey key) = Some data" "decodeRecord data = Ok rec"
    "rr_payload rec = v" "rr_expiresAt rec = e"
    using repKeyD [OF holds_simps(3) [OF assms(1)] assms(2), unfolded assms(3)]
    by (auto simp: repKey_def repData_def recordIs_def)
  have "length (rr_codec rec) \<le> 65535"
    using *(2) unmarshal_Ok_bounds(2)
    by (auto simp: decodeRecord_def dbProtocol_DecodeRecord_def split: res.splits)
  with * that show thesis by blast
qed

lemma typeE:
  assumes "holds t A db" "lenOk key"
  obtains db' where "redisType None key db = (Ok (typeName (alive t (A key))), db')"
    "holds t (purge t key A) db'" "dbOk db'"
  using runsE [OF runs_redisType [OF assms(2)] assms(1)] holds_simps(1) by metis

lemma runs_redisString:
  assumes "lenOk key"
  shows "runs t (redisString None key) A (stringOf (alive t (A key))) (purge t key A)"
proof (rule runsI)
  fix db :: "('s, 'v) DB"
  assume h: "holds t A db"
  obtain db' where ty: "redisType None key db = (Ok (typeName (alive t (A key))), db')"
    and h': "holds t (purge t key A) db'" "dbOk db'" by (rule typeE [OF h assms])
  note defs = redisString_def bindE_def ret_def throw_def liftR_def stringOf_def ty
  have "redisString None key db = (stringOf (alive t (A key)), db')"
  proof (cases "alive t (A key)")
    case None
    then show ?thesis by (simp add: defs)
  next
    case (Some y)
    show ?thesis
    proof (cases "\<exists>v e. y = (RString v, e)")
      case True
      then obtain v e where y: "alive t (A key) = Some (RString v, e)" using Some by blast
      have "purge t key A key = Some (RString v, e)" by (simp add: y)
      then obtain data rec where "dbView db' (valueKey key) = Some data" "decodeRecord data = Ok rec"
        "rr_payload rec = v" "rr_expiresAt rec = e"
        using scalarE [OF h'(1) assms] by metis
      moreover have "\<not> (0 < e \<and> e \<le> t)" using y by (simp add: alive_Some_iff)
      ultimately show ?thesis
        using h'(2) by (auto simp: defs y op_simps recordExpired_eq [OF h'(1)])
    next
      case False
      then show ?thesis by (cases y; cases "fst y") (simp_all add: defs Some)
    qed
  qed
  with h'(1) show "\<exists>db'. redisString None key db = (stringOf (alive t (A key)), db') \<and> holds t (purge t key A) db'"
    by blast
qed

lemma scalar_frame:
  assumes h: "holds t A db" and len: "lenOk key" and sc: "scalarOrNone (A key)"
  shows "onlyRepr ReprScalar key (dbView db)" "dbView db (collectionTTLKey key) = None"
proof -
  note rk = repKeyD [OF holds_simps(3) [OF h] len]
  have "onlyRepr ReprScalar key (dbView db) \<and> dbView db (collectionTTLKey key) = None"
  proof (cases "A key")
    case None
    then show ?thesis
      using rk reprKey_recordOf by (auto simp: repKey_def onlyRepr_def lacksRepr_def)
  next
    case (Some y)
    then show ?thesis using rk sc
      by (cases y; cases "fst y") (auto simp: scalarOrNone_def repKey_def repData_def objRepr_def ttlIs_def)
  qed
  then show "onlyRepr ReprScalar key (dbView db)" "dbView db (collectionTTLKey key) = None" by simp_all
qed

lemma putScalar:
  assumes h: "holds t A db" and len: "lenOk key" and sc: "scalarOrNone (A key)"
    and rec: "recordIs data v e" "0 \<le> e" "isInt64 e"
    and db': "dbOk db'" "clockIs t db'" "dbView db' = (dbView db)(valueKey key \<mapsto> data)"
  shows "holds t (A(key \<mapsto> (RString v, e))) db'"
proof -
  note fr = scalar_frame [OF h len sc]
  have "onlyRepr ReprScalar key (dbView db')"
    unfolding db'(3) by (rule onlyRepr_put [OF fr(1)]) (simp_all add: len)
  then have "repKey (Some (RString v, e)) key (dbView db')"
    using rec fr(2) by (simp add: repKey_def objRepr_def repData_def db'(3) ttlIs_def)
  then show ?thesis using db' by (intro holds_upd [OF h len]) auto
qed

lemma putPayload_eq:
  assumes "holds t A db" "length codec \<le> 65535"
  shows "putPayload None sk codec payload d db
    = (Ok (), dbPut sk (envBytes codec payload (if 0 < d then UnixNano (t + d) else 0)) db)"
  using assms holds_simps [OF assms(1)]
  by (simp add: putPayload_def bindE_def ret_def liftR_def dbProtocol_EncodeRecord_def op_simps
      Now_eq timeAdd_def)

lemma deadline_arith:
  assumes "0 \<le> t" "isInt64 t" "isInt64 e" "t < e"
  shows "timeSub (timeUnix0 e) t = e - t" "UnixNano (t + (e - t)) = e"
  using assms by (simp_all add: timeSub_def timeUnix0_def UnixNano_def int64_defs)

lemma runs_writeStringWithCodec:
  assumes len: "lenOk key" and sc: "scalarOrNone (A key)"
    and e: "0 \<le> e" "isInt64 e" and c: "length codec \<le> 65535"
  shows "runs t (redisWriteStringWithCodec None key v codec e) A (Ok ())
    (A(key := alive t (Some (RString v, e))))"
proof (rule runsI)
  fix db :: "('s, 'v) DB"
  assume h: "holds t A db"
  note s = holds_simps [OF h]
  note fr = scalar_frame [OF h len sc]
  have rec: "recordIs (envBytes codec v e) v e" using c e by (simp add: decode_envBytes)
  note put = putScalar [OF h len sc rec e]
  show "\<exists>db'. redisWriteStringWithCodec None key v codec e db = (Ok (), db')
    \<and> holds t (A(key := alive t (Some (RString v, e)))) db'"
  proof (cases "e = 0")
    case True
    let ?db = "dbDel (collectionTTLKey key) (dbPut (valueKey key) (envBytes codec v 0) db)"
    have "redisWriteStringWithCodec None key v codec e db = (Ok (), ?db)"
      using True s(1) by (simp add: redisWriteStringWithCodec_def bindE_def putPayload_eq [OF h c] op_simps)
    moreover have "dbView ?db = (dbView db)(valueKey key \<mapsto> envBytes codec v e)"
      using True s(1) fr(2) by (auto simp: fun_eq_iff)
    ultimately show ?thesis using put [of ?db] s(1,2) True by (simp add: alive_def)
  next
    case pos: False
    show ?thesis
    proof (cases "e \<le> t")
      case True
      then have "timeSub (timeUnix0 e) t \<le> 0" by (simp add: timeSub_def timeUnix0_def int64_defs)
      then have "redisWriteStringWithCodec None key v codec e db
          = bindE (redisDeleteRaw None key) (\<lambda>_. ret ()) db"
        using pos e by (simp add: redisWriteStringWithCodec_def bindE_def Now_eq [OF h] Let_def)
      moreover have "runs t (bindE (redisDeleteRaw None key) (\<lambda>_. ret ())) A (Ok ()) (A(key := None))"
        by (rule runs_bind [OF runs_DeleteRaw [OF len] runs_basic(1)])
      ultimately show ?thesis using h pos e True by (auto simp: runs_def alive_def)
    next
      case False
      let ?db = "dbPut (valueKey key) (envBytes codec v e) db"
      have "redisWriteStringWithCodec None key v codec e db = (Ok (), ?db)"
        using False pos e s deadline_arith [OF s(5,6) e(2)]
        by (simp add: redisWriteStringWithCodec_def bindE_def Now_eq [OF h] putPayload_eq [OF h c])
      then show ?thesis using put [of ?db] s(1,2) False by (simp add: alive_def)
    qed
  qed
qed

lemma writeString_codec: "redisWriteString None key v e = redisWriteStringWithCodec None key v bytesCodec e"
  by (simp add: redisWriteString_def redisWriteStringWithCodec_def)

lemma runs_writeString:
  assumes "lenOk key" "scalarOrNone (A key)" "0 \<le> e" "isInt64 e"
  shows "runs t (redisWriteString None key v e) A (Ok ()) (A(key := alive t (Some (RString v, e))))"
  unfolding writeString_codec using assms by (intro runs_writeStringWithCodec) (simp_all add: bytesCodec_def)

section \<open>Deadlines\<close>

lemma collection_ttl:
  assumes "holds t A db" "lenOk key" "A key = Some (x, e)" "objRepr x \<noteq> ReprScalar"
  shows "ttlIs e key (dbView db)"
  using repKeyD [OF holds_simps(3) [OF assms(1)] assms(2), unfolded assms(3)] assms(4)
  by (cases x) (simp_all add: repKey_def repData_def objRepr_def)

lemma rep_deadline:
  assumes "holds t A db" "lenOk key" "A key = Some (x, e)"
  shows "0 \<le> e" "isInt64 e"
  using repKeyD [OF holds_simps(3) [OF assms(1)] assms(2), unfolded assms(3)]
  by (simp_all add: repKey_def)

lemma metadata_eq:
  assumes "dbOk db" "ttlIs e key (dbView db)" "isInt64 e"
  shows "redisMetadataExpiry None key db = (Ok (if e = 0 then None else Some e), db)"
  using assms by (auto simp: redisMetadataExpiry_def bindE_def ret_def op_simps ttlIs_def)

lemma typeName_string_iff: "typeName (Some (x, e)) = redisTypeString \<longleftrightarrow> objRepr x = ReprScalar"
  by (cases x) (simp_all add: objRepr_def)

lemma runs_redisExpiry:
  assumes len: "lenOk key"
  shows "runs t (redisExpiry None key) A (Ok (deadlineOf (alive t (A key)))) (purge t key A)"
proof (rule runsI)
  fix db :: "('s, 'v) DB"
  assume h: "holds t A db"
  obtain db' where ty: "redisType None key db = (Ok (typeName (alive t (A key))), db')"
    and h': "holds t (purge t key A) db'" "dbOk db'" by (rule typeE [OF h len])
  note defs = redisExpiry_def bindE_def ret_def liftR_def deadlineOf_def ty
  have "redisExpiry None key db = (Ok (deadlineOf (alive t (A key))), db')"
  proof (cases "alive t (A key)")
    case None
    then show ?thesis by (simp add: defs)
  next
    case (Some y)
    obtain x e where y: "y = (x, e)" by (cases y)
    have at: "purge t key A key = Some (x, e)" using Some y by simp
    note e = rep_deadline [OF h'(1) len at]
    show ?thesis
    proof (cases "objRepr x = ReprScalar")
      case True
      then obtain v where "x = RString v" by (cases x) (simp_all add: objRepr_def)
      then obtain data rec where "dbView db' (valueKey key) = Some data" "decodeRecord data = Ok rec"
        "rr_expiresAt rec = e" using scalarE [OF h'(1) len] at by metis
      then show ?thesis using True h'(2) e Some y \<open>x = RString v\<close> by (simp add: defs op_simps)
    next
      case False
      then have "typeName (Some (x, e)) \<noteq> redisTypeString" by (simp add: typeName_string_iff)
      moreover have "redisMetadataExpiry None key db' = (Ok (if e = 0 then None else Some e), db')"
        using metadata_eq [OF h'(2)] collection_ttl [OF h'(1) len at False] e by blast
      ultimately show ?thesis using Some y by (simp add: defs)
    qed
  qed
  with h'(1) show "\<exists>db'. redisExpiry None key db = (Ok (deadlineOf (alive t (A key))), db') \<and> holds t (purge t key A) db'"
    by blast
qed

text \<open>Setting and removing the deadline record of a collection.\<close>

lemma set_ttl:
  assumes h: "holds t A db" and len: "lenOk key" and at: "A key = Some (x, e)"
    and x: "objRepr x \<noteq> ReprScalar" and e': "0 \<le> e'" "isInt64 e'"
    and db': "dbOk db'" "clockIs t db'"
    "dbView db' = (dbView db)(collectionTTLKey key := (if e' = 0 then None else Some (encodeRedisExpiry e')))"
  shows "holds t (A(key \<mapsto> (x, e'))) db'"
proof -
  note rk = repKeyD [OF holds_simps(3) [OF h] len, unfolded at]
  have "lacksRepr R key (dbView db') = lacksRepr R key (dbView db)" for R
    by (auto simp: lacksRepr_def db'(3)) (metis reprKey_simps(6))
  then have "onlyRepr (objRepr x) key (dbView db')" using rk by (simp add: repKey_def onlyRepr_def)
  moreover have "repData x e' key (dbView db')"
    using rk x by (cases x) (simp_all add: repKey_def repData_def objRepr_def db'(3) ttlIs_def)
  ultimately have "repKey (Some (x, e')) key (dbView db')" using e' by (simp add: repKey_def)
  then show ?thesis using db' by (intro holds_upd [OF h len]) auto
qed

lemma runs_redisSetExpiry:
  assumes len: "lenOk key" and e': "isInt64 e'"
  shows "runs t (redisSetExpiry None key e') A (Ok (alive t (A key) \<noteq> None))
    (case alive t (A key) of None \<Rightarrow> purge t key A
     | Some (x, _) \<Rightarrow> A(key := (if e' \<le> t then None else Some (x, e'))))"
proof (rule runsI)
  fix db :: "('s, 'v) DB"
  assume h: "holds t A db"
  obtain db' where ty: "redisType None key db = (Ok (typeName (alive t (A key))), db')"
    and h': "holds t (purge t key A) db'" "dbOk db'" by (rule typeE [OF h len])
  note s' = holds_simps [OF h'(1)]
  note defs = redisSetExpiry_def bindE_def ret_def liftR_def ty Now_eq [OF h'(1)] s'(4)
  show "\<exists>db'. redisSetExpiry None key e' db = (Ok (alive t (A key) \<noteq> None), db') \<and>
      holds t (case alive t (A key) of None \<Rightarrow> purge t key A
        | Some (x, _) \<Rightarrow> A(key := (if e' \<le> t then None else Some (x, e')))) db'"
  proof (cases "alive t (A key)")
    case None
    then show ?thesis using h' by (simp add: defs)
  next
    case (Some y)
    obtain x e where y: "y = (x, e)" by (cases y)
    have at: "purge t key A key = Some (x, e)" using Some y by simp
    have ne: "typeName (Some (x, e)) \<noteq> redisTypeNone" by simp
    show ?thesis
    proof (cases "e' \<le> t")
      case True
      obtain db2 where "redisDeleteRaw None key db' = (Ok (purge t key A key \<noteq> None), db2)"
        "holds t ((purge t key A)(key := None)) db2" by (rule runsE [OF runs_DeleteRaw [OF len] h'(1)])
      then show ?thesis using True Some y ne by (simp add: defs)
    next
      case False
      then have e0: "0 \<le> e'" using s'(5) by simp
      show ?thesis
      proof (cases "objRepr x = ReprScalar")
        case True
        then obtain v where x: "x = RString v" by (cases x) (simp_all add: objRepr_def)
        obtain data rec where rec: "dbView db' (valueKey key) = Some data" "decodeRecord data = Ok rec"
          "rr_payload rec = v" "length (rr_codec rec) \<le> 65535"
          using scalarE [OF h'(1) len] at x by metis
        have sc: "scalarOrNone (purge t key A key)" using at x by (simp add: scalarOrNone_def)
        obtain db2 where db2: "redisWriteStringWithCodec None key v (rr_codec rec) e' db' = (Ok (), db2)"
          "holds t ((purge t key A)(key := alive t (Some (RString v, e')))) db2"
          by (rule runsE [OF runs_writeStringWithCodec [where A = "purge t key A", OF len sc e0 e' rec(4)] h'(1)])
        have db2h: "holds t (A(key \<mapsto> (RString v, e'))) db2" using db2(2) False by (simp add: alive_def)
        note s2 = holds_simps [OF db2h]
        have "dbView db2 (collectionTTLKey key) = None"
          by (rule scalar_frame(2) [OF db2h len]) (simp add: scalarOrNone_def)
        then have "holds t (A(key \<mapsto> (RString v, e'))) (dbDel (collectionTTLKey key) db2)"
          using db2h s2(1) by (simp add: holds_def fun_upd_idem)
        then show ?thesis
          using False Some y x rec db2(1) h'(2) s2(1) by (simp add: defs op_simps ignoreE_def)
      next
        case x: False
        then have str: "typeName (Some (x, e)) \<noteq> redisTypeString" by (simp add: typeName_string_iff)
        let ?db = "dbPut (collectionTTLKey key) (encodeRedisExpiry e') db'"
        have "e' \<noteq> 0" using False s'(5) by simp
        then have "holds t ((purge t key A)(key \<mapsto> (x, e'))) ?db"
          using s'(1,2) by (intro set_ttl [OF h'(1) len at x e0 e']) simp_all
        then show ?thesis using False Some y ne str s'(1) by (simp add: defs op_simps)
      qed
    qed
  qed
qed

lemma runs_redisPersist:
  assumes len: "lenOk key"
  shows "runs t (redisPersist None key) A (Ok (deadlineOf (alive t (A key)) \<noteq> None))
    (case alive t (A key) of None \<Rightarrow> purge t key A | Some (x, _) \<Rightarrow> A(key \<mapsto> (x, 0)))"
proof (rule runsI)
  fix db :: "('s, 'v) DB"
  assume h: "holds t A db"
  obtain db1 where ty: "redisType None key db = (Ok (typeName (alive t (A key))), db1)"
    and h1: "holds t (purge t key A) db1" "dbOk db1" by (rule typeE [OF h len])
  obtain db' where ex: "redisExpiry None key db1 = (Ok (deadlineOf (alive t (A key))), db')"
    and h': "holds t (purge t key A) db'"
    using runsE [OF runs_redisExpiry [OF len] h1(1)] by simp blast
  note s' = holds_simps [OF h']
  note defs = redisPersist_def bindE_def ret_def liftR_def ty ex
  show "\<exists>db'. redisPersist None key db = (Ok (deadlineOf (alive t (A key)) \<noteq> None), db') \<and>
      holds t (case alive t (A key) of None \<Rightarrow> purge t key A | Some (x, _) \<Rightarrow> A(key \<mapsto> (x, 0))) db'"
  proof (cases "alive t (A key)")
    case None
    then show ?thesis using h1 by (simp add: defs deadlineOf_def)
  next
    case (Some y)
    obtain x e where y: "y = (x, e)" by (cases y)
    have at: "purge t key A key = Some (x, e)" using Some y by simp
    show ?thesis
    proof (cases "e = 0")
      case True
      have "A key = Some (x, 0)" using Some y True by (simp add: alive_Some_iff)
      then have "A(key \<mapsto> (x, 0)) = purge t key A" using Some y True by (simp add: purge_def)
      then show ?thesis using True Some y h' by (simp add: defs deadlineOf_def)
    next
      case e: False
      show ?thesis
      proof (cases "objRepr x = ReprScalar")
        case True
        then obtain v where x: "x = RString v" by (cases x) (simp_all add: objRepr_def)
        obtain data rec where rec: "dbView db' (valueKey key) = Some data" "decodeRecord data = Ok rec"
          "rr_payload rec = v" "length (rr_codec rec) \<le> 65535"
          using scalarE [OF h' len] at x by metis
        have sc: "scalarOrNone (purge t key A key)" using at x by (simp add: scalarOrNone_def)
        let ?db = "dbPut (valueKey key) (envBytes (rr_codec rec) v 0) db'"
        have "holds t ((purge t key A)(key \<mapsto> (RString v, 0))) ?db"
          using s'(1,2) by (intro putScalar [OF h' len sc]) (simp_all add: decode_envBytes rec(4))
        then show ?thesis
          using e Some y x rec s'(1) putPayload_eq [OF h' rec(4)] by (simp add: defs deadlineOf_def op_simps)
      next
        case x: False
        then have str: "typeName (Some (x, e)) \<noteq> redisTypeString" by (simp add: typeName_string_iff)
        let ?db = "dbDel (collectionTTLKey key) db'"
        have "holds t ((purge t key A)(key \<mapsto> (x, 0))) ?db"
          using s'(1,2) by (intro set_ttl [OF h' len at x]) simp_all
        then show ?thesis using e Some y str s'(1) by (simp add: defs deadlineOf_def op_simps)
      qed
    qed
  qed
qed

end

end
