(* ===== verification/KeyspaceColl.thy ===== *)
theory KeyspaceColl
  imports KeyspaceRep
begin

text \<open>
  Hashes, sets and lists of the storage layer as operations on the abstract key space.
\<close>

lemma onlyRepr_nothing:
  "(\<And>sk. recordOf key sk \<Longrightarrow> m sk = None) \<Longrightarrow> onlyRepr R key m"
  using reprKey_recordOf by (auto simp: onlyRepr_def lacksRepr_def)

definition hashFieldOf :: "(robj \<times> int) option \<Rightarrow> bytes \<Rightarrow> bytes option res" where
  "hashFieldOf r f = (case asHash r of Some (h, _) \<Rightarrow> Ok (h f) | None \<Rightarrow> Err (wrongType (typeName r)))"

lemma asHash_None_iff: "asHash r = None \<longleftrightarrow> typeName r \<noteq> redisTypeNone \<and> typeName r \<noteq> redisTypeHash"
  by (cases r rule: option.exhaust; cases "fst (the r)") (auto simp: as_defs typeName_def split: option.split prod.split robj.split)

definition entriesOf :: "(bytes \<Rightarrow> bytes option) \<Rightarrow> redisHashEntry list" where
  "entriesOf h = map (\<lambda>f. \<lparr>he_field = f, he_value = the (h f)\<rparr>) (sorted_list_of_set (dom h))"

definition hashEntriesOf :: "(robj \<times> int) option \<Rightarrow> (redisHashEntry list \<times> bool) res" where
  "hashEntriesOf r = (case asHash r of
      Some (h, _) \<Rightarrow> Ok (entriesOf h, h \<noteq> Map.empty) | None \<Rightarrow> Err (wrongType (typeName r)))"

lemma sort_entries:
  assumes "distinct fs"
  shows "sort_key he_field (map (\<lambda>f. \<lparr>he_field = f, he_value = g f\<rparr>) fs)
    = map (\<lambda>f. \<lparr>he_field = f, he_value = g f\<rparr>) (sorted_list_of_set (set fs))"
proof (rule map_sorted_distinct_set_unique [where f = he_field])
  show "inj_on he_field (set (sort_key he_field (map (\<lambda>f. \<lparr>he_field = f, he_value = g f\<rparr>) fs)) \<union>
      set (map (\<lambda>f. \<lparr>he_field = f, he_value = g f\<rparr>) (sorted_list_of_set (set fs))))"
    by (auto simp: inj_on_def)
  show "distinct (map he_field (sort_key he_field (map (\<lambda>f. \<lparr>he_field = f, he_value = g f\<rparr>) fs)))"
    using assms by (auto simp: distinct_map inj_on_def)
qed (simp_all add: comp_def)

definition setMembersOf :: "(robj \<times> int) option \<Rightarrow> (bytes list \<times> bool) res" where
  "setMembersOf r = (case asSet r of
      Some (S, _) \<Rightarrow> Ok (sorted_list_of_set S, S \<noteq> {}) | None \<Rightarrow> Err (wrongType (typeName r)))"

lemma asSet_None_iff: "asSet r = None \<longleftrightarrow> typeName r \<noteq> redisTypeNone \<and> typeName r \<noteq> redisTypeSet"
  by (cases r rule: option.exhaust; cases "fst (the r)") (auto simp: as_defs typeName_def split: option.split prod.split robj.split)

lemma asList_None_iff: "asList r = None \<longleftrightarrow> typeName r \<noteq> redisTypeNone \<and> typeName r \<noteq> redisTypeList"
  by (cases r rule: option.exhaust; cases "fst (the r)") (auto simp: as_defs typeName_def split: option.split prod.split robj.split)

abbreviation itemsAre :: "bytes list \<Rightarrow> bytes list \<Rightarrow> bool" where
  "itemsAre items xs \<equiv> list_all2 (\<lambda>item v. recordIs item v 0) items xs"

context local_engine
begin

section \<open>Hashes\<close>

lemma hash_frame:
  assumes "holds t A db" "lenOk key" "asHash (A key) = Some (h, e)"
  shows "onlyRepr ReprHash key (dbView db)" "ttlIs e key (dbView db)" "0 \<le> e" "isInt64 e"
    "rel_option (\<lambda>data v. recordIs data v 0) (dbView db (namespacedKey kindHash key f)) (h f)"
proof -
  note rk = repKeyD [OF holds_simps(3) [OF assms(1)] assms(2)]
  have "onlyRepr ReprHash key (dbView db) \<and> ttlIs e key (dbView db) \<and> 0 \<le> e \<and> isInt64 e \<and>
    rel_option (\<lambda>data v. recordIs data v 0) (dbView db (namespacedKey kindHash key f)) (h f)"
  proof (cases "A key")
    case None
    then show ?thesis
      using rk assms(3) onlyRepr_nothing [of key "dbView db"] by (auto simp: repKey_def as_defs ttlIs_def)
  next
    case (Some y)
    then show ?thesis using rk assms(3)
      by (cases y; cases "fst y") (auto simp: as_defs repKey_def repData_def objRepr_def)
  qed
  then show "onlyRepr ReprHash key (dbView db)" "ttlIs e key (dbView db)" "0 \<le> e" "isInt64 e"
    "rel_option (\<lambda>data v. recordIs data v 0) (dbView db (namespacedKey kindHash key f)) (h f)" by simp_all
qed

lemma hash_field_none:
  assumes "holds t A db" "lenOk key" "asHash (A key) = Some (h, e)"
  shows "dbView db (namespacedKey kindHash key f) = None \<longleftrightarrow> h f = None"
  using hash_frame(5) [OF assms] by (metis option.rel_distinct option.rel_sel)

lemma hash_put:
  assumes h: "holds t A db" and len: "lenOk key" and at: "asHash (A key) = Some (hm, e)"
    and rec: "recordIs data v 0"
    and db': "dbOk db'" "clockIs t db'" "dbView db' = (dbView db)(namespacedKey kindHash key f \<mapsto> data)"
  shows "holds t (A(key \<mapsto> (RHash (hm(f \<mapsto> v)), e))) db'"
proof -
  note fr = hash_frame [OF h len at]
  have "onlyRepr ReprHash key (dbView db')"
    unfolding db'(3) by (rule onlyRepr_put [OF fr(1)]) (simp_all add: len)
  then have "repKey (Some (RHash (hm(f \<mapsto> v)), e)) key (dbView db')"
    using rec fr(2-5) by (simp add: repKey_def objRepr_def repData_def db'(3) ttlIs_def)
  then show ?thesis using db' by (intro holds_upd [OF h len]) auto
qed

lemma runs_hashPut:
  assumes "lenOk key" "asHash (A key) = Some (hm, e)"
  shows "runs t (putPayload None (dbProtocol_HashKey key f) bytesCodec v 0) A (Ok ())
    (A(key \<mapsto> (RHash (hm(f \<mapsto> v)), e)))"
proof (rule runsI)
  fix db :: "('s, 'v) DB"
  assume h: "holds t A db"
  note s = holds_simps [OF h]
  have c: "length bytesCodec \<le> 65535" by (simp add: bytesCodec_def)
  have "holds t (A(key \<mapsto> (RHash (hm(f \<mapsto> v)), e))) (dbPut (namespacedKey kindHash key f) (envBytes bytesCodec v 0) db)"
    using s(1,2) by (intro hash_put [OF h assms]) (simp_all add: decode_envBytes c)
  then show "\<exists>db'. putPayload None (dbProtocol_HashKey key f) bytesCodec v 0 db = (Ok (), db')
      \<and> holds t (A(key \<mapsto> (RHash (hm(f \<mapsto> v)), e))) db'"
    using putPayload_eq [OF h c] by simp
qed

lemma runs_redisHashField:
  assumes len: "lenOk key"
  shows "runs t (redisHashField None key f) A (hashFieldOf (alive t (A key)) f) (purge t key A)"
proof (rule runsI)
  fix db :: "('s, 'v) DB"
  assume hd: "holds t A db"
  obtain db' where ty: "redisType None key db = (Ok (typeName (alive t (A key))), db')"
    and h': "holds t (purge t key A) db'" "dbOk db'" by (rule typeE [OF hd len])
  note defs = redisHashField_def bindE_def ret_def throw_def liftR_def hashFieldOf_def ty
  have "redisHashField None key f db = (hashFieldOf (alive t (A key)) f, db')"
  proof (cases "asHash (alive t (A key))")
    case None
    then show ?thesis using asHash_None_iff [of "alive t (A key)"] by (simp add: defs)
  next
    case (Some y)
    obtain h e where y: "y = (h, e)" by (cases y)
    have at: "asHash (purge t key A key) = Some (h, e)" using Some y by simp
    show ?thesis
    proof (cases "alive t (A key)")
      case None
      then show ?thesis using Some y by (auto simp: defs as_defs)
    next
      case (Some z)
      then have tyn: "typeName (alive t (A key)) = redisTypeHash"
        using \<open>asHash (alive t (A key)) = Some y\<close> asHash_None_iff [of "alive t (A key)"] by auto
      show ?thesis
      proof (cases "h f")
        case None
        then have "dbView db' (namespacedKey kindHash key f) = None"
          using hash_field_none [OF h'(1) len at] by simp
        then show ?thesis using tyn h'(2) None \<open>asHash (alive t (A key)) = Some y\<close> y by (simp add: defs op_simps)
      next
        case (Some v)
        then obtain data rec where "dbView db' (namespacedKey kindHash key f) = Some data"
          "decodeRecord data = Ok rec" "rr_payload rec = v" "rr_expiresAt rec = 0"
          using hash_frame(5) [OF h'(1) len at, of f] by (auto simp: option_rel_Some2 recordIs_def)
        then show ?thesis
          using tyn h'(2) Some \<open>asHash (alive t (A key)) = Some y\<close> y
          by (simp add: defs op_simps recordExpired_def)
      qed
    qed
  qed
  with h'(1) show "\<exists>db'. redisHashField None key f db = (hashFieldOf (alive t (A key)) f, db') \<and> holds t (purge t key A) db'"
    by blast
qed

lemma fields_items:
  assumes "dbOk db"
  shows "set (map (\<lambda>x. drop (5 + length key) (fst x)) (dbItems (namespacePrefix k key) db))
      = {f. dbView db (namespacedKey k key f) \<noteq> None}"
    "distinct (map (\<lambda>x. drop (5 + length key) (fst x)) (dbItems (namespacePrefix k key) db))"
proof -
  have keys: "fst ` set (dbItems (namespacePrefix k key) db) = {sk. dbView db sk \<noteq> None \<and> prefix (namespacePrefix k key) sk}"
    by (rule dbItems_keys [OF assms])
  show "set (map (\<lambda>x. drop (5 + length key) (fst x)) (dbItems (namespacePrefix k key) db))
      = {f. dbView db (namespacedKey k key f) \<noteq> None}"
  proof (intro set_eqI iffI)
    fix f
    assume "f \<in> set (map (\<lambda>x. drop (5 + length key) (fst x)) (dbItems (namespacePrefix k key) db))"
    then obtain sk where "sk \<in> fst ` set (dbItems (namespacePrefix k key) db)" "f = drop (5 + length key) sk"
      by auto
    then show "f \<in> {f. dbView db (namespacedKey k key f) \<noteq> None}"
      using keys by (metis (mono_tags, lifting) drop_namespacedKey_5 mem_Collect_eq prefix_namespacePrefixE)
  next
    fix f
    assume "f \<in> {f. dbView db (namespacedKey k key f) \<noteq> None}"
    then have "namespacedKey k key f \<in> fst ` set (dbItems (namespacePrefix k key) db)" using keys by simp
    then show "f \<in> set (map (\<lambda>x. drop (5 + length key) (fst x)) (dbItems (namespacePrefix k key) db))"
      by (force simp: image_iff) 
  qed
  have "inj_on (drop (5 + length key)) (fst ` set (dbItems (namespacePrefix k key) db))"
    unfolding keys by (rule inj_onI) (metis (mono_tags, lifting) drop_namespacedKey_5 mem_Collect_eq prefix_namespacePrefixE)
  then have "distinct (map (drop (5 + length key)) (map fst (dbItems (namespacePrefix k key) db)))"
    using dbItems_distinct [OF assms] by (simp add: distinct_map comp_inj_on)
  then show "distinct (map (\<lambda>x. drop (5 + length key) (fst x)) (dbItems (namespacePrefix k key) db))"
    by (simp add: comp_def)
qed

lemma foldE_entries:
  assumes "\<And>x. x \<in> set items \<Longrightarrow> \<exists>v. recordIs (snd x) v 0 \<and> h (drop n (fst x)) = Some v"
  shows "foldE (hashEntryStep n) items (acc, []) db = (Ok (acc @ map (\<lambda>x.
     \<lparr>he_field = drop n (fst x), he_value = the (h (drop n (fst x)))\<rparr>) items, []), db)"
  using assms
proof (induction items arbitrary: acc)
  case (Cons x items)
  from Cons.prems [of x] obtain v rec where "decodeRecord (snd x) = Ok rec" "rr_payload rec = v"
    "rr_expiresAt rec = 0" "h (drop n (fst x)) = Some v" by (auto simp: recordIs_def)
  then have "hashEntryStep n x (acc, []) db
      = (Ok (acc @ [\<lparr>he_field = drop n (fst x), he_value = the (h (drop n (fst x)))\<rparr>], []), db)"
    by (simp add: hashEntryStep_def bindE_def liftR_def ret_def recordExpired_def)
  with Cons show ?case by (simp add: bindE_def)
qed (simp add: ret_def)

lemma scanRun_pairs [simp]:
  "scanRun (\<lambda>acc k v. ret (acc @ [(k, v)])) items final acc d = (Ok (acc @ items, final), d)"
  by (induction items arbitrary: acc) (simp_all add: ret_def)

lemma runs_redisHashEntries:
  assumes len: "lenOk key"
  shows "runs t (redisHashEntries None key) A (hashEntriesOf (alive t (A key))) (purge t key A)"
proof (rule runsI)
  fix db :: "('s, 'v) DB"
  assume hd: "holds t A db"
  obtain db' where ty: "redisType None key db = (Ok (typeName (alive t (A key))), db')"
    and h': "holds t (purge t key A) db'" "dbOk db'" by (rule typeE [OF hd len])
  note defs = redisHashEntries_def bindE_def ret_def throw_def hashEntriesOf_def ty
  have "redisHashEntries None key db = (hashEntriesOf (alive t (A key)), db')"
  proof (cases "asHash (alive t (A key))")
    case None
    then show ?thesis using asHash_None_iff [of "alive t (A key)"] by (simp add: defs)
  next
    case (Some y)
    obtain h e where y: "asHash (alive t (A key)) = Some (h, e)" using Some by (cases y) auto
    have at: "asHash (purge t key A key) = Some (h, e)" using y by simp
    show ?thesis
    proof (cases "alive t (A key)")
      case None
      then show ?thesis using y by (auto simp: defs as_defs entriesOf_def)
    next
      case (Some z)
      then have tyn: "typeName (alive t (A key)) = redisTypeHash"
        using y asHash_None_iff [of "alive t (A key)"] by auto
      have ne: "h \<noteq> Map.empty"
        using Some y repKeyD [OF holds_simps(3) [OF h'(1)] len]
        by (cases z; cases "fst z") (auto simp: as_defs repKey_def repData_def)
      let ?items = "dbItems (namespacePrefix kindHash key) db'"
      let ?fs = "map (\<lambda>x. drop (5 + length key) (fst x)) ?items"
      have dom: "set ?fs = dom h"
        using fields_items(1) [OF h'(2), of key kindHash] hash_field_none [OF h'(1) len at] by auto
      have "\<exists>v. recordIs (snd x) v 0 \<and> h (drop (5 + length key) (fst x)) = Some v" if "x \<in> set ?items" for x
      proof -
        have x: "dbView db' (fst x) = Some (snd x)" "prefix (namespacePrefix kindHash key) (fst x)"
          using that dbItems_set [OF h'(2)] by auto
        then obtain f where "fst x = namespacedKey kindHash key f" using prefix_namespacePrefixE by blast
        then show ?thesis
          using x(1) hash_frame(5) [OF h'(1) len at, of f] by (auto simp: option_rel_Some1)
      qed
      note fold = foldE_entries [OF this, of _ "[]" db']
      have items: "?items \<noteq> []" using ne dom by (metis dom_eq_empty_conv list.set(1) list.simps(8))
      have "sort_key he_field (map (\<lambda>x. \<lparr>he_field = drop (5 + length key) (fst x),
          he_value = the (h (drop (5 + length key) (fst x)))\<rparr>) ?items) = entriesOf h"
        using sort_entries [OF fields_items(2) [OF h'(2), of key kindHash], of "\<lambda>f. the (h f)"] dom
        by (simp add: entriesOf_def comp_def)
      then show ?thesis
        using tyn y ne items fold h'(2)
        by (simp add: defs scanE_def op_simps)
    qed
  qed
  with h'(1) show "\<exists>db'. redisHashEntries None key db = (hashEntriesOf (alive t (A key)), db') \<and> holds t (purge t key A) db'"
    by blast
qed

section \<open>Removing members\<close>

text \<open>
  While a command removes the last members of a collection, its key may be left with a deadline
  and no data. \<open>nearly\<close> says that all other keys are represented.
\<close>

definition nearly :: "time \<Rightarrow> keyspace \<Rightarrow> bytes \<Rightarrow> ('s, 'v) DB \<Rightarrow> bool" where
  "nearly t A key db \<longleftrightarrow> dbOk db \<and> clockIs t db \<and> 0 \<le> t \<and> isInt64 t \<and> owned (dbView db) \<and>
     (\<forall>key'. key' \<noteq> key \<longrightarrow> lenOk key' \<longrightarrow> repKey (A key') key' (dbView db))"

lemma holds_nearly: "holds t A db \<Longrightarrow> nearly t A key db"
  by (simp add: holds_def nearly_def rep_def)

lemma nearly_holds: "nearly t A key db \<Longrightarrow> repKey r key (dbView db) \<Longrightarrow> holds t (A(key := r)) db"
  by (auto simp: holds_def nearly_def rep_def)

lemma nearly_drop: "nearly t A key db \<Longrightarrow> lenOk key \<Longrightarrow> holds t (A(key := None)) (dropKey key db)"
proof -
  assume n: "nearly t A key db" and len: "lenOk key"
  then have ok: "dbOk db" by (simp add: nearly_def)
  have "nearly t A key (dropKey key db)"
    using n len recordOf_unique
    by (auto simp: nearly_def dbView_dropKey owned_def
        intro!: repKey_cong [THEN iffD1, of _ "dbView db" "dbView (dropKey key db)"])
  then show ?thesis by (rule nearly_holds) (simp add: repKey_def dbView_dropKey ok)
qed

lemma nearly_del:
  assumes "nearly t A key db" "lenOk key" "recordOf key sk"
  shows "nearly t A key (dbDel sk db)"
proof -
  have ok: "dbOk db" using assms(1) by (simp add: nearly_def)
  have "repKey (A key') key' (dbView (dbDel sk db)) = repKey (A key') key' (dbView db)"
    if "key' \<noteq> key" "lenOk key'" for key'
    using that ok assms(2,3) recordOf_unique by (intro repKey_cong) auto
  then show ?thesis using assms(1) ok by (auto simp: nearly_def owned_def split: if_splits)
qed

text \<open>Type detection on a key that has a deadline at most.\<close>

lemma type_dataless:
  assumes n: "nearly t A key db" and ttl: "ttlIs e key (dbView db)" "0 \<le> e" "isInt64 e" "\<not> (0 < e \<and> e \<le> t)"
    and none: "\<And>R sk. reprKey R key sk \<Longrightarrow> dbView db sk = None"
  shows "redisType None key db = (Ok redisTypeNone, db)"
proof -
  have ok: "dbOk db" "clockIs t db" "UnixNano t = t" using n by (simp_all add: nearly_def UnixNano_def)
  have "redisMetadataExpiry None key db = (Ok (if e = 0 then None else Some e), db)"
    using metadata_eq [OF ok(1) ttl(1,3)] .
  then have "redisKeyExpired None key db = (Ok False, db)"
    using ok ttl by (auto simp: redisKeyExpired_def bindE_def ret_def dbProtocol_Now_def op_simps)
  moreover have "redisTypeScalar None key db = (Ok False, db)"
    using ok(1) none [OF reprKey_simps(1)] by (rule typeScalar_none)
  moreover have "redisTypeHashed None key db = (Ok False, db)"
    using ok(1) none [OF reprKey_simps(3)] by (rule hashed_nil)
  moreover have "redisTypeSetted None key db = (Ok False, db)"
    using ok(1) dbItems_nil [OF ok(1) none [OF reprKey_simps(4)]] by (simp add: op_simps)
  moreover have "redisTypeListed None key db = (Ok False, db)"
    using ok(1) none [OF reprKey_simps(2)] by (rule typeListed_none)
  ultimately show ?thesis by (simp add: redisType_def bindE_def ret_def)
qed

definition hashLike :: "time \<Rightarrow> keyspace \<Rightarrow> bytes \<Rightarrow> (bytes \<Rightarrow> bytes option) \<Rightarrow> int \<Rightarrow> ('s, 'v) DB \<Rightarrow> bool" where
  "hashLike t A key h e db \<longleftrightarrow> nearly t A key db \<and> lenOk key \<and> onlyRepr ReprHash key (dbView db) \<and>
     ttlIs e key (dbView db) \<and> 0 \<le> e \<and> isInt64 e \<and>
     (\<forall>f. rel_option (\<lambda>data v. recordIs data v 0) (dbView db (namespacedKey kindHash key f)) (h f))"

lemma holds_hashLike:
  "holds t A db \<Longrightarrow> lenOk key \<Longrightarrow> asHash (A key) = Some (h, e) \<Longrightarrow> hashLike t A key h e db"
  using hash_frame holds_nearly by (auto simp: hashLike_def)

lemma hashLike_holds: "hashLike t A key h e db \<Longrightarrow> h \<noteq> Map.empty \<Longrightarrow> holds t (A(key \<mapsto> (RHash h, e))) db"
  by (rule nearly_holds) (simp_all add: hashLike_def repKey_def objRepr_def repData_def)

lemma hashLike_del:
  assumes "hashLike t A key h e db"
  shows "hashLike t A key (h(f := None)) e (dbDel (namespacedKey kindHash key f) db)"
proof -
  have ok: "dbOk db" using assms by (simp add: hashLike_def nearly_def)
  have "onlyRepr ReprHash key (dbView (dbDel (namespacedKey kindHash key f) db))"
    by (rule onlyRepr_sub [of _ _ "dbView db"]) (use assms ok in \<open>auto simp: hashLike_def\<close>)
  then show ?thesis
    using assms ok nearly_del [of t A key db "namespacedKey kindHash key f"]
    by (auto simp: hashLike_def ttlIs_def)
qed

lemma hDelStep_eq:
  assumes "hashLike t A key h e db"
  shows "\<exists>db'. redisHDelStep key f n db = (Ok (if h f = None then n else n + 1), db')
    \<and> hashLike t A key (h(f := None)) e db'"
proof (cases "h f")
  case None
  have ok: "dbOk db" using assms by (simp add: hashLike_def nearly_def)
  have "rel_option (\<lambda>data v. recordIs data v 0) (dbView db (namespacedKey kindHash key f)) (h f)"
    using assms by (simp add: hashLike_def)
  then have "dbView db (namespacedKey kindHash key f) = None" using None by simp
  then show ?thesis using None ok assms
    by (simp add: redisHDelStep_def bindE_def ret_def op_simps fun_upd_idem)
next
  case (Some v)
  have ok: "dbOk db" using assms by (simp add: hashLike_def nearly_def)
  have "rel_option (\<lambda>data v. recordIs data v 0) (dbView db (namespacedKey kindHash key f)) (h f)"
    using assms by (simp add: hashLike_def)
  then obtain data rec where "dbView db (namespacedKey kindHash key f) = Some data" "decodeRecord data = Ok rec"
    "rr_expiresAt rec = 0" using Some by (auto simp: option_rel_Some2 recordIs_def)
  then show ?thesis using Some ok hashLike_del [OF assms, of f]
    by (simp add: redisHDelStep_def bindE_def ret_def liftR_def recordExpired_def op_simps)
qed

lemma hDelFold_eq:
  assumes "hashLike t A key h e db"
  shows "\<exists>db'. foldE (redisHDelStep key) fs n db
      = (Ok (n + int (card (set fs \<inter> dom h))), db') \<and> hashLike t A key (h |` (- set fs)) e db'"
  using assms
proof (induction fs arbitrary: h n db)
  case Nil
  then show ?case by (simp add: ret_def restrict_map_def)
next
  case (Cons f fs)
  obtain db1 where db1: "redisHDelStep key f n db = (Ok (if h f = None then n else n + 1), db1)"
    "hashLike t A key (h(f := None)) e db1" using hDelStep_eq [OF Cons.prems] by blast
  let ?n = "if h f = None then n else n + 1"
  obtain db2 where db2: "foldE (redisHDelStep key) fs ?n db1 = (Ok (?n + int (card (set fs \<inter> dom (h(f := None))))), db2)"
    "hashLike t A key ((h(f := None)) |` (- set fs)) e db2" using Cons.IH [OF db1(2)] by blast
  have map: "(h(f := None)) |` (- set fs) = h |` (- set (f # fs))" by (auto simp: restrict_map_def fun_eq_iff)
  have "card (set (f # fs) \<inter> dom h) = card (set fs \<inter> dom (h(f := None))) + (if h f = None then 0 else 1)"
  proof (cases "h f")
    case None
    then have "set (f # fs) \<inter> dom h = set fs \<inter> dom (h(f := None))" by auto
    with None show ?thesis by simp
  next
    case (Some v)
    then have "set (f # fs) \<inter> dom h = insert f (set fs \<inter> dom (h(f := None)))" by auto
    with Some show ?thesis by simp
  qed
  with db1(1) db2 map show ?case by (auto simp: bindE_def)
qed

section \<open>Sets\<close>

definition setLike :: "time \<Rightarrow> keyspace \<Rightarrow> bytes \<Rightarrow> bytes set \<Rightarrow> int \<Rightarrow> ('s, 'v) DB \<Rightarrow> bool" where
  "setLike t A key S e db \<longleftrightarrow> nearly t A key db \<and> lenOk key \<and> onlyRepr ReprSet key (dbView db) \<and>
     ttlIs e key (dbView db) \<and> 0 \<le> e \<and> isInt64 e \<and>
     (\<forall>x. dbView db (namespacedKey kindSet key x) \<noteq> None \<longleftrightarrow> x \<in> S)"

lemma holds_setLike:
  assumes "holds t A db" "lenOk key" "asSet (A key) = Some (S, e)"
  shows "setLike t A key S e db"
proof -
  note rk = repKeyD [OF holds_simps(3) [OF assms(1)] assms(2)]
  show ?thesis
  proof (cases "A key")
    case None
    then show ?thesis
      using rk assms onlyRepr_nothing [of key "dbView db"] holds_nearly [OF assms(1)]
      by (auto simp: setLike_def repKey_def as_defs ttlIs_def)
  next
    case (Some y)
    then show ?thesis using rk assms holds_nearly [OF assms(1)]
      by (cases y; cases "fst y") (auto simp: setLike_def as_defs repKey_def repData_def objRepr_def)
  qed
qed

lemma setLike_holds: "setLike t A key S e db \<Longrightarrow> S \<noteq> {} \<Longrightarrow> holds t (A(key \<mapsto> (RSet S, e))) db"
  by (rule nearly_holds) (simp_all add: setLike_def repKey_def objRepr_def repData_def)

lemma setLike_del:
  assumes "setLike t A key S e db"
  shows "setLike t A key (S - {x}) e (dbDel (namespacedKey kindSet key x) db)"
proof -
  have ok: "dbOk db" using assms by (simp add: setLike_def nearly_def)
  have "onlyRepr ReprSet key (dbView (dbDel (namespacedKey kindSet key x) db))"
    by (rule onlyRepr_sub [of _ _ "dbView db"]) (use assms ok in \<open>auto simp: setLike_def\<close>)
  then show ?thesis
    using assms ok nearly_del [of t A key db "namespacedKey kindSet key x"]
    by (auto simp: setLike_def ttlIs_def)
qed

lemma sRemFold_eq:
  assumes "setLike t A key S e db"
  shows "\<exists>db'. foldE (redisSRemStep key) xs n db
      = (Ok (n + int (card (set xs \<inter> S))), db') \<and> setLike t A key (S - set xs) e db'"
  using assms
proof (induction xs arbitrary: S n db)
  case Nil
  then show ?case by (simp add: ret_def)
next
  case (Cons x xs)
  have ok: "dbOk db" using Cons.prems by (simp add: setLike_def nearly_def)
  have iff: "dbView db (namespacedKey kindSet key x) \<noteq> None \<longleftrightarrow> x \<in> S"
    using Cons.prems by (simp add: setLike_def)
  let ?n = "if x \<in> S then n + 1 else n"
  have "\<exists>db1. redisSRemStep key x n db = (Ok ?n, db1) \<and> setLike t A key (S - {x}) e db1"
  proof (cases "x \<in> S")
    case True
    then obtain d where "dbView db (namespacedKey kindSet key x) = Some d" using iff by auto
    with True show ?thesis
      using setLike_del [OF Cons.prems, of x] ok
      by (simp add: redisSRemStep_def bindE_def ret_def op_simps)
  next
    case False
    then have "dbView db (namespacedKey kindSet key x) = None" using iff by blast
    with False show ?thesis
      using Cons.prems ok by (simp add: redisSRemStep_def bindE_def ret_def op_simps)
  qed
  then obtain db1 where db1: "redisSRemStep key x n db = (Ok ?n, db1)" "setLike t A key (S - {x}) e db1" by blast
  obtain db2 where db2: "foldE (redisSRemStep key) xs ?n db1 = (Ok (?n + int (card (set xs \<inter> (S - {x})))), db2)"
    "setLike t A key (S - {x} - set xs) e db2" using Cons.IH [OF db1(2)] by blast
  have sets: "S - {x} - set xs = S - set (x # xs)" by auto
  have "card (set (x # xs) \<inter> S) = card (set xs \<inter> (S - {x})) + (if x \<in> S then 1 else 0)"
  proof (cases "x \<in> S")
    case True
    then have "set (x # xs) \<inter> S = insert x (set xs \<inter> (S - {x}))" by auto
    with True show ?thesis by simp
  next
    case False
    then have "set (x # xs) \<inter> S = set xs \<inter> (S - {x})" by auto
    with False show ?thesis by simp
  qed
  with db1(1) db2 sets show ?case by (auto simp: bindE_def)
qed

lemma set_put:
  assumes h: "holds t A db" and len: "lenOk key" and at: "asSet (A key) = Some (S, e)"
    and db': "dbOk db'" "clockIs t db'" "dbView db' = (dbView db)(namespacedKey kindSet key x \<mapsto> data)"
  shows "holds t (A(key \<mapsto> (RSet (insert x S), e))) db'"
proof -
  note sl = holds_setLike [OF h len at]
  have "onlyRepr ReprSet key (dbView db')"
    unfolding db'(3) using sl by (intro onlyRepr_put) (simp_all add: len setLike_def)
  then have "repKey (Some (RSet (insert x S), e)) key (dbView db')"
    using sl by (auto simp: repKey_def objRepr_def repData_def setLike_def db'(3) ttlIs_def)
  then show ?thesis using db' by (intro holds_upd [OF h len]) auto
qed

lemma runs_sAddStep:
  assumes len: "lenOk key" and at: "asSet (A key) = Some (S, e)"
  shows "runs t (redisSAddStep key x n) A (Ok (if x \<in> S then n else n + 1))
    (A(key \<mapsto> (RSet (insert x S), e)))"
proof (rule runsI)
  fix db :: "('s, 'v) DB"
  assume h: "holds t A db"
  note s = holds_simps [OF h]
  have iff: "dbView db (namespacedKey kindSet key x) \<noteq> None \<longleftrightarrow> x \<in> S"
    using holds_setLike [OF h len at] by (simp add: setLike_def)
  show "\<exists>db'. redisSAddStep key x n db = (Ok (if x \<in> S then n else n + 1), db')
      \<and> holds t (A(key \<mapsto> (RSet (insert x S), e))) db'"
  proof (cases "x \<in> S")
    case True
    then obtain d where "dbView db (namespacedKey kindSet key x) = Some d" using iff by auto
    moreover have "A key = Some (RSet S, e)"
      using at True by (cases "A key"; cases "fst (the (A key))") (auto simp: as_defs)
    then have "A(key \<mapsto> (RSet (insert x S), e)) = A" using True by (auto simp: insert_absorb)
    ultimately show ?thesis using h s(1) True
      by (simp add: redisSAddStep_def bindE_def ret_def op_simps)
  next
    case False
    then have "dbView db (namespacedKey kindSet key x) = None" using iff by blast
    moreover have "holds t (A(key \<mapsto> (RSet (insert x S), e))) (dbPut (namespacedKey kindSet key x) [CHR 0x01] db)"
      using s(1,2) by (intro set_put [OF h len at]) simp_all
    ultimately show ?thesis using s(1) False
      by (simp add: redisSAddStep_def bindE_def ret_def op_simps)
  qed
qed

lemma runs_redisSetMembers:
  assumes len: "lenOk key"
  shows "runs t (redisSetMembers None key) A (setMembersOf (alive t (A key))) (purge t key A)"
proof (rule runsI)
  fix db :: "('s, 'v) DB"
  assume hd: "holds t A db"
  obtain db' where ty: "redisType None key db = (Ok (typeName (alive t (A key))), db')"
    and h': "holds t (purge t key A) db'" "dbOk db'" by (rule typeE [OF hd len])
  note defs = redisSetMembers_def bindE_def ret_def throw_def setMembersOf_def ty
  have "redisSetMembers None key db = (setMembersOf (alive t (A key)), db')"
  proof (cases "asSet (alive t (A key))")
    case None
    then show ?thesis using asSet_None_iff [of "alive t (A key)"] by (simp add: defs)
  next
    case (Some y)
    obtain S e where y: "asSet (alive t (A key)) = Some (S, e)" using Some by (cases y) auto
    show ?thesis
    proof (cases "alive t (A key)")
      case None
      then show ?thesis using y by (auto simp: defs as_defs)
    next
      case (Some z)
      then have tyn: "typeName (alive t (A key)) = redisTypeSet"
        using y asSet_None_iff [of "alive t (A key)"] by auto
      have ne: "S \<noteq> {}"
        using Some y repKeyD [OF holds_simps(3) [OF h'(1)] len]
        by (cases z; cases "fst z") (auto simp: as_defs repKey_def repData_def)
      have sl: "setLike t (purge t key A) key S e db'" using holds_setLike [OF h'(1) len] y by simp
      let ?ms = "map (\<lambda>x. drop (5 + length key) (fst x)) (dbItems (namespacePrefix kindSet key) db')"
      have ms: "set ?ms = S" "distinct ?ms"
        using fields_items [OF h'(2), of key kindSet] sl by (auto simp: setLike_def)
      have scan: "scanRun (\<lambda>members sk _. ret (members @ [drop (5 + length key) sk])) items None acc db'
          = (Ok (acc @ map (\<lambda>x. drop (5 + length key) (fst x)) items, None), db')" for items acc
        by (induction items arbitrary: acc) (simp_all add: ret_def)
      have "sort ?ms = sorted_list_of_set S"
        using ms by (metis distinct_remdups_id sorted_list_of_set_sort_remdups)
      moreover have "?ms \<noteq> []" using ms(1) ne by (metis list.set(1))
      ultimately show ?thesis
        using tyn y ne h'(2) scan [of "dbItems (namespacePrefix kindSet key) db'" "[]"]
        by (simp add: defs scanE_def op_simps)
    qed
  qed
  with h'(1) show "\<exists>db'. redisSetMembers None key db = (setMembersOf (alive t (A key)), db') \<and> holds t (purge t key A) db'"
    by blast
qed

section \<open>Lists\<close>

lemma list_frame:
  assumes "holds t A db" "lenOk key" "asList (A key) = Some (xs, e)"
  shows "onlyRepr ReprList key (dbView db)" "ttlIs e key (dbView db)" "0 \<le> e" "isInt64 e"
proof -
  note rk = repKeyD [OF holds_simps(3) [OF assms(1)] assms(2)]
  have "onlyRepr ReprList key (dbView db) \<and> ttlIs e key (dbView db) \<and> 0 \<le> e \<and> isInt64 e"
  proof (cases "A key")
    case None
    then show ?thesis
      using rk assms(3) onlyRepr_nothing [of key "dbView db"] by (auto simp: repKey_def as_defs ttlIs_def)
  next
    case (Some y)
    then show ?thesis using rk assms(3)
      by (cases y; cases "fst y") (auto simp: as_defs repKey_def repData_def objRepr_def)
  qed
  then show "onlyRepr ReprList key (dbView db)" "ttlIs e key (dbView db)" "0 \<le> e" "isInt64 e" by simp_all
qed

lemma runs_writeList:
  assumes len: "lenOk key" and at: "asList (A key) = Some (ys, e)" and items: "itemsAre items xs" "listOk items"
  shows "runs t (redisWriteList None key items) A (Ok ()) (A(key := listObj xs e))"
proof (cases "items = []")
  case True
  then have "xs = []" using items(1) by simp
  then show ?thesis
    using True runs_bind [OF runs_DeleteRaw [OF len] runs_basic(1) [where x = "()"]]
    by (simp add: redisWriteList_def listObj_def fun_upd_def)
next
  case False
  show ?thesis
  proof (rule runsI)
    fix db :: "('s, 'v) DB"
    assume h: "holds t A db"
    note s = holds_simps [OF h]
    let ?db = "dbPut (listKey key) (encodeList items) db"
    note fr = list_frame [OF h len at]
    have xs: "xs \<noteq> []" using False items(1) by auto
    have "onlyRepr ReprList key (dbView ?db)"
      using s(1) onlyRepr_put [OF fr(1), of "listKey key"] len by simp
    then have "repKey (Some (RList xs, e)) key (dbView ?db)"
      using fr items s(1) xs
      by (auto simp: repKey_def objRepr_def repData_def ttlIs_def decodeList_encodeList)
    then have "holds t (A(key := Some (RList xs, e))) ?db"
      using s(1,2) by (intro holds_upd [OF h len]) auto
    then show "\<exists>db'. redisWriteList None key items db = (Ok (), db') \<and> holds t (A(key := listObj xs e)) db'"
      using False xs s(1) by (simp add: redisWriteList_def op_simps dbProtocol_EncodeList_def listObj_def)
  qed
qed

lemma liveItems_eq:
  assumes "holds t A db" "itemsAre items xs"
  shows "foldE liveItemStep items (acc, False) db = (Ok (acc @ items, False), db)"
  using assms(2)
proof (induction items arbitrary: xs acc)
  case (Cons i items)
  then obtain v ys rec where "xs = v # ys" "decodeRecord i = Ok rec" "rr_expiresAt rec = 0" "itemsAre items ys"
    by (auto simp: list_all2_Cons1 recordIs_def)
  moreover from this have "liveItemStep i (acc, False) db = (Ok (acc @ [i], False), db)"
    by (simp add: liveItemStep_def bindE_def liftR_def ret_def redisItemPayload_def Now_eq [OF assms(1)])
  ultimately show ?case using Cons.IH [of ys "acc @ [i]"] by (simp add: bindE_def)
qed (simp add: ret_def)

lemma listValuesE:
  assumes hd: "holds t A db" and len: "lenOk key" and al: "asList (alive t (A key)) = Some (xs, e)"
  obtains items db' where "redisListValues None key db = (Ok (if xs = [] then None else Some items), db')"
    "holds t (purge t key A) db'" "itemsAre items xs" "listOk items"
proof -
  obtain db' where ty: "redisType None key db = (Ok (typeName (alive t (A key))), db')"
    and h': "holds t (purge t key A) db'" "dbOk db'" by (rule typeE [OF hd len])
  note defs = redisListValues_def redisList_def bindE_def ret_def throw_def liftR_def ty
  show thesis
  proof (cases "alive t (A key)")
    case None
    then have "xs = []" using al by (simp add: as_defs)
    then show thesis using None h' that [of "[]" db'] by (simp add: defs listOk_def)
  next
    case (Some z)
    then have z: "alive t (A key) = Some (RList xs, e)"
      using al by (cases z; cases "fst z") (auto simp: as_defs)
    then obtain data items where d: "dbView db' (listKey key) = Some data" "decodeList data = Ok items"
      "itemsAre items xs" "xs \<noteq> []"
      using repKeyD [OF holds_simps(3) [OF h'(1)] len] by (auto simp: repKey_def repData_def)
    moreover have "items \<noteq> []" using d(3,4) by auto
    ultimately have "redisListValues None key db = (Ok (Some items), db')"
      using z h'(2) liveItems_eq [OF h'(1) d(3), of "[]"]
      by (simp add: defs op_simps dbProtocol_DecodeList_def)
    then show thesis using that [of items db'] h'(1) d decodeList_sound(2) by simp
  qed
qed

lemma runs_listValuesErr:
  assumes len: "lenOk key" and al: "asList (alive t (A key)) = None"
  shows "runs t (redisListValues None key) A (Err (wrongType (typeName (alive t (A key))))) (purge t key A)"
proof (rule runsI)
  fix db :: "('s, 'v) DB"
  assume hd: "holds t A db"
  obtain db' where ty: "redisType None key db = (Ok (typeName (alive t (A key))), db')"
    and h': "holds t (purge t key A) db'" "dbOk db'" by (rule typeE [OF hd len])
  then show "\<exists>db'. redisListValues None key db = (Err (wrongType (typeName (alive t (A key)))), db') \<and> holds t (purge t key A) db'"
    using al asList_None_iff [of "alive t (A key)"]
    by (simp add: redisListValues_def redisList_def bindE_def ret_def throw_def)
qed

end

end
