(* ===== verification/KeyspaceStrings.thy ===== *)
theory KeyspaceStrings
  imports KeyspaceColl
begin

text \<open>
  The string, counter, deletion and expiry commands of \<open>extensions/redis/redis_commands.go\<close>
  implement their specifications on the abstract key space.
\<close>

section \<open>Refinement\<close>

text \<open>What the representation says of a key that has been looked at.\<close>

definition keyOk :: "time \<Rightarrow> (robj \<times> int) option \<Rightarrow> bool" where
  "keyOk t r \<longleftrightarrow> 0 \<le> t \<and> isInt64 t \<and> (case r of None \<Rightarrow> True | Some (x, e) \<Rightarrow>
     0 \<le> e \<and> isInt64 e \<and> (e = 0 \<or> t < e) \<and> x \<noteq> RHash Map.empty \<and> x \<noteq> RSet {} \<and> x \<noteq> RList [])"

lemma keyOk_live: "keyOk t r \<Longrightarrow> alive t r = r"
  by (auto simp: keyOk_def alive_def split: option.splits prod.splits)

lemma replyE_basic [simp]:
  "replyE (ret x) = ret x" "replyE (throw e) = ret (redisErrorReply (Some e))"
  by (simp_all add: replyE_def fun_eq_iff ret_def throw_def)

lemma replyE_if: "replyE (if b then m else m') = (if b then replyE m else replyE m')"
  by simp

lemma replyE_replyE [simp]: "replyE (replyE m) = replyE m"
  by (auto simp: replyE_def fun_eq_iff split: prod.split res.split)

lemma wrongType_reply [simp]: "redisErrorReply (Some (wrongType ty)) = wrongTypeReply"
  by (simp add: redisErrorReply_def wrongType_def wrongTypeReply_def)

lemma new_reply [simp]: "redisErrorReply (Some (errorsNew s)) = respErrorString (''ERR '' @ s)"
  by (simp add: redisErrorReply_def) (simp add: errorsNew_def)

lemma onKey_eq: "onKey t key A g = g (alive t (A key)) (purge t key A)"
  by (simp add: onKey_def)

section \<open>Arithmetic of deadlines\<close>

lemmas nanos = nanosPerSecond_def nanosPerMillisecond_def

definition timeUnit :: "int \<Rightarrow> bool" where
  "timeUnit unit \<longleftrightarrow> unit = nanosPerSecond \<or> unit = nanosPerMillisecond"

lemma sdiv_bounds:
  assumes "timeUnit unit"
  shows "(maxInt64 sdiv unit < n) = (maxInt64 < n * unit)" "(n < minInt64 sdiv unit) = (n * unit < minInt64)"
  using assms by (auto simp: timeUnit_def signed_divide_int_def maxInt64_def minInt64_def sgn_if nanos)

text \<open>The overflow tests of the commands accept exactly the representable deadlines.\<close>

lemma deadline_pos:
  assumes "timeUnit unit" "0 < n" "0 \<le> t" "isInt64 t"
  shows "deadline t unit False n = (if maxInt64 sdiv unit < n \<or> maxInt64 - n * unit < t then None else Some (t + n * unit))"
    "deadline t unit True n = (if maxInt64 sdiv unit < n then None else Some (n * unit))"
  using assms by (auto simp: deadline_def sdiv_bounds isInt64_def Let_def timeUnit_def nanos minInt64_def)

lemma deadline_bounds:
  assumes "deadline t unit absolute n = Some e" "timeUnit unit" "0 < n" "0 \<le> t"
  shows "0 < e" "isInt64 e" "\<not> absolute \<Longrightarrow> t < e"
  using assms by (auto simp: deadline_def Let_def timeUnit_def nanos split: if_splits)

lemma redisExpiryFromCommand_eq:
  assumes "0 \<le> t" "isInt64 t"
  shows "redisExpiryFromCommand t command n =
    (case deadline t (if HasPrefix command ''P'' then nanosPerMillisecond else nanosPerSecond) (HasSuffix command ''AT'') n of
       Some e \<Rightarrow> Ok e | None \<Rightarrow> Err (errorsNew ''invalid expire time''))"
proof -
  let ?u = "if HasPrefix command ''P'' then nanosPerMillisecond else nanosPerSecond"
  have u: "timeUnit ?u" by (simp add: timeUnit_def)
  have "UnixNano t = t" using assms by (simp add: UnixNano_def)
  then show ?thesis
    using assms unfolding redisExpiryFromCommand_def Let_def sdiv_bounds [OF u]
    by (auto simp: deadline_def Let_def int64_defs)
qed

section \<open>Pure parts of the commands\<close>

lemma stringOf_simps [simp]:
  "stringOf None = Ok None" "stringOf (Some (RString v, e)) = Ok (Some v)"
  "stringOf (Some (RHash h, e)) = Err (wrongType (typeName (Some (RHash h, e))))"
  "stringOf (Some (RSet S, e)) = Err (wrongType (typeName (Some (RSet S, e))))"
  "stringOf (Some (RList xs, e)) = Err (wrongType (typeName (Some (RList xs, e))))"
  by (simp_all add: stringOf_def)

lemma stringOf_cases:
  "(stringOf r = Ok x \<longleftrightarrow> (r = None \<and> x = None) \<or> (\<exists>v e. r = Some (RString v, e) \<and> x = Some v))"
  "(stringOf r = Err er \<longleftrightarrow> er = wrongType (typeName r) \<and> \<not> scalarOrNone r)"
  "stringOf r \<noteq> Panic p"
  by (auto simp: stringOf_def scalarOrNone_def split: option.splits robj.splits)

lemma UnixNano_time: "isInt64 t \<Longrightarrow> UnixNano t = t"
  by (simp add: UnixNano_def)

definition optOk :: "redisSetOptions \<Rightarrow> bool" where
  "optOk opt \<longleftrightarrow> isInt64 (so_expiresAt opt) \<and> (if so_hasExpiry opt then 0 < so_expiresAt opt else so_expiresAt opt = 0)"

lemma setOptionsAt_ok:
  assumes "setOptionsAt t host args opt = Ok opt'" "optOk opt" "0 \<le> t"
  shows "optOk opt'"
  using assms(1,2)
proof (induction host args opt rule: setOptionsLoop.induct)
  case (2 host arg args opt)
  show ?case
  proof (cases "setWord host arg")
    case (WordExpire unit absolute)
    then have u: "timeUnit unit" by (auto simp: setWord_def Let_def timeUnit_def split: if_splits)
    show ?thesis
      using WordExpire 2(5) [OF WordExpire] 2(6,7) deadline_bounds [OF _ u _ assms(3)]
      by (auto simp: optOk_def split: list.splits if_splits sum.splits option.splits)
  qed (use 2 in \<open>auto simp: optOk_def split: if_splits\<close>)
qed simp

lemma setOptionsAt_noPanic: "setOptionsAt t host args opt \<noteq> Panic p"
  by (induction t host args opt rule: setOptionsAt.induct)
    (auto split: setWord.splits list.splits sum.splits option.splits)

lemma ret_bindE_simp [simp]: "bindE (ret x) f = f x"
  by (simp add: op_simps)

lemma lenOk_tl: "list_all lenOk args \<Longrightarrow> list_all lenOk (tl args)"
  by (cases args) auto

lemma even_tl: "length args mod 2 = Suc 0 \<Longrightarrow> even (length (tl args))"
  by (cases args) (auto, presburger)

lemma anyAlive_none: "A k = None \<Longrightarrow> snd (anyAlive t xs A) k = None"
proof (induction t xs A rule: anyAlive.induct)
  case (2 t key rest A)
  have "purge t key A k = None" using 2(2) by (cases "k = key") (auto simp: alive_def)
  then show ?case using 2(1) by simp
qed simp

fun keysFree :: "bytes list \<Rightarrow> keyspace \<Rightarrow> bool" where
  "keysFree (key # v # rest) A \<longleftrightarrow> scalarOrNone (A key) \<and> keysFree rest A"
| "keysFree _ A \<longleftrightarrow> True"

lemma keysFree_put: "keysFree xs A \<Longrightarrow> keysFree xs (A(key \<mapsto> (RString v, e)))"
  by (induction xs A rule: keysFree.induct) (auto simp: scalarOrNone_def)

lemma anyAlive_free: "fst (anyAlive t xs A) = False \<Longrightarrow> keysFree xs (snd (anyAlive t xs A))"
proof (induction t xs A rule: anyAlive.induct)
  case (2 t key rest A)
  then have a: "alive t (A key) = None" "fst (anyAlive t (drop 1 rest) (purge t key A)) = False"
    by (cases "alive t (A key)"; simp)+
  have "snd (anyAlive t (drop 1 rest) (purge t key A)) key = None" using a by (intro anyAlive_none) simp
  then show ?case using 2(1) a by (cases rest) (auto simp: scalarOrNone_def)
qed simp

lemma replyE_IncrBy [simp]: "replyE (redisIncrementBig key delta) = redisIncrementBig key delta"
  by (simp add: redisIncrementBig_def)

lemma anyAlive_keysFree: "anyAlive t xs A = (False, A') \<Longrightarrow> keysFree xs A'"
  using anyAlive_free [of t xs A] by simp

section \<open>The commands\<close>

context local_engine
begin

definition refines :: "time \<Rightarrow> (('s, 'v) DB, respValue) op \<Rightarrow> spec \<Rightarrow> bool" where
  "refines t m s \<longleftrightarrow> (\<forall>A. runs t m A (Ok (fst (s A))) (snd (s A)))"

lemma refinesI: "(\<And>A. runs t m A (Ok (fst (s A))) (snd (s A))) \<Longrightarrow> refines t m s"
  by (simp add: refines_def)

lemma refinesD: "refines t m s \<Longrightarrow> s A = (x, A') \<Longrightarrow> runs t m A (Ok x) A'"
  by (auto simp: refines_def dest: spec [of _ A])

lemma runs_ret: "x = y \<Longrightarrow> A = A' \<Longrightarrow> runs t (ret x) A (Ok y) A'"
  by (simp add: runs_basic)

lemma refines_arity:
  "(\<not> bad \<Longrightarrow> refines t m s) \<Longrightarrow> good = (\<not> bad) \<Longrightarrow>
     refines t (if bad then ret redisSyntaxError else m) (arity good s)"
  by (auto simp: refines_def arity_def runs_basic)

lemma holds_keyOk:
  assumes "holds t A db" "lenOk key" "alive t (A key) = A key"
  shows "keyOk t (A key)"
  using repKeyD [OF holds_simps(3) [OF assms(1)] assms(2)] holds_simps(5,6) [OF assms(1)] assms(3)
  by (auto simp: keyOk_def alive_def repKey_def repData_def split: option.splits prod.splits if_splits)

lemma runs_keyOk:
  assumes "lenOk key" "alive t (A key) = A key" "keyOk t (A key) \<Longrightarrow> runs t m A r A'"
  shows "runs t m A r A'"
  using holds_keyOk [of t A _ key] assms unfolding runs_def by blast

lemma runs_replyBind:
  assumes m: "runs t m A r A'" and ok: "\<And>x. r = Ok x \<Longrightarrow> runs t (replyE (f x)) A' (Ok y) A''"
    and err: "\<And>e. r = Err e \<Longrightarrow> redisErrorReply (Some e) = y \<and> A' = A''" and np: "\<And>p. r \<noteq> Panic p"
  shows "runs t (replyE (bindE m f)) A (Ok y) A''"
proof (cases r)
  case (Ok x)
  have "replyE (bindE m f) db = replyE (f x) db'" if "m db = (Ok x, db')" for db db'
    using that by (simp add: replyE_def bindE_def)
  then show ?thesis using m ok [OF Ok] unfolding Ok runs_def by metis
next
  case (Err e)
  then show ?thesis using m err [OF Err] runs_replyErr [OF runs_bindErr] by auto
qed (use np in simp)

text \<open>A command that reads one key and continues with what it has found.\<close>

lemma refines_read:
  assumes m: "\<And>A. runs t m A (rd (alive t (A key))) (purge t key A)" and len: "lenOk key"
    and ok: "\<And>A x. keyOk t (A key) \<Longrightarrow> rd (A key) = Ok x \<Longrightarrow>
      runs t (replyE (f x)) A (Ok (fst (g (A key) A))) (snd (g (A key) A))"
    and err: "\<And>A e. rd (A key) = Err e \<Longrightarrow> g (A key) A = (redisErrorReply (Some e), A)"
    and np: "\<And>r p. rd r \<noteq> Panic p"
  shows "refines t (replyE (bindE m f)) (\<lambda>A. onKey t key A g)"
proof (rule refinesI, unfold onKey_eq, rule runs_replyBind [OF m _ _ np])
  fix A x
  assume "rd (alive t (A key)) = Ok x"
  then have "keyOk t (alive t (A key)) \<Longrightarrow> runs t (replyE (f x)) (purge t key A)
      (Ok (fst (g (alive t (A key)) (purge t key A)))) (snd (g (alive t (A key)) (purge t key A)))"
    using ok [of "purge t key A" x] by simp
  from runs_keyOk [OF len, of t "purge t key A", unfolded purge_same alive_alive, OF refl this]
  show "runs t (replyE (f x)) (purge t key A) (Ok (fst (g (alive t (A key)) (purge t key A))))
      (snd (g (alive t (A key)) (purge t key A)))"
    by simp
next
  fix A e
  assume "rd (alive t (A key)) = Err e"
  then show "redisErrorReply (Some e) = fst (g (alive t (A key)) (purge t key A)) \<and>
      purge t key A = snd (g (alive t (A key)) (purge t key A))"
    using err [of "purge t key A" e] by simp
qed

lemmas refines_string = refines_read [where rd = stringOf, OF runs_redisString]
lemmas refines_type = refines_read [where rd = "\<lambda>r. Ok (typeName r)", OF runs_redisType]

lemma refines_Get:
  assumes "list_all lenOk args"
  shows "refines t (redisGet args) (specGet t args)"
  unfolding redisGet_def specGet_def Background_def using assms
  by (intro refines_arity refines_string)
    (auto simp: args_lenOk stringOf_cases scalarOrNone_def bulkOrNil_def intro!: runs_ret split: option.splits robj.splits)

lemma refines_StrLen:
  assumes "list_all lenOk args"
  shows "refines t (redisStrLen args) (specStrLen t args)"
  unfolding redisStrLen_def specStrLen_def Background_def using assms
  by (intro refines_arity refines_string)
    (auto simp: args_lenOk stringOf_cases scalarOrNone_def intro!: runs_ret split: option.splits robj.splits)

lemma refines_Type:
  assumes "list_all lenOk args"
  shows "refines t (redisTypeCommand args) (specType t args)"
  unfolding redisTypeCommand_def specType_def Background_def using assms
  by (intro refines_arity refines_type) (auto simp: args_lenOk intro!: runs_ret)

lemma runs_then:
  "runs t m A (Ok x) A' \<Longrightarrow> runs t (replyE (f x)) A' (Ok y) A'' \<Longrightarrow> runs t (replyE (bindE m f)) A (Ok y) A''"
  by (erule runs_replyBind) simp_all

lemma runs_putString:
  assumes "lenOk key" "scalarOrNone (A key)" "keyOk t (A key)" "e = 0 \<or> t < e" "isInt64 e"
  shows "runs t (redisWriteString None key v e) A (Ok ()) (A(key \<mapsto> (RString v, e)))"
  using runs_writeString [of key A e t v] assms
  by (auto simp: alive_def keyOk_def split: if_splits)

lemma refines_SetNX:
  assumes "list_all lenOk args"
  shows "refines t (redisSetNX args) (specSetNX t args)"
  unfolding redisSetNX_def specSetNX_def Background_def using assms
  by (intro refines_arity refines_type)
    (auto simp: args_lenOk scalarOrNone_def isInt64_0 intro!: runs_ret runs_then [OF runs_putString])

lemma refines_GetSet:
  assumes "list_all lenOk args"
  shows "refines t (redisGetSet args) (specGetSet t args)"
  unfolding redisGetSet_def specGetSet_def Background_def using assms
  by (intro refines_arity refines_string)
    (auto simp: args_lenOk stringOf_cases scalarOrNone_def bulkOrNil_def isInt64_0 keyOk_def
      intro!: runs_ret runs_then [OF runs_DeleteRaw] runs_then [OF runs_putString] split: option.splits robj.splits)

lemma refines_GetDel:
  assumes "list_all lenOk args"
  shows "refines t (redisGetDel args) (specGetDel t args)"
  unfolding redisGetDel_def specGetDel_def Background_def using assms
  by (intro refines_arity refines_string)
    (auto simp: args_lenOk stringOf_cases scalarOrNone_def bulkOrNil_def
      intro!: runs_ret runs_then [OF runs_DeleteRaw] split: option.splits robj.splits)

lemma refines_Append:
  assumes "list_all lenOk args"
  shows "refines t (redisAppend args) (specAppend t args)"
  unfolding redisAppend_def specAppend_def Background_def Let_def using assms
  by (intro refines_arity refines_string)
    (auto simp: args_lenOk stringOf_cases scalarOrNone_def keyOk_live isInt64_0 deadlineOf_def purge_live
      intro!: runs_ret runs_then [OF runs_redisExpiry] runs_then [OF runs_putString]
      split: option.splits robj.splits simp: keyOk_def)

lemma runs_time: "(0 \<le> t \<Longrightarrow> isInt64 t \<Longrightarrow> runs t m A r A') \<Longrightarrow> runs t m A r A'"
  unfolding runs_def using holds_simps(5,6) by blast

lemma refines_IncrBy:
  assumes "lenOk key"
  shows "refines t (redisIncrementBig key delta) (specIncrBy t key delta)"
  unfolding redisIncrementBig_def specIncrBy_def Background_def Let_def
  by (rule refines_string)
    (auto simp: assms stringOf_cases scalarOrNone_def keyOk_live isInt64_0 deadlineOf_def purge_live notInteger_def
      intro!: runs_ret runs_then [OF runs_redisExpiry] runs_then [OF runs_putString]
      split: option.splits robj.splits simp: keyOk_def)

lemma refines_withInt:
  assumes "\<And>n. ParseInt 64 arg = Inr n \<Longrightarrow> refines t (replyE (f n)) (s n)"
  shows "refines t (replyE (bindE (liftR (redisParseInt arg)) f)) (withInt arg s)"
proof (rule refinesI, rule runs_replyBind [OF runs_basic(3)])
  show "runs t (replyE (f x)) A (Ok (fst (withInt arg s A))) (snd (withInt arg s A))"
    if "redisParseInt arg = Ok x" for A x
    using that assms [of x] refinesD [OF assms [of x] prod.collapse [symmetric]]
    by (auto simp: redisParseInt_def withInt_def split: sum.splits)
qed (auto simp: redisParseInt_def withInt_def notInteger_def errNotInteger_def split: sum.splits)

lemma refines_Incr:
  assumes "list_all lenOk args"
  shows "refines t (redisIncrementCommand args delta) (specIncr t args delta)"
    "refines t (redisIncrementByCommand args dec) (specIncrByCommand t args dec)"
proof -
  show "refines t (redisIncrementCommand args delta) (specIncr t args delta)"
    unfolding redisIncrementCommand_def specIncr_def redisIncrement_def using assms
    by (intro refines_arity refines_IncrBy) (simp_all add: args_lenOk)
  show "refines t (redisIncrementByCommand args dec) (specIncrByCommand t args dec)"
    unfolding redisIncrementByCommand_def specIncrByCommand_def redisIncrement_def using assms
    by (intro refines_arity refines_withInt) (auto simp: args_lenOk intro!: refines_IncrBy)
qed

lemma refines_SetEX:
  assumes "list_all lenOk args"
  shows "refines t (redisSetEX args ms) (specSetEX t args (if ms then nanosPerMillisecond else nanosPerSecond))"
proof (rule refinesI, rule runs_time)
  fix A
  assume t: "0 \<le> t" "isInt64 t"
  define u where "u = (if ms then nanosPerMillisecond else nanosPerSecond)"
  have u: "timeUnit u" by (simp add: timeUnit_def u_def)
  note defs = redisSetEX_def specSetEX_def arity_def redisParseInt_def errSetExpire_def
    UnixNano_time [OF t(2)] sdiv_bounds [OF u] u_def [symmetric]
  consider "length args \<noteq> 4" | e where "length args = 4" "ParseInt 64 (args ! 2) = Inl e"
    | n where "length args = 4" "ParseInt 64 (args ! 2) = Inr n" by (cases "ParseInt 64 (args ! 2)") auto
  then show "runs t (redisSetEX args ms) A (Ok (fst (specSetEX t args (if ms then nanosPerMillisecond else nanosPerSecond) A)))
      (snd (specSetEX t args (if ms then nanosPerMillisecond else nanosPerSecond) A))"
  proof cases
    case (3 n)
    have k: "lenOk (args ! 1)" using 3 assms by (simp add: args_lenOk)
    show ?thesis
    proof (cases "0 < n \<and> n * u \<le> maxInt64 \<and> t \<le> maxInt64 - n * u")
      case True
      then have dl: "deadline t u False n = Some (t + n * u)"
        using deadline_pos [OF u _ t, of n] sdiv_bounds [OF u] by auto
      with True deadline_bounds [OF _ u _ t(1), of False n "t + n * u"]
      have "0 < n" "isInt64 (t + n * u)" "t < t + n * u" by auto
      then show ?thesis
        using 3 True t k dl
        by (auto simp: defs keyOk_def scalarOrNone_def intro!: runs_then [OF runs_Now] runs_then [OF runs_DeleteRaw]
            runs_then [OF runs_putString] runs_ret)
    next
      case False
      then show ?thesis
        using 3 t deadline_pos [OF u _ t, of n]
        by (auto simp: defs intro!: runs_ret runs_then [OF runs_Now])
    qed
  qed (simp_all add: defs runs_ret)
qed

lemma runs_setOptions:
  assumes "0 \<le> t" "isInt64 t"
  shows "runs t (setOptionsLoop host args opt) A (setOptionsAt t host args opt) A"
proof -
  have word: "setWord host arg = WordExpire unit absolute \<Longrightarrow> timeUnit unit" for host arg unit absolute
    by (auto simp: setWord_def Let_def timeUnit_def split: if_splits)
  have expiry: "runs t (setOptionExpiry unit absolute arg) A (case ParseInt 64 arg of Inl _ \<Rightarrow> Err errNotInteger
      | Inr n \<Rightarrow> (case (if 0 < n then deadline t unit absolute n else None) of None \<Rightarrow> Err errSetExpire | Some e \<Rightarrow> Ok e)) A"
    if u: "timeUnit unit" for unit absolute arg
    using deadline_pos [OF u _ assms]
    by (cases absolute)
      (auto simp: setOptionExpiry_def redisParseInt_def UnixNano_time [OF assms(2)] runs_basic
        intro!: runs_bind [OF runs_basic(3)] runs_bindErr [OF runs_basic(3)] runs_bind [OF runs_Now]
        split: sum.split)
  show ?thesis
  proof (induction host args opt rule: setOptionsLoop.induct)
    case (2 host arg args opt)
    show ?case
    proof (cases "setWord host arg")
      case (WordExpire unit absolute)
      show ?thesis
      proof (cases args)
        case (Cons amount args')
        show ?thesis
          using 2(5) [OF WordExpire Cons] WordExpire Cons word [OF WordExpire]
            expiry [OF word [OF WordExpire], of absolute amount]
          by (cases "ParseInt 64 amount")
            (auto simp: runs_basic intro: runs_bind runs_bindErr split: option.splits if_splits)
      qed (simp add: WordExpire runs_basic)
    qed (use 2 in \<open>auto simp: runs_basic\<close>)
  qed (simp add: runs_basic)
qed

lemma runs_deleteWrite:
  assumes "lenOk key" "0 \<le> e" "isInt64 e"
  shows "runs t (redisDeleteAndWriteString key v e) A (Ok ()) (A(key := alive t (Some (RString v, e))))"
proof -
  have "runs t (redisWriteString None key v e) (A(key := None)) (Ok ()) ((A(key := None))(key := alive t (Some (RString v, e))))"
    using assms by (intro runs_writeString) (simp_all add: scalarOrNone_def)
  then show ?thesis
    unfolding redisDeleteAndWriteString_def Background_def
    using runs_bind [OF runs_DeleteRaw [OF assms(1)]] by simp
qed

text \<open>\<open>SET\<close> once its options are known and the key has been looked at.\<close>

lemma runs_setBody:
  assumes k: "lenOk key" and ok: "keyOk t (A key)" and opt: "optOk opt"
  shows "runs t (replyE (bindE (if so_get opt \<and> A key \<noteq> None
            then bindE (redisString None key) (\<lambda>r. ret (bulkOrNil r)) else ret respNil) (\<lambda>old.
         bindE (if so_keepTTL opt \<and> A key \<noteq> None \<and> \<not> so_hasExpiry opt
                then bindE (redisExpiry None key) (\<lambda>e. ret (case e of Some x \<Rightarrow> x | None \<Rightarrow> 0))
                else ret (so_expiresAt opt)) (\<lambda>expiresAt.
         bindE (redisDeleteAndWriteString key v expiresAt) (\<lambda>_.
           ret (if so_get opt then old else respSimpleString ''OK'')))))) A
     (Ok (if \<not> so_get opt then respSimpleString ''OK'' else case A key of None \<Rightarrow> respNil | Some (RString v, _) \<Rightarrow> respBulkBytes v
        | _ \<Rightarrow> wrongTypeReply))
     (if so_get opt \<and> \<not> scalarOrNone (A key) then A else A(key := alive t (Some (RString v,
        if so_hasExpiry opt then so_expiresAt opt else if so_keepTTL opt then (case A key of Some (_, e) \<Rightarrow> e | None \<Rightarrow> 0) else 0))))"
proof -
  let ?e = "if so_hasExpiry opt then so_expiresAt opt else if so_keepTTL opt then (case A key of Some (_, e) \<Rightarrow> e | None \<Rightarrow> 0) else 0"
  have live: "alive t (A key) = A key" "purge t key A = A" using ok by (simp_all add: keyOk_live purge_live)
  have e: "0 \<le> ?e" "isInt64 ?e" using ok opt by (auto simp: optOk_def keyOk_def isInt64_0 split: option.splits)
  have exp: "runs t (if so_keepTTL opt \<and> A key \<noteq> None \<and> \<not> so_hasExpiry opt
                then bindE (redisExpiry None key) (\<lambda>e. ret (case e of Some x \<Rightarrow> x | None \<Rightarrow> 0))
                else ret (so_expiresAt opt)) A (Ok ?e) A"
    using opt runs_redisExpiry [OF k, of t A] unfolding live
    by (auto simp: optOk_def deadlineOf_def intro!: runs_ret elim!: runs_bind split: option.splits)
  have old: "runs t (if so_get opt \<and> A key \<noteq> None then bindE (redisString None key) (\<lambda>r. ret (bulkOrNil r)) else ret respNil) A
      (if so_get opt \<and> \<not> scalarOrNone (A key) then Err (wrongType (typeName (A key)))
       else Ok (if so_get opt then (case A key of Some (RString v, _) \<Rightarrow> respBulkBytes v | _ \<Rightarrow> respNil) else respNil)) A"
    using runs_redisString [OF k, of t A] unfolding live
    by (auto simp: scalarOrNone_def bulkOrNil_def intro!: runs_ret elim!: runs_bind runs_bindErr split: option.splits robj.splits)
  show ?thesis
  proof (cases "so_get opt \<and> \<not> scalarOrNone (A key)")
    case True
    then show ?thesis
      by (intro runs_replyBind [OF old]) (auto simp: scalarOrNone_def split: option.splits robj.splits)
  next
    case False
    show ?thesis
      unfolding if_not_P [OF False]
      apply (rule runs_then [OF old [unfolded if_not_P [OF False]]])
      apply (rule runs_then [OF exp])
      apply (rule runs_then [OF runs_deleteWrite [OF k e]])
      using False by (auto simp: scalarOrNone_def intro!: runs_ret split: option.splits robj.splits)
  qed
qed

lemma refines_at: "refines t m s \<Longrightarrow> runs t m A (Ok (fst (s A))) (snd (s A))"
  by (simp add: refines_def)

lemma refines_Set:
  assumes "list_all lenOk args"
  shows "refines t (redisSet host args) (specSet t host args)"
proof (rule refinesI, rule runs_time)
  fix A
  assume t: "0 \<le> t" "isInt64 t"
  let ?o = "setOptionsAt t host (drop 3 args) noSetOptions"
  have opts: "runs t (redisSetOptions host args) A ?o A"
    using runs_setOptions [OF t] by (simp add: redisSetOptions_def noSetOptions_def)
  consider "length args < 3" | opt where "3 \<le> length args" "?o = Ok opt" | er where "3 \<le> length args" "?o = Err er"
    using setOptionsAt_noPanic [of t host "drop 3 args" noSetOptions]
    by (cases ?o; cases "length args < 3") auto
  then show "runs t (redisSet host args) A (Ok (fst (specSet t host args A))) (snd (specSet t host args A))"
  proof cases
    case (2 opt)
    have opt: "optOk opt"
      using setOptionsAt_ok [OF 2(2) _ t(1)] by (simp add: optOk_def noSetOptions_def isInt64_0)
    have k: "lenOk (args ! 1)" using 2 assms by (simp add: args_lenOk)
    have len: "(length args < 3) = False" using 2 by simp
    show ?thesis
      unfolding redisSet_def specSet_def arity_def Background_def len if_False
      apply (simp only: 2 res.case if_True)
      apply (rule runs_then [OF opts [unfolded 2]])
      apply (rule refines_at [OF refines_type])
      subgoal by (rule k)
      subgoal by (rule k)
      subgoal for A x
      proof -
        assume ok: "keyOk t (A (args ! 1))" and x: "Ok (typeName (A (args ! 1))) = Ok x"
        then have x: "(x = redisTypeNone) = (A (args ! 1) = None)" by auto
        show ?thesis
        proof (cases "so_nx opt \<and> A (args ! 1) \<noteq> None \<or> so_xx opt \<and> A (args ! 1) = None")
          case True
          then show ?thesis by (auto simp: x Let_def intro!: runs_ret)
        next
          case False
          then have c: "(so_nx opt \<and> A (args ! 1) \<noteq> None) = False" "(so_xx opt \<and> \<not> A (args ! 1) \<noteq> None) = False"
            "(False \<or> so_xx opt \<and> A (args ! 1) = None) = False" by auto
          show ?thesis
            unfolding Let_def x c if_False
            by (rule runs_eq [OF runs_setBody [of "args ! 1" t A opt "args ! 2", OF k ok opt]])
              (simp_all add: scalarOrNone_def split: option.split robj.split)
        qed
      qed
      by simp_all
  next
    case (3 er)
    then show ?thesis
      using runs_replyErr [OF runs_bindErr, OF opts [unfolded 3]]
      by (auto simp: redisSet_def specSet_def arity_def)
  qed (simp add: redisSet_def specSet_def arity_def runs_ret)
qed

lemma refines_Persist:
  assumes "list_all lenOk args"
  shows "refines t (redisPersistCommand args) (specPersist t args)"
  unfolding redisPersistCommand_def specPersist_def Background_def using assms
  by (intro refines_arity refinesI, intro runs_then [OF runs_redisPersist])
    (auto simp: args_lenOk onKey_eq deadlineOf_def purge_def alive_def
      intro!: runs_ret split: option.splits)

lemma refines_Del:
  assumes "list_all lenOk args"
  shows "refines t (redisDelete args) (specDel args)"
proof -
  have "runs t (replyE (bindE (foldE (\<lambda>arg count. bindE (redisDeleteRaw None arg) (\<lambda>deleted.
        ret (if deleted then count + 1 else count))) keys n) (\<lambda>count. ret (respIntegerValue count))))
      A (Ok (fst (specDelKeys keys n A))) (snd (specDelKeys keys n A))"
    if "list_all lenOk keys" for keys n A
    using that
  proof (induction keys arbitrary: n A)
    case (Cons key keys)
    have k: "lenOk key" using Cons.prems by simp
    show ?case
      using Cons by (auto simp: bindE_assoc simp del: fun_upd_apply intro!: runs_then [OF runs_DeleteRaw [OF k]])
  qed (simp add: runs_ret)
  then show ?thesis
    unfolding redisDelete_def specDel_def Background_def using lenOk_tl [OF assms]
    by (intro refines_arity refinesI) auto
qed

lemma refines_Exists:
  assumes "list_all lenOk args"
  shows "refines t (redisExists args) (specExists t args)"
proof -
  have "runs t (replyE (bindE (foldE (\<lambda>arg count. bindE (redisType None arg) (\<lambda>typ.
        ret (if typ \<noteq> redisTypeNone then count + 1 else count))) keys n) (\<lambda>count. ret (respIntegerValue count))))
      A (Ok (fst (specExistsKeys t keys n A))) (snd (specExistsKeys t keys n A))"
    if "list_all lenOk keys" for keys n A
    using that
  proof (induction keys arbitrary: n A)
    case (Cons key keys)
    have k: "lenOk key" using Cons.prems by simp
    show ?case
      using Cons by (auto simp: bindE_assoc intro!: runs_then [OF runs_redisType [OF k]])
  qed (simp add: runs_ret)
  then show ?thesis
    unfolding redisExists_def specExists_def Background_def using lenOk_tl [OF assms]
    by (intro refines_arity refinesI) auto
qed

lemma refines_MGet:
  assumes "list_all lenOk args"
  shows "refines t (redisMGet args) (specMGet t args)"
proof -
  have "runs t (replyE (bindE (foldE (\<lambda>arg items. bindE (redisString None arg) (\<lambda>r. ret (items @ [bulkOrNil r]))) keys items)
        (\<lambda>items. ret (respArrayValues items)))) A (Ok (fst (specMGetKeys t keys items A))) (snd (specMGetKeys t keys items A))"
    if "list_all lenOk keys" for keys items A
    using that
  proof (induction keys arbitrary: items A)
    case (Cons key keys)
    have k: "lenOk key" using Cons.prems by simp
    show ?case
      using Cons by (auto simp: bindE_assoc onKey_eq bulkOrNil_def stringOf_def
        intro!: runs_replyBind [OF runs_redisString [OF k]] split: option.splits robj.splits)
  qed (simp add: runs_ret)
  then show ?thesis
    unfolding redisMGet_def specMGet_def Background_def using lenOk_tl [OF assms]
    by (intro refines_arity refinesI) auto
qed

lemma refines_MSet:
  assumes "list_all lenOk args"
  shows "refines t (redisMSet args) (specMSet args)"
proof -
  have "runs t (keyValueLoop (\<lambda>key value. bindE (redisDeleteRaw None key) (\<lambda>_. redisWriteString None key value 0)) xs)
      A (Ok ()) (putPairs xs A)" if "list_all lenOk xs" "even (length xs)" for xs A
    using that
  proof (induction xs A rule: putPairs.induct)
    case (1 key v rest A)
    have k: "lenOk key" using 1 by simp
    from runs_deleteWrite [OF k, of 0 t v A] show ?case
      using 1 by (auto simp: isInt64_0 alive_def redisDeleteAndWriteString_def simp del: fun_upd_apply elim!: runs_bind)
  qed (simp_all add: runs_basic)
  note loop = this
  show ?thesis
    unfolding redisMSet_def specMSet_def Background_def using lenOk_tl [OF assms]
    by (intro refines_arity refinesI, intro runs_then [OF loop])
      (auto simp: not_less odd_iff_mod_2_eq_one even_tl intro!: runs_ret)
qed

lemma refines_MSetNX:
  assumes "list_all lenOk args"
  shows "refines t (redisMSetNX args) (specMSetNX t args)"
proof -
  have probe: "runs t (anyExistsLoop xs) A (Ok (fst (anyAlive t xs A))) (snd (anyAlive t xs A))"
    if "list_all lenOk xs" for xs A
    using that
  proof (induction t xs A rule: anyAlive.induct)
    case (2 t key rest A)
    have k: "lenOk key" using 2 by simp
    have "list_all lenOk (drop 1 rest)" using 2(2) by (cases rest) auto
    then show ?case
      using 2 by (auto intro!: runs_bind [OF runs_redisType [OF k]] runs_ret)
  qed (simp add: runs_basic)
  have puts: "runs t (keyValueLoop (\<lambda>key value. redisWriteString None key value 0) xs) A (Ok ()) (putPairs xs A)"
    if "list_all lenOk xs" "even (length xs)" "keysFree xs A" for xs A
    using that
  proof (induction xs A rule: putPairs.induct)
    case (1 key v rest A)
    have k: "lenOk key" "scalarOrNone (A key)" using 1 by simp_all
    from runs_writeString [of key A 0 t v, OF k] show ?case
      using 1 keysFree_put by (auto simp: isInt64_0 alive_def simp del: fun_upd_apply elim!: runs_bind)
  qed (simp_all add: runs_basic)
  show ?thesis
    unfolding redisMSetNX_def specMSetNX_def Background_def using lenOk_tl [OF assms]
    by (intro refines_arity refinesI, intro runs_then [OF probe])
      (auto simp: not_less odd_iff_mod_2_eq_one even_tl split: prod.split bool.split
        intro!: runs_ret runs_then [OF puts] dest: anyAlive_keysFree)
qed

end

end
