(* ===== verification/KeyspaceKeys.thy ===== *)
theory KeyspaceKeys
  imports KeyspaceStrings
begin

text \<open>
  The commands on deadlines, key listings and the clock implement their specifications.
\<close>

lemma getexWord_cases:
  fixes host arg
  defines "w \<equiv> ToUpper (host_upper host) arg"
  shows "getexWord host arg = None \<longleftrightarrow> w \<noteq> ''EX'' \<and> w \<noteq> ''PX'' \<and> w \<noteq> ''EXAT'' \<and> w \<noteq> ''PXAT''"
    "getexWord host arg = Some (unit, absolute) \<Longrightarrow>
      unit = (if HasPrefix w ''P'' then nanosPerMillisecond else nanosPerSecond) \<and> absolute = HasSuffix w ''AT'' \<and>
      (absolute \<longleftrightarrow> w \<noteq> ''EX'' \<and> w \<noteq> ''PX'')"
  unfolding getexWord_def setWord_def Let_def w_def [symmetric]
  by (auto simp: HasPrefix_def HasSuffix_def split: if_splits)

text \<open>Go visits every key of a map once, in an order of its choice.\<close>

definition mapOrderOk :: "redisHost \<Rightarrow> bool" where
  "mapOrderOk host \<longleftrightarrow> (\<forall>ks. distinct ks \<longrightarrow>
     distinct (host_mapOrder host ks) \<and> set (host_mapOrder host ks) = set ks)"

lemma fold_purge: "fold (purge t) ks A = (\<lambda>k. if k \<in> set ks then alive t (A k) else A k)"
  by (induction ks arbitrary: A) (auto simp: purge_def fun_eq_iff)

context local_engine
begin

lemma refines_Expire:
  assumes "list_all lenOk args"
  shows "refines t (redisExpireCommand args command) (specExpire t args
     (if HasPrefix command ''P'' then nanosPerMillisecond else nanosPerSecond) (HasSuffix command ''AT''))"
  unfolding redisExpireCommand_def specExpire_def Background_def
proof (intro refines_arity refines_withInt refinesI, rule runs_time)
  fix n A
  assume "\<not> length args \<noteq> 3" and t: "0 \<le> t" "isInt64 t"
  then have k: "lenOk (args ! 1)" using assms by (simp add: args_lenOk)
  let ?d = "deadline t (if HasPrefix command ''P'' then nanosPerMillisecond else nanosPerSecond) (HasSuffix command ''AT'') n"
  have "?d = Some e \<Longrightarrow> isInt64 e" for e by (auto simp: deadline_def Let_def split: if_splits)
  then show "runs t (replyE (bindE dbProtocol_Now (\<lambda>t. bindE (liftR (redisExpiryFromCommand t command n)) (\<lambda>expiresAt.
       bindE (redisSetExpiry None (args ! 1) expiresAt) (\<lambda>ok. ret (respIntegerValue (if ok then 1 else 0))))))) A
     (Ok (fst (case ?d of None \<Rightarrow> (respErrorString ''ERR invalid expire time'', A)
       | Some e \<Rightarrow> onKey t (args ! 1) A (\<lambda>r A'. case r of None \<Rightarrow> (respIntegerValue 0, A')
         | Some (x, _) \<Rightarrow> (respIntegerValue 1, if e \<le> t then A'(args ! 1 := None) else A'(args ! 1 \<mapsto> (x, e)))))))
     (snd (case ?d of None \<Rightarrow> (respErrorString ''ERR invalid expire time'', A)
       | Some e \<Rightarrow> onKey t (args ! 1) A (\<lambda>r A'. case r of None \<Rightarrow> (respIntegerValue 0, A')
         | Some (x, _) \<Rightarrow> (respIntegerValue 1, if e \<le> t then A'(args ! 1 := None) else A'(args ! 1 \<mapsto> (x, e))))))"
    using k redisExpiryFromCommand_eq [OF t, of command n]
    by (cases ?d)
      (auto simp: onKey_eq intro!: runs_then [OF runs_Now] runs_replyBind [OF runs_basic(3)]
        runs_then [OF runs_redisSetExpiry] runs_ret split: option.split)
qed simp

lemma refines_TTL:
  assumes "list_all lenOk args"
  shows "refines t (redisTTLCommand args command)
    (specTTL t args (if command = ''PTTL'' then nanosPerMillisecond else nanosPerSecond))"
proof -
  define u where "u = (if command = ''PTTL'' then nanosPerMillisecond else nanosPerSecond)"
  have u: "0 < u" by (simp add: u_def nanos)
  have rem: "wrap64 (e - UnixNano t) = e - t" "(e - t) sdiv u = (e - t) div u"
    if "0 \<le> t" "isInt64 t" "isInt64 e" "t < e" for e
    using that u by (auto simp: UnixNano_def int64_defs signed_divide_int_def sgn_if intro!: wrap64_id)
  show ?thesis
    unfolding redisTTLCommand_def specTTL_def Background_def Let_def u_def [symmetric]
  proof (intro refines_arity refines_read [where rd = "\<lambda>r. Ok (deadlineOf r)", OF runs_redisExpiry])
    fix A x
    assume len: "\<not> length args \<noteq> 2" and ok: "keyOk t (A (args ! 1))"
      and x: "Ok (deadlineOf (A (args ! 1))) = Ok x"
    have k: "lenOk (args ! 1)" using len assms by (simp add: args_lenOk)
    note ty = runs_redisType [OF k, of t A, unfolded keyOk_live [of t "A (args ! 1)", OF ok] purge_live [of t A "args ! 1", OF keyOk_live [of t "A (args ! 1)", OF ok]]]
    show "runs t (replyE (case x of None \<Rightarrow> bindE (redisType None (args ! 1)) (\<lambda>typ. ret (respIntegerValue (if typ = redisTypeNone then - 2 else - 1)))
       | Some expiresAt \<Rightarrow> bindE dbProtocol_Now (\<lambda>t. if wrap64 (expiresAt - UnixNano t) \<le> 0 then ret (respIntegerValue (- 2))
          else ret (respIntegerValue (if wrap64 (expiresAt - UnixNano t) sdiv u < 1 then 1 else wrap64 (expiresAt - UnixNano t) sdiv u))))) A
       (Ok (fst (respIntegerValue (case A (args ! 1) of None \<Rightarrow> - 2 | Some (_, e) \<Rightarrow> if e = 0 then - 1 else max 1 ((e - t) div u)), A)))
       (snd (respIntegerValue (case A (args ! 1) of None \<Rightarrow> - 2 | Some (_, e) \<Rightarrow> if e = 0 then - 1 else max 1 ((e - t) div u)), A))"
    proof (cases x)
      case None
      then show ?thesis
        using x ok by (auto simp: deadlineOf_def intro!: runs_ret runs_then [OF ty]
          split: option.splits if_splits simp del: One_nat_def)
    next
      case (Some e)
      then have "0 \<le> t" "isInt64 t" "isInt64 e" "t < e" "\<exists>y. A (args ! 1) = Some (y, e) \<and> e \<noteq> 0"
        using ok x by (auto simp: keyOk_def deadlineOf_def split: option.splits if_splits)
      then show ?thesis
        using Some rem [of e] by (auto intro!: runs_ret runs_then [OF runs_Now])
    qed
  qed (use assms in \<open>simp_all add: args_lenOk\<close>)
qed

lemma runs_getExDeadline:
  assumes "0 \<le> t" "isInt64 t"
  shows "runs t (getExDeadline w n) A (case deadline t (if HasPrefix w ''P'' then nanosPerMillisecond else nanosPerSecond)
      (HasSuffix w ''AT'') n of Some e \<Rightarrow> Ok e | None \<Rightarrow> Err errGetex) A"
  unfolding getExDeadline_def
  by (rule runs_bind [OF runs_Now]) (auto simp: redisExpiryFromCommand_eq [OF assms] runs_basic split: option.split)

lemma runs_getexExpiry:
  assumes k: "lenOk key" and ok: "keyOk t (A key)" and v: "A key = Some (RString v, e)"
    and w: "getexWord host arg = Some (unit, absolute)" and n: "absolute \<or> 0 < n"
  shows "runs t (replyE (bindE (getExDeadline (ToUpper (host_upper host) arg) n) (\<lambda>expiresAt.
      bindE (redisSetExpiry None key expiresAt) (\<lambda>_. ret (respBulkBytes v))))) A
    (Ok (case deadline t unit absolute n of None \<Rightarrow> errGetexReply | Some _ \<Rightarrow> respBulkBytes v))
    (case deadline t unit absolute n of None \<Rightarrow> A | Some e' \<Rightarrow> if e' \<le> t then A(key := None) else A(key \<mapsto> (RString v, e')))"
proof -
  have t: "0 \<le> t" "isInt64 t" using ok by (simp_all add: keyOk_def)
  have int: "deadline t unit absolute n = Some e' \<Longrightarrow> isInt64 e'" for e'
    by (auto simp: deadline_def Let_def split: if_splits)
  have al: "alive t (A key) = A key" using ok by (rule keyOk_live)
  note dl = runs_getExDeadline [OF t, of "ToUpper (host_upper host) arg" n A,
    folded getexWord_cases(2) [OF w, THEN conjunct1] getexWord_cases(2) [OF w, THEN conjunct2, THEN conjunct1]]
  show ?thesis
  proof (cases "deadline t unit absolute n")
    case None
    then show ?thesis
      using runs_replyErr [OF runs_bindErr, OF dl [unfolded None, simplified]] by (simp add: errGetex_def errGetexReply_def)
  next
    case (Some e')
    then show ?thesis
      using runs_then [OF dl [unfolded Some, simplified]] runs_redisSetExpiry [OF k int [OF Some], of t A] al v
      by (auto intro!: runs_then [OF dl [unfolded Some, simplified]] runs_then [OF runs_redisSetExpiry [OF k int [OF Some]]] runs_ret)
  qed
qed

lemma runs_getexPersist:
  assumes k: "lenOk key" and ok: "keyOk t (A key)" and v: "A key = Some (RString v, e)"
  shows "runs t (replyE (bindE (redisPersist None key) (\<lambda>_. ret (respBulkBytes v)))) A
    (Ok (respBulkBytes v)) (A(key \<mapsto> (RString v, 0)))"
proof -
  have "alive t (A key) = A key" using ok by (rule keyOk_live)
  then show ?thesis
    using v by (auto intro!: runs_then [OF runs_redisPersist [OF k]] runs_ret)
qed

text \<open>The part of \<open>GETEX\<close> that reads its four arguments.\<close>

lemma runs_getexFour:
  fixes host :: redisHost
  assumes k: "lenOk (args ! 1)" and ok: "keyOk t (A (args ! 1))" and v: "A (args ! 1) = Some (RString v, e)"
  defines "w \<equiv> ToUpper (host_upper host) (args ! 2)"
  defines "r \<equiv> (case ParseInt 64 (args ! 3) of Inl _ \<Rightarrow> (errGetexReply, A)
    | Inr n \<Rightarrow> (case getexWord host (args ! 2) of None \<Rightarrow> (redisSyntaxError, A)
      | Some (unit, absolute) \<Rightarrow> (case (if \<not> absolute \<and> n \<le> 0 then None else deadline t unit absolute n) of
          None \<Rightarrow> (errGetexReply, A)
        | Some e' \<Rightarrow> (respBulkBytes v, if e' \<le> t then A(args ! 1 := None) else A(args ! 1 \<mapsto> (RString v, e'))))))"
  shows "runs t (replyE (case redisParseInt (args ! 3) of
      Ok amount \<Rightarrow>
        if (w = ''EX'' \<or> w = ''PX'') \<and> amount \<le> 0 then throw errGetex
        else if w \<noteq> ''EX'' \<and> w \<noteq> ''PX'' \<and> w \<noteq> ''EXAT'' \<and> w \<noteq> ''PXAT'' then ret redisSyntaxError
        else bindE (getExDeadline w amount) (\<lambda>expiresAt.
             bindE (redisSetExpiry None (args ! 1) expiresAt) (\<lambda>_. ret (respBulkBytes v)))
    | _ \<Rightarrow> throw errGetex)) A (Ok (fst r)) (snd r)"
proof (cases "ParseInt 64 (args ! 3)")
  case (Inl e)
  then show ?thesis by (simp add: r_def redisParseInt_def errGetex_def errGetexReply_def runs_ret)
next
  case (Inr n)
  show ?thesis
  proof (cases "getexWord host (args ! 2)")
    case None
    then show ?thesis
      using Inr getexWord_cases(1) [of host "args ! 2", folded w_def]
      by (simp add: r_def redisParseInt_def runs_ret)
  next
    case (Some ua)
    then obtain unit absolute where ua: "getexWord host (args ! 2) = Some (unit, absolute)" by (cases ua) auto
    note w = getexWord_cases(2) [OF ua, folded w_def] getexWord_cases(1) [of host "args ! 2", folded w_def, unfolded ua, simplified]
    show ?thesis
    proof (cases "absolute \<or> 0 < n")
      case True
      note body = runs_getexExpiry [of "args ! 1" t A, OF k ok v ua True, folded w_def]
      have c: "((w = ''EX'' \<or> w = ''PX'') \<and> n \<le> 0) = False"
        "(w \<noteq> ''EX'' \<and> w \<noteq> ''PX'' \<and> w \<noteq> ''EXAT'' \<and> w \<noteq> ''PXAT'') = False" using w True by auto
      have "redisParseInt (args ! 3) = Ok n" using Inr by (simp add: redisParseInt_def)
      show ?thesis
        unfolding \<open>redisParseInt (args ! 3) = Ok n\<close> res.case c if_False
        by (intro runs_eq [OF body]) (use Inr ua True in \<open>auto simp: r_def split: option.split\<close>)
    next
      case False
      then show ?thesis
        using Inr ua w by (auto simp: r_def redisParseInt_def errGetex_def errGetexReply_def intro!: runs_ret)
    qed
  qed
qed

lemma refines_GetEx:
  assumes "list_all lenOk args"
  shows "refines t (redisGetEx host args) (specGetEx t host args)"
  unfolding redisGetEx_def specGetEx_def Background_def Let_def
  apply (intro refines_arity refines_string)
  subgoal using assms by (simp add: args_lenOk)
  subgoal using assms by (simp add: args_lenOk)
  subgoal premises prems for A x
  proof -
    have k: "lenOk (args ! 1)" using prems(1) assms by (simp add: args_lenOk)
    consider "A (args ! 1) = None" "x = None" | v e where "A (args ! 1) = Some (RString v, e)" "x = Some v"
      using prems(3) by (auto simp: stringOf_cases)
    then show ?thesis
    proof cases
      case (2 v e)
      note str = this
      consider "length args = 2" | "length args \<noteq> 2" "length args = 3 \<and> EqualFold (args ! 2) ''PERSIST''"
        | "length args \<noteq> 2" "\<not> (length args = 3 \<and> EqualFold (args ! 2) ''PERSIST'')" "length args \<noteq> 4"
        | "length args \<noteq> 2" "\<not> (length args = 3 \<and> EqualFold (args ! 2) ''PERSIST'')" "\<not> length args \<noteq> 4" by blast
      then show ?thesis
      proof cases
        case 1
        show ?thesis
          unfolding str option.case prod.case robj.case if_P [OF 1] by (simp add: runs_ret)
      next
        case 2
        show ?thesis
          unfolding str option.case prod.case robj.case if_not_P [OF 2(1)] if_P [OF 2(2)] fst_conv snd_conv
          by (rule runs_getexPersist [of "args ! 1" t A, OF k prems(2) str(1)])
      next
        case 3
        show ?thesis
          unfolding str option.case prod.case robj.case if_not_P [OF 3(1)] if_not_P [OF 3(2)] if_P [OF 3(3)]
          by (simp add: runs_ret)
      next
        case 4
        show ?thesis
          unfolding str option.case prod.case robj.case if_not_P [OF 4(1)] if_not_P [OF 4(2)] if_not_P [OF 4(3)]
          by (rule runs_getexFour [of args t A, OF k prems(2) str(1)])
      qed
    next
      case 1
      show ?thesis unfolding 1 option.case by (simp add: runs_ret)
    qed
  qed
  subgoal for A e by (cases "A (args ! 1)"; cases "fst (the (A (args ! 1)))"; cases "the (A (args ! 1))") auto
  subgoal by (simp add: stringOf_cases)
  by (simp add: not_less)

lemma refines_Time: "refines t redisTime (specTime t)"
  unfolding redisTime_def specTime_def
  by (rule refinesI, rule runs_bind [OF runs_Now]) (simp add: runs_ret)

lemma refines_Flush: "refines t (redisFlush args) (specFlush args)"
  unfolding redisFlush_def specFlush_def Background_def
proof (intro refines_arity refinesI)
  fix A
  show "runs t (replyE (bindE (scanE None [] (\<lambda>storageKeys storageKey _. ret (storageKeys @ [storageKey])) []) (\<lambda>storageKeys.
      bindE (deleteEach None storageKeys) (\<lambda>_. ret (respSimpleString ''OK''))))) A
    (Ok (fst (respSimpleString ''OK'', \<lambda>_. None))) (snd (respSimpleString ''OK'', \<lambda>_. None))"
  proof (rule runsI)
    fix db :: "('s, 'v) DB"
    assume h: "holds t A db"
    note s = holds_simps [OF h]
    have keys: "scanRun (\<lambda>ks k _. ret (ks @ [k])) items None acc db = (Ok (acc @ map fst items, None), db)" for items acc
      by (induction items arbitrary: acc) (simp_all add: ret_def)
    have "set (map fst (dbItems [] db)) = {sk. dbView db sk \<noteq> None}" using dbItems_keys [OF s(1), of "[]"] by simp
    then have "dbView (dbDels (map fst (dbItems [] db)) db) = Map.empty"
      using s(1) by (auto simp: fun_eq_iff restrict_map_def)
    then have "holds t (\<lambda>_. None) (dbDels (map fst (dbItems [] db)) db)"
      using s by (simp add: holds_def rep_def owned_def repKey_def)
    then show "\<exists>db'. replyE (bindE (scanE None [] (\<lambda>ks k _. ret (ks @ [k])) []) (\<lambda>ks.
        bindE (deleteEach None ks) (\<lambda>_. ret (respSimpleString ''OK'')))) db
        = (Ok (fst (respSimpleString ''OK'', \<lambda>_. None)), db') \<and> holds t (snd (respSimpleString ''OK'', \<lambda>_. None)) db'"
      using s(1) keys [of "dbItems [] db" "[]"]
      by (simp add: replyE_def bindE_def scanE_def op_simps ret_def)
  qed
qed auto

lemma holds_cong: "holds t A db \<Longrightarrow> (\<And>key. lenOk key \<Longrightarrow> A key = A' key) \<Longrightarrow> holds t A' db"
  by (auto simp: holds_def rep_def)

lemma runs_typeFold:
  "list_all lenOk ks \<Longrightarrow> runs t (foldE (\<lambda>key keys. bindE (redisType None key) (\<lambda>typ.
     ret (if typ \<noteq> redisTypeNone then keys @ [key] else keys))) ks acc) A
   (Ok (acc @ filter (\<lambda>k. alive t (A k) \<noteq> None) ks)) (fold (purge t) ks A)"
proof (induction ks arbitrary: acc A)
  case (Cons k ks)
  have k: "lenOk k" using Cons.prems by simp
  have al: "alive t (purge t k A x) = alive t (A x)" for x by (cases "x = k") simp_all
  show ?case
    using Cons.IH [of "if alive t (A k) \<noteq> None then acc @ [k] else acc" "purge t k A"] Cons.prems
    by (auto simp: al bindE_assoc intro!: runs_bind [OF runs_redisType [OF k]] simp del: not_None_eq)
qed (simp add: runs_basic)

lemma logicalKeys_set:
  assumes "holds t A db"
  shows "set (List.map_filter dbProtocol_LogicalKey (map fst (dbItems [] db))) = {key. lenOk key \<and> A key \<noteq> None}"
proof -
  note s = holds_simps [OF assms]
  have keys: "set (map fst (dbItems [] db)) = {sk. dbView db sk \<noteq> None}" using dbItems_keys [OF s(1), of "[]"] by simp
  have some: "A key \<noteq> None \<longleftrightarrow> (\<exists>sk. dbView db sk \<noteq> None \<and> recordOf key sk)" if "lenOk key" for key
  proof (cases "A key")
    case None
    then show ?thesis using repKeyD [OF s(3) that] by (auto simp: repKey_def)
  next
    case (Some y)
    then show ?thesis using repKeyD [OF s(3) that] record_exists [of "fst y" "snd y" key "dbView db"] by simp
  qed
  have "(\<exists>sk. dbView db sk \<noteq> None \<and> logicalKeyFromStorage sk = Some key) \<longleftrightarrow> lenOk key \<and> A key \<noteq> None" for key
  proof (intro iffI; elim exE conjE)
    fix sk
    assume sk: "dbView db sk \<noteq> None" "logicalKeyFromStorage sk = Some key"
    then obtain key' where "lenOk key'" "recordOf key' sk" using s(3) by (auto simp: rep_def owned_def)
    then have "lenOk key" using sk(2) recordOf_iff_logicalKey by fastforce
    then show "lenOk key \<and> A key \<noteq> None" using some sk recordOf_iff_logicalKey by blast
  next
    assume "lenOk key" "A key \<noteq> None"
    then show "\<exists>sk. dbView db sk \<noteq> None \<and> logicalKeyFromStorage sk = Some key"
      using some recordOf_iff_logicalKey by blast
  qed
  then show ?thesis
    using keys by (simp add: set_map_filter_iff Bex_def set_eq_iff dbProtocol_LogicalKey_def)
qed

lemma runs_redisLogicalKeys:
  assumes "mapOrderOk host"
  shows "runs t (redisLogicalKeys host None) A (Ok (sorted_list_of_set (liveKeys t A))) (visible t A)"
proof (rule runsI)
  fix db :: "('s, 'v) DB"
  assume h: "holds t A db"
  note s = holds_simps [OF h]
  let ?ks = "List.map_filter dbProtocol_LogicalKey (map fst (dbItems [] db))"
  let ?os = "host_mapOrder host (remdups ?ks)"
  have ord: "distinct ?os" "set ?os = {key. lenOk key \<and> A key \<noteq> None}"
    using assms logicalKeys_set [OF h] by (simp_all add: mapOrderOk_def)
  have keys: "scanRun (\<lambda>ks k _. ret (ks @ [k])) items None acc db = (Ok (acc @ map fst items, None), db)" for items acc
    by (induction items arbitrary: acc) (simp_all add: ret_def)
  have "list_all lenOk ?os" using ord(2) by (auto simp: list_all_iff)
  from runsE [OF runs_typeFold [OF this, of t "[]" A] h] obtain db' where
    fold: "foldE (\<lambda>key keys. bindE (redisType None key) (\<lambda>typ.
       ret (if typ \<noteq> redisTypeNone then keys @ [key] else keys))) ?os [] db
      = (Ok (filter (\<lambda>k. alive t (A k) \<noteq> None) ?os), db')" and h': "holds t (fold (purge t) ?os A) db'" by auto
  have live: "set (filter (\<lambda>k. alive t (A k) \<noteq> None) ?os) = liveKeys t A"
    using ord(2) by (auto simp: liveKeys_def alive_Some_iff)
  have "sort (filter (\<lambda>k. alive t (A k) \<noteq> None) ?os) = sorted_list_of_set (liveKeys t A)"
    unfolding live [symmetric] using ord(1) by (metis distinct_filter distinct_remdups_id sorted_list_of_set_sort_remdups)
  then have "redisLogicalKeys host None db = (Ok (sorted_list_of_set (liveKeys t A)), db')"
    using s(1) keys [of "dbItems [] db" "[]"] fold
    by (simp add: redisLogicalKeys_def bindE_def scanE_def op_simps ret_def)
  moreover have "holds t (visible t A) db'"
  proof (rule holds_cong [OF h'])
    fix key
    assume "lenOk key"
    then show "fold (purge t) ?os A key = visible t A key"
      using ord(2) by (cases "A key") (simp_all add: fold_purge visible_def alive_def)
  qed
  ultimately show "\<exists>db'. redisLogicalKeys host None db = (Ok (sorted_list_of_set (liveKeys t A)), db') \<and> holds t (visible t A) db'"
    by blast
qed

lemma refines_Keys:
  assumes "mapOrderOk host"
  shows "refines t (redisKeysCommand host args) (specKeys t args)" "refines t (redisDBSize host args) (specDBSize t args)"
  unfolding redisKeysCommand_def specKeys_def redisDBSize_def specDBSize_def Background_def
  by (intro refines_arity refinesI, intro runs_then [OF runs_redisLogicalKeys [OF assms]]; simp add: runs_ret)+

end

end
