(* ===== verification/KeyspaceObjects.thy ===== *)
theory KeyspaceObjects
  imports KeyspaceKeys
begin

text \<open>
  The hash, set and list commands of \<open>extensions/redis/redis_commands.go\<close> implement their
  specifications on the abstract key space.
\<close>

section \<open>Hashes\<close>

lemma hashFieldOf_cases:
  "hashFieldOf r f = Ok x \<longleftrightarrow> (\<exists>h e. asHash r = Some (h, e) \<and> x = h f)"
  "hashFieldOf r f = Err er \<longleftrightarrow> asHash r = None \<and> er = wrongType (typeName r)"
  "hashFieldOf r f \<noteq> Panic p"
  by (auto simp: hashFieldOf_def split: option.splits)

lemma hashEntriesOf_cases:
  "hashEntriesOf r = Ok x \<longleftrightarrow> (\<exists>h e. asHash r = Some (h, e) \<and> x = (entriesOf h, h \<noteq> Map.empty))"
  "hashEntriesOf r = Err er \<longleftrightarrow> asHash r = None \<and> er = wrongType (typeName r)"
  "hashEntriesOf r \<noteq> Panic p"
  by (auto simp: hashEntriesOf_def split: option.splits)

lemma bulkOrNil_value [simp]: "bulkOrNil r = bulkValue r"
  by (simp add: bulkOrNil_def bulkValue_def)

lemma entriesOf_empty [simp]: "entriesOf Map.empty = []" "fieldsOf Map.empty = []"
  by (simp_all add: entriesOf_def fieldsOf_def)

lemma dom_putFields: "even (length xs) \<Longrightarrow> dom h \<subseteq> dom (putFields xs h)" "finite (dom h) \<Longrightarrow> finite (dom (putFields xs h))"
  by (induction xs h rule: putFields.induct) auto

context local_engine
begin

lemmas refines_hashField = refines_read [where rd = "\<lambda>r. hashFieldOf r f" for f, OF runs_redisHashField]
lemmas refines_entries = refines_read [where rd = hashEntriesOf, OF runs_redisHashEntries]

lemma refines_HGet:
  assumes "list_all lenOk args"
  shows "refines t (redisHGet args) (specHGet t args)" "refines t (redisHExists args) (specHExists t args)"
  unfolding redisHGet_def specHGet_def redisHExists_def specHExists_def onHash_def Background_def using assms
  by (intro refines_arity refines_hashField;
      auto simp: args_lenOk hashFieldOf_cases boolReply_def intro!: runs_ret)+

lemma refines_HGetAll:
  assumes "list_all lenOk args"
  shows "refines t (redisHGetAll args) (specHGetAll t args)" "refines t (redisHLen args) (specHLen t args)"
    "refines t (redisHKeys args) (specHKeys t args)" "refines t (redisHVals args) (specHVals t args)"
  unfolding redisHGetAll_def specHGetAll_def redisHLen_def specHLen_def redisHKeys_def specHKeys_def
    redisHVals_def specHVals_def onHash_def Background_def using assms
  by (intro refines_arity refines_entries; auto simp: args_lenOk hashEntriesOf_cases
      entriesOf_def fieldsOf_def comp_def intro!: runs_ret)+

lemma refines_HMGet:
  assumes "list_all lenOk args"
  shows "refines t (redisHMGet args) (specHMGet t args)"
proof (cases "length args < 3")
  case False
  have k: "lenOk (args ! 1)" using False assms by (simp add: args_lenOk)
  let ?m = "\<lambda>fs items. replyE (bindE (foldE (\<lambda>field items. bindE (redisHashField None (args ! 1) field)
    (\<lambda>r. ret (items @ [bulkOrNil r]))) fs items) (\<lambda>items. ret (respArrayValues items)))"
  have loop: "runs t (?m fs items) A (Ok (respArrayValues (items @ map (\<lambda>f. bulkValue (h f)) fs))) A"
    if "asHash (A (args ! 1)) = Some (h, e)" "alive t (A (args ! 1)) = A (args ! 1)" for fs items A h e
  proof (induction fs arbitrary: items)
    case (Cons f fs)
    have "runs t (redisHashField None (args ! 1) f) A (Ok (h f)) A"
      using runs_redisHashField [OF k, of t f A] that by (simp add: purge_live hashFieldOf_def)
    from runs_then [OF this, of "\<lambda>r. bindE (foldE _ fs (items @ [bulkOrNil r])) _"] show ?case
      using Cons.IH [of "items @ [bulkOrNil (h f)]"] by (simp add: bindE_assoc del: One_nat_def)
  qed (simp add: runs_ret)
  obtain f fs where fs: "drop 2 args = f # fs" using False by (cases "drop 2 args") auto
  have "refines t (replyE (bindE (redisHashField None (args ! 1) f) (\<lambda>r. bindE (foldE (\<lambda>field items.
      bindE (redisHashField None (args ! 1) field) (\<lambda>r. ret (items @ [bulkOrNil r]))) fs [bulkOrNil r])
      (\<lambda>items. ret (respArrayValues items)))))
    (\<lambda>A. onHash t (args ! 1) A (\<lambda>h e A'. (respArrayValues (map (\<lambda>f. bulkValue (h f)) (f # fs)), A')))"
    unfolding onHash_def
  proof (intro refines_hashField k)
    fix A x
    assume ok: "keyOk t (A (args ! 1))" and "hashFieldOf (A (args ! 1)) f = Ok x"
    then obtain h e where "asHash (A (args ! 1)) = Some (h, e)" "x = h f" by (auto simp: hashFieldOf_cases)
    then show "runs t (?m fs [bulkOrNil x]) A
      (Ok (fst (case asHash (A (args ! 1)) of None \<Rightarrow> (wrongTypeReply, A) | Some (h, e) \<Rightarrow> (respArrayValues (map (\<lambda>f. bulkValue (h f)) (f # fs)), A))))
      (snd (case asHash (A (args ! 1)) of None \<Rightarrow> (wrongTypeReply, A) | Some (h, e) \<Rightarrow> (respArrayValues (map (\<lambda>f. bulkValue (h f)) (f # fs)), A)))"
      using loop [of A h e fs "[bulkOrNil x]"] keyOk_live [of t "A (args ! 1)", OF ok] by simp
  qed (simp_all add: hashFieldOf_cases)
  then show ?thesis
    using False unfolding redisHMGet_def specHMGet_def Background_def
    by (intro refines_arity) (simp_all add: fs bindE_assoc not_less)
qed (simp add: redisHMGet_def specHMGet_def refines_def arity_def runs_ret)

lemma runs_dropTTL:
  assumes "lenOk key" "A key = None \<or> (\<exists>x. A key = Some (x, 0))"
  shows "runs t (ignoreE (dbProtocol_Delete None (dbProtocol_CollectionTTLKey key))) A (Ok ()) A"
proof (rule runsI)
  fix db :: "('s, 'v) DB"
  assume h: "holds t A db"
  note s = holds_simps [OF h]
  have "dbView db (collectionTTLKey key) = None"
    using assms(2) repKeyD [OF s(3) assms(1)]
    by (auto simp: repKey_def repData_def ttlIs_def split: robj.splits)
  then have "dbView (dbDel (collectionTTLKey key) db) = dbView db" using s(1) by (simp add: fun_upd_idem)
  then have "holds t A (dbDel (collectionTTLKey key) db)" using h s(1) by (simp add: holds_def)
  then show "\<exists>db'. ignoreE (dbProtocol_Delete None (dbProtocol_CollectionTTLKey key)) db = (Ok (), db') \<and> holds t A db'"
    using s(1) by (simp add: ignoreE_def op_simps)
qed

lemma runs_hSetStep:
  assumes len: "lenOk key" and at: "asHash (A key) = Some (h, e)"
  shows "runs t (redisHSetStep key f v n) A (Ok (if h f = None then n + 1 else n)) (A(key \<mapsto> (RHash (h(f \<mapsto> v)), e)))"
proof (rule runsI)
  fix db :: "('s, 'v) DB"
  assume hd: "holds t A db"
  obtain db' where put: "putPayload None (dbProtocol_HashKey key f) bytesCodec v 0 db = (Ok (), db')"
    and h': "holds t (A(key \<mapsto> (RHash (h(f \<mapsto> v)), e))) db'"
    by (rule runsE [OF runs_hashPut [of key A, OF len at] hd])
  have "dbView db (namespacedKey kindHash key f) = None \<longleftrightarrow> h f = None" using hash_field_none [OF hd len at] .
  then show "\<exists>db'. redisHSetStep key f v n db = (Ok (if h f = None then n + 1 else n), db')
      \<and> holds t (A(key \<mapsto> (RHash (h(f \<mapsto> v)), e))) db'"
    using put h' holds_simps(1) [OF hd]
    by (auto simp: redisHSetStep_def bindE_def ret_def op_simps)
qed

lemma runs_hSetLoop:
  assumes "lenOk key" "even (length xs)" "asHash (A key) = Some (h, e)" "xs \<noteq> [] \<or> A key = Some (RHash h, e)" "finite (dom h)"
  shows "runs t (redisHSetLoop key xs n) A (Ok (n + int (card (dom (putFields xs h) - dom h))))
    (A(key \<mapsto> (RHash (putFields xs h), e)))"
  using assms(2-)
proof (induction xs arbitrary: A h n rule: induct_list012)
  case (3 f v xs)
  let ?h = "h(f \<mapsto> v)" and ?A = "A(key \<mapsto> (RHash (h(f \<mapsto> v)), e))"
  let ?D = "dom (putFields xs ?h)"
  have fin: "finite ?D" "insert f (dom h) \<subseteq> ?D"
    using 3 dom_putFields(1) [of xs ?h] dom_putFields(2) [of ?h xs] by auto
  have card: "int (card (?D - dom h)) = (if h f = None then 1 else 0) + int (card (?D - dom ?h))"
  proof (cases "h f = None")
    case True
    then have D: "?D - dom h = insert f (?D - insert f (dom h))" using fin(2) by auto
    have "card (?D - dom h) = Suc (card (?D - insert f (dom h)))" unfolding D using fin(1) by simp
    then show ?thesis using True by simp
  next
    case False
    then have "dom ?h = dom h" by auto
    then show ?thesis using False by simp
  qed
  have step: "runs t (redisHSetStep key f v n) A (Ok (if h f = None then n + 1 else n)) ?A"
    by (rule runs_hSetStep [of key A, OF assms(1) 3(4)])
  have pre: "even (length xs)" "asHash (?A key) = Some (?h, e)" "xs \<noteq> [] \<or> ?A key = Some (RHash ?h, e)" "finite (dom ?h)"
    using 3(3,6) by (simp_all add: asHash_def)
  note loop = 3(1) [of ?A ?h, OF pre]
  show ?case
    unfolding redisHSetLoop.simps putFields.simps
    by (rule runs_bind [OF step], rule runs_eq [OF loop])
      (simp_all add: card [unfolded fun_upd_def] fun_upd_def fun_eq_iff del: fun_upd_apply)
next
  case 1
  then have "A(key \<mapsto> (RHash h, e)) = A" by auto
  then show ?case by (simp add: runs_basic)
qed simp

lemma finite_hashLike:
  assumes "hashLike t A key h e db"
  shows "finite (dom h)"
proof -
  have "(h f = None) = (dbView db (namespacedKey kindHash key f) = None)" for f
    using assms by (cases "h f"; cases "dbView db (namespacedKey kindHash key f)")
      (auto simp: hashLike_def dest!: spec [of _ f])
  then have "dom h = {f. dbView db (namespacedKey kindHash key f) \<noteq> None}" by (simp add: dom_def)
  moreover have "dbOk db" using assms by (simp add: hashLike_def nearly_def)
  ultimately show ?thesis using fields_items(1) [of db key kindHash] by (metis List.finite_set)
qed

lemma runs_finiteHash:
  fixes m :: "(('s, 'v) DB, 'a) op"
  assumes "lenOk key" "asHash (A key) = Some (h, e)" "finite (dom h) \<Longrightarrow> runs t m A r A'"
  shows "runs t m A r A'"
proof (rule runsI)
  fix db :: "('s, 'v) DB"
  assume hd: "holds t A db"
  from finite_hashLike [OF holds_hashLike [OF hd assms(1,2)]] assms(3) hd show "\<exists>db'. m db = (r, db') \<and> holds t A' db'" by (auto simp: runs_def)
qed

text \<open>A write to an absent key first removes a deadline record.\<close>

lemma runs_fresh:
  assumes "lenOk key" "runs t (replyE (f ())) A (Ok y) A'"
  shows "runs t (replyE (bindE (if typeName (A key) = redisTypeNone
    then ignoreE (dbProtocol_Delete None (dbProtocol_CollectionTTLKey key)) else ret ()) f)) A (Ok y) A'"
  using assms runs_then [OF runs_dropTTL [OF assms(1), of A t]] by auto

lemma refines_HSet:
  assumes "list_all lenOk args"
  shows "refines t (redisHSet args) (specHSet t args)"
  unfolding redisHSet_def specHSet_def onHash_def Background_def
  apply (intro refines_arity refines_type)
  subgoal using assms by (simp add: args_lenOk)
  subgoal using assms by (simp add: args_lenOk)
  subgoal premises prems for A x
  proof -
    have k: "lenOk (args ! 1)" using prems(1) assms by (simp add: args_lenOk)
    have x: "x = typeName (A (args ! 1))" using prems(3) by simp
    have xs: "even (length (drop 2 args))" "drop 2 args \<noteq> []" using prems(1) by auto
    show ?thesis
    proof (cases "asHash (A (args ! 1))")
      case None
      then show ?thesis using asHash_None_iff [of "A (args ! 1)"] by (simp add: x runs_ret)
    next
      case (Some y)
      then obtain h e where he: "asHash (A (args ! 1)) = Some (h, e)" by (cases y) auto
      then have "\<not> (x \<noteq> redisTypeNone \<and> x \<noteq> redisTypeHash)" using asHash_None_iff [of "A (args ! 1)"] x by auto
      note c = this
      show ?thesis
        unfolding if_not_P [OF c] he option.case prod.case Let_def
        unfolding x
      proof (rule runs_fresh [OF k], rule runs_finiteHash [of "args ! 1" A, OF k he])
        assume "finite (dom h)"
        note loop = runs_hSetLoop [of "args ! 1" "drop 2 args" A h e t 0, OF k xs(1) he disjI1 [OF xs(2)] this]
        show "runs t (replyE (bindE (redisHSetLoop (args ! 1) (drop 2 args) 0) (\<lambda>added. ret (respIntegerValue added)))) A
          (Ok (fst (respIntegerValue (int (card (dom (putFields (drop 2 args) h) - dom h))), A(args ! 1 \<mapsto> (RHash (putFields (drop 2 args) h), e)))))
          (snd (respIntegerValue (int (card (dom (putFields (drop 2 args) h) - dom h))), A(args ! 1 \<mapsto> (RHash (putFields (drop 2 args) h), e))))"
          by (rule runs_then [OF loop]) (simp add: runs_ret)
      qed
    qed
  qed
  by (auto simp: not_less even_iff_mod_2_eq_zero)

text \<open>A key whose data has gone: the deadline record at most is left.\<close>

lemma dataless_hash:
  assumes "hashLike t A key Map.empty e db"
  shows "reprKey R key sk \<Longrightarrow> dbView db sk = None"
  using assms
  by (cases R) (auto simp: hashLike_def onlyRepr_def lacksRepr_def reprKey_def elim!: prefix_namespacePrefixE)

lemma runs_hDelBody:
  assumes k: "lenOk key" and ok: "keyOk t (A key)" and v: "A key = Some (RHash h, e)"
  shows "runs t (bindE (foldE (redisHDelStep key) fs 0) (\<lambda>removed. bindE (redisHashEntries None key) (\<lambda>r.
      bindE (if fst r = [] then ignoreE (redisDeleteRaw None key) else ret ()) (\<lambda>_. ret (respIntegerValue removed))))) A
    (Ok (respIntegerValue (int (card (set fs \<inter> dom h))))) (A(key := hashObj (h |` (- set fs)) e))"
proof (rule runsI)
  fix db :: "('s, 'v) DB"
  assume hd: "holds t A db"
  let ?h = "h |` (- set fs)"
  have "asHash (A key) = Some (h, e)" using v by (simp add: asHash_def)
  from hDelFold_eq [OF holds_hashLike [OF hd k this], of fs 0] obtain db1 where
    fold: "foldE (redisHDelStep key) fs 0 db = (Ok (int (card (set fs \<inter> dom h))), db1)"
    and h1: "hashLike t A key ?h e db1" by auto
  have e: "0 \<le> e" "isInt64 e" "\<not> (0 < e \<and> e \<le> t)" using ok v by (auto simp: keyOk_def)
  show "\<exists>db'. bindE (foldE (redisHDelStep key) fs 0) (\<lambda>removed. bindE (redisHashEntries None key) (\<lambda>r.
      bindE (if fst r = [] then ignoreE (redisDeleteRaw None key) else ret ()) (\<lambda>_. ret (respIntegerValue removed)))) db
      = (Ok (respIntegerValue (int (card (set fs \<inter> dom h)))), db') \<and> holds t (A(key := hashObj ?h e)) db'"
  proof (cases "?h = Map.empty")
    case True
    have n: "nearly t A key db1" "ttlIs e key (dbView db1)" "dbOk db1" using h1 by (simp_all add: hashLike_def nearly_def)
    have "redisType None key db1 = (Ok redisTypeNone, db1)"
      using dataless_hash [OF h1 [unfolded True]] by (intro type_dataless [OF n(1,2) e])
    then have "redisHashEntries None key db1 = (Ok ([], False), db1)" by (simp add: redisHashEntries_def bindE_def ret_def)
    then show ?thesis
      using fold nearly_drop [OF n(1) k] True n(3) by (simp add: bindE_def ignoreE_def ret_def hashObj_def op_simps)
  next
    case False
    let ?A = "A(key \<mapsto> (RHash ?h, e))"
    have h2: "holds t ?A db1" by (rule hashLike_holds [OF h1 False])
    have al: "alive t (?A key) = ?A key" using e by (auto simp: alive_def)
    have "runs t (redisHashEntries None key) ?A (Ok (entriesOf ?h, True)) ?A"
      using runs_redisHashEntries [OF k, of t ?A] al False by (simp add: purge_live hashEntriesOf_def asHash_def)
    from runsE [OF this h2] obtain db2 where "redisHashEntries None key db1 = (Ok (entriesOf ?h, True), db2)" "holds t ?A db2" .
    moreover have "entriesOf ?h \<noteq> []" using finite_hashLike [OF h1] False by (simp add: entriesOf_def del: dom_restrict)
    ultimately show ?thesis using fold False by (auto simp: bindE_def ret_def hashObj_def)
  qed
qed

lemma asHash_SomeE:
  assumes "asHash r = Some (h, e)"
  obtains "r = None" "h = Map.empty" "e = 0" | "r = Some (RHash h, e)"
  using assms by (cases r; cases "fst (the r)") (auto simp: asHash_def)

lemma refines_HDel:
  assumes "list_all lenOk args"
  shows "refines t (redisHDel args) (specHDel t args)"
  unfolding redisHDel_def specHDel_def onHash_def Background_def
  apply (intro refines_arity refines_type)
  subgoal using assms by (simp add: args_lenOk)
  subgoal using assms by (simp add: args_lenOk)
  subgoal premises prems for A x
  proof -
    have k: "lenOk (args ! 1)" using prems(1) assms by (simp add: args_lenOk)
    have x: "x = typeName (A (args ! 1))" using prems(3) by simp
    show ?thesis
    proof (cases "asHash (A (args ! 1))")
      case None
      then show ?thesis using asHash_None_iff [of "A (args ! 1)"] by (auto simp: x runs_ret)
    next
      case (Some y)
      then obtain h e where he: "asHash (A (args ! 1)) = Some (h, e)" by (cases y) auto
      then show ?thesis
      proof (cases rule: asHash_SomeE)
        case 1
        then show ?thesis by (auto simp: x asHash_def hashObj_def intro!: runs_ret)
      next
        case 2
        then have "x = redisTypeHash" "\<not> x = redisTypeNone" "\<not> x \<noteq> redisTypeHash" by (simp_all add: x typeName_def)
        then show ?thesis
          unfolding if_not_P [OF \<open>\<not> x = redisTypeNone\<close>] if_not_P [OF \<open>\<not> x \<noteq> redisTypeHash\<close>] he option.case prod.case fst_conv snd_conv
          by (intro runs_reply runs_hDelBody [of "args ! 1" t A, OF k prems(2) 2])
      qed
    qed
  qed
  by auto

lemma refines_HIncrBy:
  assumes "list_all lenOk args"
  shows "refines t (redisHIncrBy args) (specHIncrBy t args)"
  unfolding redisHIncrBy_def specHIncrBy_def onHash_def Background_def
  apply (intro refines_arity refines_withInt refines_type)
  subgoal using assms by (simp add: args_lenOk)
  subgoal using assms by (simp add: args_lenOk)
  subgoal premises prems for n A x
  proof -
    have k: "lenOk (args ! 1)" using prems(1) assms by (simp add: args_lenOk)
    have x: "x = typeName (A (args ! 1))" using prems(4) by simp
    have live: "alive t (A (args ! 1)) = A (args ! 1)" using prems(3) by (rule keyOk_live)
    show ?thesis
    proof (cases "asHash (A (args ! 1))")
      case None
      then show ?thesis using asHash_None_iff [of "A (args ! 1)"] by (simp add: x runs_ret)
    next
      case (Some y)
      then obtain h e where he: "asHash (A (args ! 1)) = Some (h, e)" by (cases y) auto
      then have c: "\<not> (x \<noteq> redisTypeNone \<and> x \<noteq> redisTypeHash)" using asHash_None_iff [of "A (args ! 1)"] x by auto
      have field: "runs t (redisHashField None (args ! 1) (args ! 2)) A (Ok (h (args ! 2))) A"
        using runs_redisHashField [OF k, of t "args ! 2" A] live he by (simp add: purge_live hashFieldOf_def)
      show ?thesis
        unfolding if_not_P [OF c] he option.case prod.case Let_def
        by (rule runs_then [OF field])
          (auto intro!: runs_ret runs_then [OF runs_hashPut [of "args ! 1" A, OF k he, simplified]] split: option.split)
    qed
  qed
  by auto

section \<open>Sets\<close>

lemma setMembersOf_cases:
  "setMembersOf r = Ok x \<longleftrightarrow> (\<exists>S e. asSet r = Some (S, e) \<and> x = (sorted_list_of_set S, S \<noteq> {}))"
  "setMembersOf r = Err er \<longleftrightarrow> asSet r = None \<and> er = wrongType (typeName r)"
  "setMembersOf r \<noteq> Panic p"
  by (auto simp: setMembersOf_def split: option.splits)

lemmas refines_members = refines_read [where rd = setMembersOf, OF runs_redisSetMembers]

lemma refines_SMembers:
  assumes "list_all lenOk args"
  shows "refines t (redisSMembers args) (specSMembers t args)" "refines t (redisSCard args) (specSCard t args)"
  unfolding redisSMembers_def specSMembers_def redisSCard_def specSCard_def onSet_def Background_def using assms
  by (intro refines_arity refines_members; auto simp: args_lenOk setMembersOf_cases intro!: runs_ret)+

lemma finite_setLike:
  assumes "setLike t A key S e db"
  shows "finite S"
proof -
  have "S = {x. dbView db (namespacedKey kindSet key x) \<noteq> None}" using assms by (auto simp: setLike_def)
  moreover have "dbOk db" using assms by (simp add: setLike_def nearly_def)
  ultimately show ?thesis using fields_items(1) [of db key kindSet] by (metis List.finite_set)
qed

lemma runs_sAddFold:
  assumes "lenOk key" "asSet (A key) = Some (S, e)" "xs \<noteq> [] \<or> A key = Some (RSet S, e)"
  shows "runs t (foldE (redisSAddStep key) xs n) A (Ok (n + int (card (set xs - S)))) (A(key \<mapsto> (RSet (S \<union> set xs), e)))"
  using assms(2-)
proof (induction xs arbitrary: A S n)
  case (Cons x xs)
  let ?A = "A(key \<mapsto> (RSet (insert x S), e))"
  have card: "int (card (set (x # xs) - S)) = (if x \<in> S then 0 else 1) + int (card (set xs - insert x S))"
  proof (cases "x \<in> S")
    case True
    then show ?thesis by (simp add: insert_absorb insert_Diff_if)
  next
    case False
    then have D: "set (x # xs) - S = insert x (set xs - insert x S)" by auto
    show ?thesis unfolding D using False by simp
  qed
  have pre: "asSet (?A key) = Some (insert x S, e)" "xs \<noteq> [] \<or> ?A key = Some (RSet (insert x S), e)"
    by (simp_all add: asSet_def)
  note loop = Cons.IH [of ?A "insert x S", OF pre]
  show ?case
    unfolding foldE.simps card
    by (rule runs_bind [OF runs_sAddStep [of key A, OF assms(1) Cons.prems(1)]], rule runs_eq [OF loop])
      (simp_all add: fun_upd_def fun_eq_iff del: fun_upd_apply)
next
  case Nil
  then have "A(key \<mapsto> (RSet S, e)) = A" by auto
  then show ?case by (simp add: runs_basic)
qed

lemma refines_SAdd:
  assumes "list_all lenOk args"
  shows "refines t (redisSAdd args) (specSAdd t args)"
  unfolding redisSAdd_def specSAdd_def onSet_def Background_def
  apply (intro refines_arity refines_type)
  subgoal using assms by (simp add: args_lenOk)
  subgoal using assms by (simp add: args_lenOk)
  subgoal premises prems for A x
  proof -
    have k: "lenOk (args ! 1)" using prems(1) assms by (simp add: args_lenOk)
    have x: "x = typeName (A (args ! 1))" using prems(3) by simp
    have xs: "drop 2 args \<noteq> []" using prems(1) by auto
    show ?thesis
    proof (cases "asSet (A (args ! 1))")
      case None
      then show ?thesis using asSet_None_iff [of "A (args ! 1)"] by (simp add: x runs_ret)
    next
      case (Some y)
      then obtain S e where he: "asSet (A (args ! 1)) = Some (S, e)" by (cases y) auto
      then have c: "\<not> (x \<noteq> redisTypeNone \<and> x \<noteq> redisTypeSet)" using asSet_None_iff [of "A (args ! 1)"] x by auto
      show ?thesis
        unfolding if_not_P [OF c] he option.case prod.case
        unfolding x
        by (rule runs_fresh [OF k], rule runs_then [OF runs_sAddFold [of "args ! 1" A, OF k he disjI1 [OF xs]]])
          (simp add: runs_ret fun_upd_def)
    qed
  qed
  by auto

lemma asSet_SomeE:
  assumes "asSet r = Some (S, e)"
  obtains "r = None" "S = {}" "e = 0" | "r = Some (RSet S, e)"
  using assms by (cases r; cases "fst (the r)") (auto simp: asSet_def)

lemma dataless_set:
  assumes "setLike t A key {} e db"
  shows "reprKey R key sk \<Longrightarrow> dbView db sk = None"
  using assms
  by (cases R) (auto simp: setLike_def onlyRepr_def lacksRepr_def reprKey_def elim!: prefix_namespacePrefixE)

lemma runs_sRemBody:
  assumes k: "lenOk key" and ok: "keyOk t (A key)" and v: "A key = Some (RSet S, e)"
  shows "runs t (bindE (foldE (redisSRemStep key) xs 0) (\<lambda>removed. bindE (redisSetMembers None key) (\<lambda>r.
      bindE (if fst r = [] then ignoreE (redisDeleteRaw None key) else ret ()) (\<lambda>_. ret (respIntegerValue removed))))) A
    (Ok (respIntegerValue (int (card (set xs \<inter> S))))) (A(key := setObj (S - set xs) e))"
proof (rule runsI)
  fix db :: "('s, 'v) DB"
  assume hd: "holds t A db"
  let ?S = "S - set xs"
  have "asSet (A key) = Some (S, e)" using v by (simp add: asSet_def)
  from sRemFold_eq [OF holds_setLike [OF hd k this], of xs 0] obtain db1 where
    fold: "foldE (redisSRemStep key) xs 0 db = (Ok (int (card (set xs \<inter> S))), db1)"
    and h1: "setLike t A key ?S e db1" by auto
  have e: "0 \<le> e" "isInt64 e" "\<not> (0 < e \<and> e \<le> t)" using ok v by (auto simp: keyOk_def)
  show "\<exists>db'. bindE (foldE (redisSRemStep key) xs 0) (\<lambda>removed. bindE (redisSetMembers None key) (\<lambda>r.
      bindE (if fst r = [] then ignoreE (redisDeleteRaw None key) else ret ()) (\<lambda>_. ret (respIntegerValue removed)))) db
      = (Ok (respIntegerValue (int (card (set xs \<inter> S)))), db') \<and> holds t (A(key := setObj ?S e)) db'"
  proof (cases "?S = {}")
    case True
    have n: "nearly t A key db1" "ttlIs e key (dbView db1)" "dbOk db1" using h1 by (simp_all add: setLike_def nearly_def)
    have "redisType None key db1 = (Ok redisTypeNone, db1)"
      using dataless_set [OF h1 [unfolded True]] by (intro type_dataless [OF n(1,2) e])
    then have "redisSetMembers None key db1 = (Ok ([], False), db1)" by (simp add: redisSetMembers_def bindE_def ret_def)
    then show ?thesis
      using fold nearly_drop [OF n(1) k] True n(3) by (simp add: bindE_def ignoreE_def ret_def setObj_def op_simps)
  next
    case False
    let ?A = "A(key \<mapsto> (RSet ?S, e))"
    have h2: "holds t ?A db1" by (rule setLike_holds [OF h1 False])
    have al: "alive t (?A key) = ?A key" using e by (auto simp: alive_def)
    have "runs t (redisSetMembers None key) ?A (Ok (sorted_list_of_set ?S, True)) ?A"
      using runs_redisSetMembers [OF k, of t ?A] al False by (simp add: purge_live setMembersOf_def asSet_def)
    from runsE [OF this h2] obtain db2 where "redisSetMembers None key db1 = (Ok (sorted_list_of_set ?S, True), db2)" "holds t ?A db2" .
    moreover have "sorted_list_of_set ?S \<noteq> []" using finite_setLike [OF h1] False by simp
    ultimately show ?thesis using fold False by (auto simp: bindE_def ret_def setObj_def)
  qed
qed

lemma refines_SRem:
  assumes "list_all lenOk args"
  shows "refines t (redisSRem args) (specSRem t args)"
  unfolding redisSRem_def specSRem_def onSet_def Background_def
  apply (intro refines_arity refines_type)
  subgoal using assms by (simp add: args_lenOk)
  subgoal using assms by (simp add: args_lenOk)
  subgoal premises prems for A x
  proof -
    have k: "lenOk (args ! 1)" using prems(1) assms by (simp add: args_lenOk)
    have x: "x = typeName (A (args ! 1))" using prems(3) by simp
    show ?thesis
    proof (cases "asSet (A (args ! 1))")
      case None
      then show ?thesis using asSet_None_iff [of "A (args ! 1)"] by (auto simp: x runs_ret)
    next
      case (Some y)
      then obtain S e where he: "asSet (A (args ! 1)) = Some (S, e)" by (cases y) auto
      then show ?thesis
      proof (cases rule: asSet_SomeE)
        case 1
        then show ?thesis by (auto simp: x asSet_def setObj_def intro!: runs_ret)
      next
        case 2
        then have "\<not> x = redisTypeNone" "\<not> x \<noteq> redisTypeSet" by (simp_all add: x typeName_def)
        then show ?thesis
          unfolding if_not_P [OF \<open>\<not> x = redisTypeNone\<close>] if_not_P [OF \<open>\<not> x \<noteq> redisTypeSet\<close>] he option.case prod.case fst_conv snd_conv
          by (intro runs_reply runs_sRemBody [of "args ! 1" t A, OF k prems(2) 2])
      qed
    qed
  qed
  by auto

lemma runs_member:
  assumes k: "lenOk key" and at: "asSet (A key) = Some (S, e)"
  shows "runs t (bindE (dbProtocol_Get None (dbProtocol_SetKey key x)) (\<lambda>r. ret (respIntegerValue (if r \<noteq> None then 1 else 0)))) A
    (Ok (boolReply (x \<in> S))) A"
proof (rule runsI)
  fix db :: "('s, 'v) DB"
  assume h: "holds t A db"
  have "dbView db (namespacedKey kindSet key x) \<noteq> None \<longleftrightarrow> x \<in> S"
    using holds_setLike [OF h k at] by (simp add: setLike_def)
  then show "\<exists>db'. bindE (dbProtocol_Get None (dbProtocol_SetKey key x)) (\<lambda>r. ret (respIntegerValue (if r \<noteq> None then 1 else 0))) db
      = (Ok (boolReply (x \<in> S)), db') \<and> holds t A db'"
    using h holds_simps(1) [OF h] by (auto simp: bindE_def ret_def op_simps boolReply_def)
qed

lemma refines_SIsMember:
  assumes "list_all lenOk args"
  shows "refines t (redisSIsMember args) (specSIsMember t args)"
  unfolding redisSIsMember_def specSIsMember_def onSet_def Background_def
  apply (intro refines_arity refines_type)
  subgoal using assms by (simp add: args_lenOk)
  subgoal using assms by (simp add: args_lenOk)
  subgoal premises prems for A x
  proof -
    have k: "lenOk (args ! 1)" using prems(1) assms by (simp add: args_lenOk)
    have x: "x = typeName (A (args ! 1))" using prems(3) by simp
    show ?thesis
    proof (cases "asSet (A (args ! 1))")
      case None
      then show ?thesis using asSet_None_iff [of "A (args ! 1)"] by (auto simp: x runs_ret)
    next
      case (Some y)
      then obtain S e where he: "asSet (A (args ! 1)) = Some (S, e)" by (cases y) auto
      note mem = runs_member [of "args ! 1" A, OF k he]
      from he show ?thesis
      proof (cases rule: asSet_SomeE)
        case 1
        then show ?thesis by (auto simp: x asSet_def boolReply_def intro!: runs_ret)
      next
        case 2
        then have "\<not> x = redisTypeNone" "\<not> x \<noteq> redisTypeSet" by (simp_all add: x typeName_def)
        then show ?thesis
          unfolding if_not_P [OF \<open>\<not> x = redisTypeNone\<close>] if_not_P [OF \<open>\<not> x \<noteq> redisTypeSet\<close>] he option.case prod.case fst_conv snd_conv
          by (intro runs_reply mem)
      qed
    qed
  qed
  by auto

lemma reply_kinds [simp]: "resp_kind (boolReply b) = respInteger" "resp_kind wrongTypeReply = respError"
  by (simp_all add: boolReply_def wrongTypeReply_def respIntegerValue_def respErrorString_def)

lemma runs_smIsMemberLoop:
  assumes "lenOk key" "list_all lenOk xs" "asSet (A key) = Some (S, e)" "alive t (A key) = A key"
  shows "runs t (smIsMemberLoop key xs items) A (Ok (respArrayValues (items @ map (\<lambda>x. boolReply (x \<in> S)) xs))) A"
  using assms(2)
proof (induction xs arbitrary: items)
  case (Cons x xs)
  have "list_all lenOk [''SISMEMBER'', key, x]" using assms(1) Cons.prems by (simp add: lenOk_def)
  moreover have "specSIsMember t [''SISMEMBER'', key, x] A = (boolReply (x \<in> S), A)"
    using assms(3,4) by (simp add: specSIsMember_def arity_def onSet_def onKey_eq purge_live)
  ultimately have "runs t (redisSIsMember [''SISMEMBER'', key, x]) A (Ok (boolReply (x \<in> S))) A"
    using refinesD [OF refines_SIsMember] by blast
  note member = this
  show ?case
    unfolding smIsMemberLoop.simps
    by (rule runs_bind [OF member]) (use Cons.IH [of "items @ [boolReply (x \<in> S)]"] Cons.prems in simp)
qed (simp add: runs_basic)

lemma refines_SMIsMember:
  assumes "list_all lenOk args"
  shows "refines t (redisSMIsMember args) (specSMIsMember t args)"
  unfolding redisSMIsMember_def specSMIsMember_def
proof (intro refines_arity refinesI)
  fix A
  assume len: "\<not> length args < 3"
  let ?k = "args ! 1"
  have k: "lenOk ?k" using len assms by (simp add: args_lenOk)
  obtain x xs where xs: "drop 2 args = x # xs" using len by (cases "drop 2 args") auto
  have "list_all lenOk (drop 2 args)" using assms by (metis append_take_drop_id list_all_append)
  then have ok: "list_all lenOk [''SISMEMBER'', ?k, x]" "list_all lenOk xs" using k xs by (simp_all add: lenOk_def)
  note first = refines_SIsMember [OF ok(1), of t, THEN refines_at, of A]
  note loop = runs_smIsMemberLoop [OF k ok(2), of "purge t ?k A"]
  show "runs t (smIsMemberLoop ?k (drop 2 args) []) A
    (Ok (fst (onSet t ?k A (\<lambda>S e A'. (respArrayValues (map (\<lambda>x. boolReply (x \<in> S)) (drop 2 args)), A')))))
    (snd (onSet t ?k A (\<lambda>S e A'. (respArrayValues (map (\<lambda>x. boolReply (x \<in> S)) (drop 2 args)), A'))))"
  proof (cases "asSet (alive t (A ?k))")
    case None
    then have "specSIsMember t [''SISMEMBER'', ?k, x] A = (wrongTypeReply, purge t ?k A)"
      by (simp add: specSIsMember_def arity_def onSet_def onKey_eq)
    then show ?thesis
      using None first unfolding xs smIsMemberLoop.simps
      by (intro runs_bind [OF first]) (simp add: onSet_def onKey_eq runs_ret)
  next
    case (Some y)
    then obtain S e where y: "asSet (alive t (A ?k)) = Some (S, e)" by (cases y) auto
    then have "specSIsMember t [''SISMEMBER'', ?k, x] A = (boolReply (x \<in> S), purge t ?k A)"
      by (simp add: specSIsMember_def arity_def onSet_def onKey_eq)
    then show ?thesis
      using y loop [where t = t and S = S and e = e and items = "[boolReply (x \<in> S)]"] unfolding xs smIsMemberLoop.simps
      by (intro runs_bind [OF first]) (simp add: onSet_def onKey_eq)
  qed
qed auto

end

end
