(* ===== verification/KeyspaceLists.thy ===== *)
theory KeyspaceLists
  imports KeyspaceObjects
begin

text \<open>
  The list commands of \<open>extensions/redis/redis_commands.go\<close> implement their specifications, as long
  as a list and its items fit the 32-bit length fields of the list format.
\<close>

section \<open>Ranges\<close>

lemma nths_segment: "nths xs {i. a \<le> i \<and> i < b} = take (b - a) (drop a xs)"
proof -
  have "(+) a ` {..<b - a} = {i. a \<le> i \<and> i < b}"
  proof (intro set_eqI iffI)
    fix i
    assume "i \<in> {i. a \<le> i \<and> i < b}"
    then have "i = a + (i - a)" "i - a \<in> {..<b - a}" by auto
    then show "i \<in> (+) a ` {..<b - a}" by blast
  qed auto
  then show ?thesis by (metis nths_drop nths_upt_eq_take)
qed

lemma nths_cong: "(\<And>i. i < length xs \<Longrightarrow> i \<in> I \<longleftrightarrow> i \<in> J) \<Longrightarrow> nths xs I = nths xs J"
  unfolding nths_def by (intro arg_cong [where f = "map fst"] filter_cong) (auto dest: set_zip_rightD)

lemma rangeOf_slice:
  assumes "redisNormalizeRange (int (length xs)) start stop = (lo, hi, found)"
  shows "rangeOf xs start stop = (if found then slice xs lo hi else [])" "found \<Longrightarrow> 0 \<le> lo \<and> lo \<le> hi \<and> hi < int (length xs)"
proof -
  define n a b where "n = int (length xs)" "a = (if start < 0 then n + start else start)" "b = (if stop < 0 then n + stop else stop)"
  note defs = this
  have lo: "lo = max 0 a" "hi = min (n - 1) b" "found = (0 < n \<and> lo < n \<and> lo \<le> hi)"
    using assms unfolding defs(1) [symmetric]
    by (simp_all add: redisNormalizeRange_def Let_def defs(2,3) split: if_splits) linarith+
  then show "found \<Longrightarrow> 0 \<le> lo \<and> lo \<le> hi \<and> hi < int (length xs)" unfolding defs(1) [symmetric] by simp
  have n: "0 \<le> n" "nat n = length xs" by (simp_all add: defs(1))
  have "rangeOf xs start stop = nths xs {i. a \<le> int i \<and> int i \<le> b}"
    unfolding rangeOf_def Let_def defs ..
  also have "\<dots> = nths xs {i. nat lo \<le> i \<and> i < nat (hi + 1)}"
  proof (rule nths_cong)
    fix i
    assume "i < length xs"
    then have "int i < n" by (simp add: defs(1))
    then have "a \<le> int i \<longleftrightarrow> nat lo \<le> i" "int i \<le> b \<longleftrightarrow> i < nat (hi + 1)" using lo by linarith+
    then show "i \<in> {i. a \<le> int i \<and> int i \<le> b} \<longleftrightarrow> i \<in> {i. nat lo \<le> i \<and> i < nat (hi + 1)}" by simp
  qed
  also have "\<dots> = take (nat (hi + 1 - lo)) (drop (nat lo) xs)"
  proof -
    have "nat (hi + 1) - nat lo = nat (hi + 1 - lo)" using lo(1) by linarith
    then show ?thesis by (simp add: nths_segment)
  qed
  also have "\<dots> = (if found then slice xs lo hi else [])"
  proof (cases found)
    case False
    then have "hi + 1 - lo \<le> 0 \<or> length xs \<le> nat lo" using lo n by linarith
    then show ?thesis using False by auto
  qed (simp add: slice_def)
  finally show "rangeOf xs start stop = (if found then slice xs lo hi else [])" .
qed

lemma itemsAre_slice: "itemsAre items xs \<Longrightarrow> itemsAre (slice items lo hi) (slice xs lo hi)"
  by (simp add: slice_def list_all2_takeI list_all2_dropI)

lemma listOk_sub: "listOk items \<Longrightarrow> set items' \<subseteq> set items \<Longrightarrow> length items' \<le> length items \<Longrightarrow> listOk items'"
  by (auto simp: listOk_def)

section \<open>Items\<close>

lemma item_payload: "recordIs item v 0 \<Longrightarrow> redisItemPayload item now = Ok (Some v)"
  by (auto simp: recordIs_def redisItemPayload_def)

lemma redisListReply_eq: "itemsAre items xs \<Longrightarrow> redisListReply items now = Ok (map respBulkBytes xs)"
  by (induction items xs rule: list_all2_induct) (simp_all add: item_payload)

definition itemOk :: "bytes \<Rightarrow> bool" where
  "itemOk v \<longleftrightarrow> length v + 64 < 2 ^ 32"

lemma encodeValues_eq:
  assumes "list_all itemOk vs"
  shows "\<exists>items. encodeValues vs = Ok items \<and> itemsAre items vs \<and> (\<forall>i \<in> set items. length i < 2 ^ 32)"
  using assms
proof (induction vs)
  case (Cons v vs)
  have "encodeRecord bytesCodec v 0 = Ok (envBytes bytesCodec v 0)"
    by (simp add: encodeRecord_def dbProtocol_EncodeRecord_def bytesCodec_def)
  moreover have "recordIs (envBytes bytesCodec v 0) v 0"
    by (simp add: decode_envBytes bytesCodec_def isInt64_0)
  moreover have "length (envBytes bytesCodec v 0) < 2 ^ 32"
    using Cons.prems by (simp add: envBytes_def bytesCodec_def itemOk_def envelopeMagic_def)
  ultimately show ?case using Cons by auto
qed simp

section \<open>The commands\<close>

text \<open>Pushing the arguments keeps every list and every item within 32 bits.\<close>

definition roomFor :: "bytes list \<Rightarrow> keyspace \<Rightarrow> bool" where
  "roomFor args A \<longleftrightarrow> list_all itemOk args \<and> length args < 2 ^ 32 \<and>
     (\<forall>key xs e. A key = Some (RList xs, e) \<longrightarrow> length xs + length args < 2 ^ 32)"

lemma asList_SomeE:
  assumes "asList r = Some (xs, e)"
  obtains "r = None" "xs = []" "e = 0" | "r = Some (RList xs, e)"
  using assms by (cases r; cases "fst (the r)") (auto simp: asList_def)

lemma ParseInt_isInt64: "ParseInt 64 s = Inr n \<Longrightarrow> isInt64 n"
  by (auto simp: ParseInt_def int64_defs split: prod.splits if_splits sum.splits)

lemma popCount_eq:
  "length args = 2 \<Longrightarrow> popCount args = Ok 1"
  "length args = 3 \<Longrightarrow> popCount args = (case ParseInt 64 (args ! 2) of Inl _ \<Rightarrow> Err errNotInteger
     | Inr n \<Rightarrow> if n < 0 then Err errNotInteger else Ok n)"
  using ParseInt_isInt64 [of "args ! 2"]
  by (auto simp: popCount_def redisParseNonNegative_def redisParseInt_def isInt64_def split: sum.splits)

context local_engine
begin

lemma runs_onList:
  fixes f :: "bytes list option \<Rightarrow> (('s, 'v) DB, respValue) op"
  assumes k: "lenOk key"
    and body: "\<And>xs e items. keyOk t (alive t (A key)) \<Longrightarrow> asList (alive t (A key)) = Some (xs, e) \<Longrightarrow> itemsAre items xs \<Longrightarrow>
      listOk items \<Longrightarrow> runs t (replyE (f (if xs = [] then None else Some items))) (purge t key A)
        (Ok (fst (g xs e (purge t key A)))) (snd (g xs e (purge t key A)))"
  shows "runs t (replyE (bindE (redisListValues None key) f)) A (Ok (fst (onList t key A g))) (snd (onList t key A g))"
proof (cases "asList (alive t (A key))")
  case None
  then show ?thesis
    using runs_replyErr [OF runs_bindErr, OF runs_listValuesErr [of key t A, OF k None], of f] by (simp add: onList_def onKey_eq)
next
  case (Some y)
  then obtain xs e where y: "asList (alive t (A key)) = Some (xs, e)" by (cases y) auto
  show ?thesis
  proof (rule runsI)
    fix db :: "('s, 'v) DB"
    assume h: "holds t A db"
    obtain items db' where l: "redisListValues None key db = (Ok (if xs = [] then None else Some items), db')"
      and h': "holds t (purge t key A) db'" and i: "itemsAre items xs" "listOk items" by (rule listValuesE [of t A db key, OF h k y])
    have "keyOk t (alive t (A key))" using holds_keyOk [of t "purge t key A", OF h' k] by simp
    from runsE [OF body [OF this y i] h'] obtain db'' where
      "replyE (f (if xs = [] then None else Some items)) db' = (Ok (fst (g xs e (purge t key A))), db'')"
      "holds t (snd (g xs e (purge t key A))) db''" .
    then show "\<exists>db'. replyE (bindE (redisListValues None key) f) db = (Ok (fst (onList t key A g)), db') \<and>
        holds t (snd (onList t key A g)) db'"
      using l y by (auto simp: replyE_def bindE_def onList_def onKey_eq)
  qed
qed

lemma refines_LLen:
  assumes "list_all lenOk args"
  shows "refines t (redisLLen args) (specLLen t args)"
  unfolding redisLLen_def specLLen_def Background_def using assms
  by (intro refines_arity refinesI, intro runs_onList)
    (auto simp: args_lenOk orEmpty_def list_all2_lengthD intro!: runs_ret)

lemma range_items:
  assumes "redisNormalizeRange (int (length (orEmpty (if xs = [] then None else Some items)))) start stop = (lo, hi, found)"
    "itemsAre items xs"
  shows "rangeOf xs start stop = (if found then slice xs lo hi else [])"
    "itemsAre (slice (orEmpty (if xs = [] then None else Some items)) lo hi) (slice xs lo hi)"
    "set (slice items lo hi) \<subseteq> set items" "length (slice items lo hi) \<le> length items"
    "found \<Longrightarrow> slice (orEmpty (if xs = [] then None else Some items)) lo hi = slice items lo hi"
proof -
  have len: "length (orEmpty (if xs = [] then None else Some items)) = length xs" "itemsAre (orEmpty (if xs = [] then None else Some items)) xs"
    using assms(2) by (auto simp: orEmpty_def list_all2_lengthD)
  then show "rangeOf xs start stop = (if found then slice xs lo hi else [])" using rangeOf_slice(1) assms(1) by simp
  show "itemsAre (slice (orEmpty (if xs = [] then None else Some items)) lo hi) (slice xs lo hi)" using itemsAre_slice [OF len(2)] .
  show "set (slice items lo hi) \<subseteq> set items"
    unfolding slice_def by (meson order_trans set_drop_subset set_take_subset)
  show "length (slice items lo hi) \<le> length items" by (simp add: slice_def)
  show "slice (orEmpty (if xs = [] then None else Some items)) lo hi = slice items lo hi" if found
    using assms(2) by (auto simp: orEmpty_def slice_def)
qed

lemma refines_LRange:
  assumes "list_all lenOk args"
  shows "refines t (redisLRange args) (specLRange t args)"
  unfolding redisLRange_def specLRange_def Background_def
  apply (intro refines_arity refines_withInt refinesI, intro runs_onList)
  subgoal using assms by (simp add: args_lenOk)
  subgoal premises prems for start stop A xs e items
  proof -
    let ?r = "if xs = [] then None else Some items"
    obtain lo hi found where r: "redisNormalizeRange (int (length (orEmpty ?r))) start stop = (lo, hi, found)"
      by (metis prod_cases3)
    note ri = range_items [OF r]
    show ?thesis
      unfolding r prod.case
      using ri(1) ri(2) prems redisListReply_eq
      by (cases found) (auto intro!: runs_ret runs_then [OF runs_Now] runs_then [OF runs_basic(3)])
  qed
  by simp_all

lemma refines_LTrim:
  assumes "list_all lenOk args"
  shows "refines t (redisLTrim args) (specLTrim t args)"
  unfolding redisLTrim_def specLTrim_def Background_def
  apply (intro refines_arity refines_withInt refinesI, intro runs_onList)
  subgoal using assms by (simp add: args_lenOk)
  subgoal premises prems for start stop A xs e items
  proof -
    let ?r = "if xs = [] then None else Some items" and ?A = "purge t (args ! 1) A"
    have k: "lenOk (args ! 1)" using prems(1) assms by (simp add: args_lenOk)
    have at: "asList (?A (args ! 1)) = Some (xs, e)" using prems by simp
    obtain lo hi found where r: "redisNormalizeRange (int (length (orEmpty ?r))) start stop = (lo, hi, found)"
      by (metis prod_cases3)
    note ri = range_items [OF r \<open>itemsAre items xs\<close>]
    show ?thesis
    proof (cases found)
      case True
      have "listOk (slice (orEmpty ?r) lo hi)" using ri(3-5) True prems listOk_sub by auto
      note put = runs_writeList [of "args ! 1" ?A, OF k at ri(2) this]
      show ?thesis
        unfolding r prod.case eqTrueI [OF True] bool.case ri(1) if_True fst_conv snd_conv
        by (rule runs_then [OF put]) (simp add: runs_ret)
    next
      case False
      show ?thesis
        unfolding r prod.case iffD2 [OF eq_False False] bool.case ri(1) if_False fst_conv snd_conv
        by (rule runs_then [OF runs_DeleteRaw [OF k]]) (simp add: runs_ret listObj_def)
    qed
  qed
  by simp_all

lemma runs_pushBody:
  fixes left :: bool
  assumes k: "lenOk key" and ok: "keyOk t (A key)" and at: "asList (A key) = Some (xs, e)" and items: "itemsAre items xs" "listOk items"
    and vs: "list_all itemOk vs" "length xs + length vs < 2 ^ 32" "vs \<noteq> []"
  defines "ys \<equiv> (if left then rev vs @ xs else xs @ vs)"
  shows "runs t (replyE (bindE (liftR (encodeValues vs)) (\<lambda>encoded.
      let its = (if left then rev encoded @ orEmpty (if xs = [] then None else Some items)
                 else orEmpty (if xs = [] then None else Some items) @ encoded) in
      bindE (redisWriteList None key its) (\<lambda>_.
      bindE (if (if xs = [] then None else Some items) = None
             then ignoreE (dbProtocol_Delete None (dbProtocol_CollectionTTLKey key)) else ret ()) (\<lambda>_.
        ret (respIntegerValue (int (length its)))))))) A
    (Ok (respIntegerValue (int (length ys)))) (A(key \<mapsto> (RList ys, e)))"
proof -
  obtain enc where enc: "encodeValues vs = Ok enc" "itemsAre enc vs" "\<forall>i \<in> set enc. length i < 2 ^ 32"
    using encodeValues_eq [OF vs(1)] by blast
  let ?r = "if xs = [] then None else Some items"
  define its where "its = (if left then rev enc @ orEmpty ?r else orEmpty ?r @ enc)"
  have old: "itemsAre (orEmpty ?r) xs" "set (orEmpty ?r) \<subseteq> set items" "length (orEmpty ?r) = length xs"
    using items(1) by (auto simp: orEmpty_def list_all2_lengthD)
  have its: "itemsAre its ys"
    using old(1) enc(2) by (auto simp: its_def ys_def list_all2_appendI)
  then have len: "length its = length ys" by (rule list_all2_lengthD)
  have "listOk its"
    using old(2) enc(3) items(2) len vs(2) by (auto simp: listOk_def its_def ys_def)
  note put = runs_writeList [of key A, OF k at its this]
  have ys: "listObj ys e = Some (RList ys, e)" using vs(3) by (auto simp: listObj_def ys_def)
  have ttl: "runs t (if ?r = None then ignoreE (dbProtocol_Delete None (dbProtocol_CollectionTTLKey key)) else ret ())
      (A(key \<mapsto> (RList ys, e))) (Ok ()) (A(key \<mapsto> (RList ys, e)))"
  proof (cases "xs = []")
    case True
    have "e = 0" using at by (cases rule: asList_SomeE) (use True ok in \<open>auto simp: keyOk_def\<close>)
    then show ?thesis using True runs_dropTTL [OF k, of "A(key \<mapsto> (RList ys, e))" t] by simp
  qed (simp add: runs_basic)
  show ?thesis
    unfolding enc
    apply (rule runs_then [OF runs_basic(3)])
    unfolding Let_def its_def [symmetric]
    apply (rule runs_then [OF put [unfolded ys]])
    apply (rule runs_then [OF ttl])
    by (simp add: len runs_ret)
qed

lemma runs_push:
  assumes "list_all lenOk args" "roomFor args A" "3 \<le> length args"
  shows "runs t (redisPushValues (args ! 1) (drop 2 args) left onlyIf) A
    (Ok (fst (specPush t args left onlyIf A))) (snd (specPush t args left onlyIf A))"
proof -
  let ?k = "args ! 1" and ?al = "alive t (A (args ! 1))"
  let ?A = "purge t ?k A"
  have k: "lenOk ?k" using assms by (simp add: args_lenOk)
  have vs: "list_all itemOk (drop 2 args)" "drop 2 args \<noteq> []"
    using assms by (auto simp: roomFor_def list_all_iff dest: in_set_dropD)
  have room: "length xs + length (drop 2 args) < 2 ^ 32" if "asList ?al = Some (xs, e)" for xs e
    using that
  proof (cases rule: asList_SomeE)
    case 2
    then have "length xs + length args < 2 ^ 32" using assms(2) by (auto simp: roomFor_def alive_Some_iff)
    then show ?thesis by simp
  qed (use assms(2) in \<open>auto simp: roomFor_def\<close>)
  have spec: "specPush t args left onlyIf A = onList t ?k ?A (\<lambda>xs e A'. if onlyIf \<and> xs = [] then (respIntegerValue 0, A')
      else let ys = (if left then rev (drop 2 args) @ xs else xs @ drop 2 args) in
        (respIntegerValue (int (length ys)), A'(?k \<mapsto> (RList ys, e))))"
    using assms(3) by (simp add: specPush_def arity_def onList_def onKey_eq)
  show ?thesis
    unfolding redisPushValues_def Background_def spec
    apply (rule runs_replyBind [OF runs_redisType [OF k]])
    subgoal premises prems for x
    proof -
      have x: "x = typeName ?al" using prems by simp
      show ?thesis
      proof (cases "asList ?al")
        case None
        then show ?thesis using asList_None_iff [of ?al] x by (auto simp: onList_def onKey_eq intro!: runs_ret)
      next
        case (Some y)
        then have c: "\<not> (x \<noteq> redisTypeNone \<and> x \<noteq> redisTypeList)" using asList_None_iff [of ?al] x by auto
        show ?thesis
        proof (cases "onlyIf \<and> ?al = None")
          case True
          then show ?thesis by (auto simp: x onList_def onKey_eq asList_def alive_def [of t None] intro!: runs_ret)
        next
          case False
          then have d: "\<not> (onlyIf \<and> x = redisTypeNone)" by (simp add: x)
          show ?thesis
            unfolding if_not_P [OF c] if_not_P [OF d]
            apply (rule runs_onList [OF k])
            subgoal premises p for xs e items
            proof (cases "onlyIf \<and> xs = []")
              case True
              then show ?thesis by (simp add: runs_ret)
            next
              case False
              then have f: "\<not> (onlyIf \<and> (if xs = [] then None else Some items) = None)" by simp
              note body = runs_pushBody [of ?k t ?A xs e items "drop 2 args" left]
              show ?thesis
                unfolding if_not_P [OF f] if_not_P [OF False] Let_def fst_conv snd_conv purge_purge
                using body [unfolded Let_def] k p room vs by simp
            qed
            done
        qed
      qed
    qed
    by simp_all
qed

lemma refines_Push:
  assumes "list_all lenOk args" "roomFor args A"
  shows "runs t (redisPush args left) A (Ok (fst (specPush t args left False A))) (snd (specPush t args left False A))"
    "runs t (redisPushX args left) A (Ok (fst (specPush t args left True A))) (snd (specPush t args left True A))"
proof -
  have short: "specPush t args left onlyIf A = (redisSyntaxError, A)" if "length args < 3" for onlyIf
    using that by (simp add: specPush_def arity_def)
  show "runs t (redisPush args left) A (Ok (fst (specPush t args left False A))) (snd (specPush t args left False A))"
    "runs t (redisPushX args left) A (Ok (fst (specPush t args left True A))) (snd (specPush t args left True A))"
    using runs_push [OF assms] by (auto simp: redisPush_def redisPushX_def short not_less runs_basic)
qed

text \<open>Taking \<open>n\<close> items from one end of a list that has some.\<close>

lemma runs_popBody:
  fixes left many :: bool
  assumes k: "lenOk key" and at: "A key = Some (RList xs, e)" and items: "itemsAre items xs" "listOk items"
    and n: "0 < n" "\<not> many \<Longrightarrow> n = 1" and ne: "xs \<noteq> []"
  defines "m \<equiv> nat (min n (int (length xs)))"
  defines "splt \<equiv> (if left then (take m xs, drop m xs) else (drop (length xs - m) xs, take (length xs - m) xs))"
  shows "runs t (replyE (let count = (if n > int (length items) then length items else nat n);
      removed = (if left then take count items else drop (length items - count) items);
      kept = (if left then drop count items else take (length items - count) items)
    in bindE (redisWriteList None key kept) (\<lambda>_. bindE dbProtocol_Now (\<lambda>t.
         if many then bindE (liftR (redisListReply removed t)) (\<lambda>replies. ret (respArrayValues replies))
         else bindE (liftR (redisItemPayload (hd removed) t)) (\<lambda>p. ret (bulkOrNil p)))))) A
    (Ok (if many then respArrayValues (map respBulkBytes (fst splt)) else respBulkBytes (hd (fst splt))))
    (A(key := listObj (snd splt) e))"
proof -
  have len: "length items = length xs" using items(1) by (rule list_all2_lengthD)
  have m: "(if n > int (length items) then length items else nat n) = m" using n(1) by (simp add: m_def len)
  define removed where "removed = (if left then take m items else drop (length items - m) items)"
  define kept where "kept = (if left then drop m items else take (length items - m) items)"
  have rem: "itemsAre removed (fst splt)" and kpt: "itemsAre kept (snd splt)"
    using items(1) by (auto simp: removed_def kept_def splt_def len list_all2_takeI list_all2_dropI)
  have "set kept \<subseteq> set items" "length kept \<le> length items"
    by (auto simp: kept_def dest: in_set_takeD in_set_dropD)
  then have ok: "listOk kept" using listOk_sub items(2) by blast
  have m0: "0 < m" "m \<le> length xs" using n(1) ne by (auto simp: m_def)
  then have "fst splt \<noteq> []" using ne by (auto simp: splt_def)
  then obtain y ys where y: "fst splt = y # ys" by (cases "fst splt") auto
  with rem obtain i rs where i: "removed = i # rs" "recordIs i y 0" by (auto simp: list_all2_Cons2)
  have "asList (A key) = Some (xs, e)" using at by (simp add: asList_def)
  note put = runs_writeList [of key A, OF k this kpt ok]
  show ?thesis
    unfolding Let_def m removed_def [symmetric] kept_def [symmetric]
    apply (rule runs_then [OF put])
    apply (rule runs_then [OF runs_Now])
    using i y redisListReply_eq [OF rem]
    by (auto simp: item_payload bulkValue_def intro!: runs_then [OF runs_basic(3)] runs_ret)
qed

lemma refines_Pop:
  assumes "list_all lenOk args"
  shows "refines t (redisPop args left) (specPop t args left)"
  unfolding redisPop_def specPop_def Background_def
  apply (intro refines_arity refinesI, intro runs_onList)
  subgoal using assms by (auto simp: args_lenOk)
  subgoal premises prems for A xs e items
  proof -
    let ?A = "purge t (args ! 1) A"
    have k: "lenOk (args ! 1)" using prems(1) assms by (auto simp: args_lenOk)
    show ?thesis
    proof (cases "xs = []")
      case True
      then show ?thesis by (simp add: runs_ret)
    next
      case False
      then have at: "?A (args ! 1) = Some (RList xs, e)" using prems(3) by (auto elim: asList_SomeE)
      note body = runs_popBody [where A = ?A and key = "args ! 1" and many = "length args = 3" and left = left and t = t, OF k at prems(4,5) _ _ False]
      consider "length args = 2" | er where "length args = 3" "ParseInt 64 (args ! 2) = Inl er"
        | n where "length args = 3" "ParseInt 64 (args ! 2) = Inr n" using prems(1) by (cases "ParseInt 64 (args ! 2)") auto
      then show ?thesis
      proof cases
        case 1
        then have c: "\<not> (length args = 3 \<and> (1::int) = 0)" "\<not> length args = 3" by simp_all
        have m: "nat (min 1 (int (length xs))) = Suc 0" using False by (cases xs) auto
        show ?thesis
          unfolding if_not_P [OF False] option.case popCount_eq(1) [OF 1] if_P [OF 1] fst_conv snd_conv
          apply (rule runs_then [OF runs_basic(3)])
          unfolding if_not_P [OF c(1)]
          apply (rule runs_eq [OF body])
          using c(2) False by (auto simp: m take_Suc last_drop hd_drop_conv_nth last_conv_nth drop_Suc butlast_conv_take)
      next
        case 2
        then show ?thesis
          using False popCount_eq(2) [OF 2(1)]
          by (auto simp: notInteger_def errNotInteger_def intro!: runs_replyBind [OF runs_basic(3)])
      next
        case (3 n)
        then have c2: "\<not> length args = 2" by simp
        consider "n < 0" | "n = 0" | "0 < n" by linarith
        then show ?thesis
        proof cases
          case 1
          then show ?thesis
            using False 3 popCount_eq(2) [OF 3(1)]
            by (auto simp: notInteger_def errNotInteger_def intro!: runs_replyBind [OF runs_basic(3)])
        next
          case 2
          have "?A(args ! 1 := listObj xs e) = ?A" using at False by (auto simp: listObj_def)
          then show ?thesis
            using False 3 2 popCount_eq(2) [OF 3(1)]
            by (auto simp: Let_def intro!: runs_then [OF runs_basic(3)] runs_ret)
        next
          case pos: 3
          then have c: "\<not> (length args = 3 \<and> n = 0)" "\<not> n < 0" by simp_all
          have pc: "popCount args = Ok n" using popCount_eq(2) [OF 3(1)] 3 c by simp
          show ?thesis
            unfolding if_not_P [OF False] option.case pc if_not_P [OF c2] 3(2) sum.case if_not_P [OF c(2)]
            apply (rule runs_then [OF runs_basic(3)])
            unfolding if_not_P [OF c(1)]
            apply (rule runs_eq [OF body])
            using pos 3(1) by (simp_all add: Let_def)
        qed
      qed
    qed
  qed
  by auto

end

end
