(* ===== verification/RedisSpec.thy ===== *)
theory RedisSpec
  imports KeyspaceLists
begin

text \<open>
  The Redis command set as a whole against its specification: one table of specifications for the
  commands of \<open>redisDispatch\<close>, and sequences of requests from an empty store.
\<close>

definition specCommands ::
  "redisHost \<Rightarrow> time \<Rightarrow> bytes list \<Rightarrow> (bytes \<times> spec option) list" where
  "specCommands host t args = [
       (''GET'', Some (specGet t args)), (''SET'', Some (specSet t host args)), (''SETNX'', Some (specSetNX t args)),
       (''SETEX'', Some (specSetEX t args nanosPerSecond)), (''PSETEX'', Some (specSetEX t args nanosPerMillisecond)),
       (''GETSET'', Some (specGetSet t args)), (''GETDEL'', Some (specGetDel t args)),
       (''GETEX'', Some (specGetEx t host args)), (''MGET'', Some (specMGet t args)), (''MSET'', Some (specMSet args)),
       (''MSETNX'', Some (specMSetNX t args)), (''STRLEN'', Some (specStrLen t args)),
       (''APPEND'', Some (specAppend t args)), (''INCR'', Some (specIncr t args 1)),
       (''INCRBY'', Some (specIncrByCommand t args False)),
       (''DECR'', Some (specIncr t args (-1))),
       (''DECRBY'', Some (specIncrByCommand t args True)),
       (''DEL'', Some (specDel args)), (''UNLINK'', Some (specDel args)),
       (''EXISTS'', Some (specExists t args)), (''TYPE'', Some (specType t args)),
       (''EXPIRE'', Some (specExpire t args nanosPerSecond False)),
       (''PEXPIRE'', Some (specExpire t args nanosPerMillisecond False)),
       (''EXPIREAT'', Some (specExpire t args nanosPerSecond True)),
       (''PEXPIREAT'', Some (specExpire t args nanosPerMillisecond True)),
       (''TTL'', Some (specTTL t args nanosPerSecond)), (''PTTL'', Some (specTTL t args nanosPerMillisecond)),
       (''PERSIST'', Some (specPersist t args)),
       (''HSET'', Some (specHSet t args)), (''HMSET'', Some (specHSet t args)), (''HGET'', Some (specHGet t args)),
       (''HMGET'', Some (specHMGet t args)), (''HGETALL'', Some (specHGetAll t args)), (''HDEL'', Some (specHDel t args)),
       (''HEXISTS'', Some (specHExists t args)), (''HLEN'', Some (specHLen t args)), (''HKEYS'', Some (specHKeys t args)),
       (''HVALS'', Some (specHVals t args)), (''HINCRBY'', Some (specHIncrBy t args)),
       (''SADD'', Some (specSAdd t args)), (''SREM'', Some (specSRem t args)),
       (''SISMEMBER'', Some (specSIsMember t args)), (''SMISMEMBER'', Some (specSMIsMember t args)),
       (''SMEMBERS'', Some (specSMembers t args)), (''SCARD'', Some (specSCard t args)),
       (''LPUSH'', Some (specPush t args True False)), (''RPUSH'', Some (specPush t args False False)),
       (''LPUSHX'', Some (specPush t args True True)), (''RPUSHX'', Some (specPush t args False True)),
       (''LRANGE'', Some (specLRange t args)), (''LLEN'', Some (specLLen t args)),
       (''LPOP'', Some (specPop t args True)), (''RPOP'', Some (specPop t args False)),
       (''LTRIM'', Some (specLTrim t args)), (''SCAN'', None),
       (''KEYS'', Some (specKeys t args)), (''DBSIZE'', Some (specDBSize t args)),
       (''FLUSHDB'', Some (specFlush args)), (''FLUSHALL'', Some (specFlush args)), (''TIME'', Some (specTime t))]"

definition specCommand :: "redisHost \<Rightarrow> time \<Rightarrow> bytes list \<Rightarrow> spec option" where
  "specCommand host t args = (case args of [] \<Rightarrow> None
     | name # _ \<Rightarrow> Option.bind (map_of (specCommands host t args) (ToUpper (host_upper host) name)) id)"

lemma map_of_rel:
  assumes "list_all2 (\<lambda>x y. fst x = fst y \<and> (key = fst x \<longrightarrow> R (snd x) (snd y))) xs ys" "map_of xs key = Some m"
  shows "\<exists>s. map_of ys key = Some s \<and> R m s"
  using assms by (induction xs ys rule: list_all2_induct) (auto split: if_splits)

context local_engine
begin

lemma commands_refine:
  assumes args: "list_all lenOk args" "roomFor args A" and host: "mapOrderOk host"
    and m: "dataCommand host command args = Some m" and s: "Option.bind (map_of (specCommands host t args) command) id = Some s"
  shows "runs t m A (Ok (fst (s A))) (snd (s A))"
proof -
  let ?R = "\<lambda>m s. \<forall>s'. s = Some s' \<longrightarrow> runs t m A (Ok (fst (s' A))) (snd (s' A))"
  note strings = refines_Get refines_Set refines_SetNX refines_GetSet refines_GetDel refines_GetEx
    refines_MGet refines_MSet refines_MSetNX refines_StrLen refines_Append refines_Incr refines_Del refines_Exists
    refines_Type refines_Persist
  note objects = refines_HSet refines_HGet refines_HMGet refines_HGetAll refines_HDel refines_HIncrBy
    refines_SAdd refines_SRem refines_SIsMember refines_SMIsMember refines_SMembers refines_LRange refines_LLen refines_Pop refines_LTrim
  note facts = strings [OF args(1), THEN refines_at] objects [OF args(1), THEN refines_at] refines_Push [OF args]
    refines_Keys [OF host, THEN refines_at] refines_Flush [THEN refines_at] refines_Time [THEN refines_at]
    refines_SetEX [OF args(1), of t True, THEN refines_at, unfolded if_True]
    refines_SetEX [OF args(1), of t False, THEN refines_at, unfolded if_False]
  note expiry = refines_Expire [OF args(1), of t "''EXPIRE''", THEN refines_at, of A]
    refines_Expire [OF args(1), of t "''PEXPIRE''", THEN refines_at, of A]
    refines_Expire [OF args(1), of t "''EXPIREAT''", THEN refines_at, of A]
    refines_Expire [OF args(1), of t "''PEXPIREAT''", THEN refines_at, of A]
    refines_TTL [OF args(1), of t "''TTL''", THEN refines_at, of A]
    refines_TTL [OF args(1), of t "''PTTL''", THEN refines_at, of A]
  note expiry = expiry [simplified HasPrefix_def HasSuffix_def, simplified]
  have "list_all2 (\<lambda>x y. fst x = fst y \<and> (command = fst x \<longrightarrow> ?R (snd x) (snd y)))
      (dataCommands host command args) (specCommands host t args)"
    unfolding dataCommands_def specCommands_def
    by (simp only: list_all2_Cons list_all2_Nil fst_conv snd_conv option.inject simp_thms facts)
      (auto simp: expiry)
  from map_of_rel [OF this m [unfolded dataCommand_def]] s show ?thesis by auto
qed

end

section \<open>Sequences of requests\<close>

text \<open>Requests that reach the server one after the other, each at the time of its processing.\<close>

type_synonym timedRequest = "time \<times> bytes list"

primrec dispatchAll ::
  "redisHost \<Rightarrow> bytes \<Rightarrow> timedRequest list \<Rightarrow> (memoryDriverEngine, 'v) serverState \<Rightarrow> (respValue \<times> bool) res list" where
  "dispatchAll host password [] st = []"
| "dispatchAll host password (req # reqs) st =
     (case redisDispatch host (snd req) password (st\<lparr>srv_db := atTime (fst req) (srv_db st)\<rparr>) of
        (Ok r, st') \<Rightarrow> Ok r # dispatchAll host password reqs st'
      | (r, _) \<Rightarrow> [r])"

primrec specAll :: "redisHost \<Rightarrow> timedRequest list \<Rightarrow> keyspace \<Rightarrow> respValue list" where
  "specAll host [] A = []"
| "specAll host (req # reqs) A = (case specCommand host (fst req) (snd req) of
      Some s \<Rightarrow> fst (s A) # specAll host reqs (snd (s A))
    | None \<Rightarrow> [])"

text \<open>
  Data commands at representable times, with keys and values that the storage format can hold.
\<close>

primrec admissible :: "redisHost \<Rightarrow> timedRequest list \<Rightarrow> keyspace \<Rightarrow> bool" where
  "admissible host [] A \<longleftrightarrow> True"
| "admissible host (req # reqs) A \<longleftrightarrow> 0 \<le> fst req \<and> isInt64 (fst req) \<and> list_all lenOk (snd req) \<and> roomFor (snd req) A \<and>
     (case specCommand host (fst req) (snd req) of Some s \<Rightarrow> admissible host reqs (snd (s A)) | None \<Rightarrow> False)"

lemma specNames:
  "map fst (specCommands host t args) = map fst (dataCommands host command args)"
  by (simp add: specCommands_def dataCommands_def)

lemma spec_not_session:
  assumes "map_of (specCommands host t args) command \<noteq> None"
  shows "command \<noteq> ''HELLO''" "command \<noteq> ''AUTH''" "command \<noteq> ''QUIT''" "sessionCommand host command args' session = None"
    "\<exists>m. dataCommand host command args = Some m"
proof -
  let ?own = "[''AUTH'', ''QUIT'', ''PING'', ''ECHO'', ''HELLO'', ''SELECT'', ''CLIENT'', ''COMMAND'', ''ROLE'', ''READONLY'',
    ''READWRITE'', ''CONFIG'', ''INFO'']"
  have c: "command \<in> set (map fst (specCommands host t args))"
    using assms by (metis map_of_eq_None_iff set_map)
  have "list_all (\<lambda>c. c \<notin> set ?own) (map fst (specCommands host t args))"
    unfolding specCommands_def by simp
  with c have own: "command \<notin> set ?own" unfolding list_all_iff by blast
  then show "command \<noteq> ''HELLO''" "command \<noteq> ''AUTH''" "command \<noteq> ''QUIT''" by auto
  show "sessionCommand host command args' session = None"
    unfolding sessionCommand_def map_of_eq_None_iff using own by auto
  have "map_of (dataCommands host command args) command \<noteq> None"
    unfolding map_of_eq_None_iff set_map [symmetric] specNames [symmetric, of host command args t] using c by simp
  then show "\<exists>m. dataCommand host command args = Some m" by (auto simp: dataCommand_def)
qed

lemma dispatch_refines:
  assumes "mapOrderOk host" "password = [] \<or> rs_authed (srv_session st)"
    "memOpen (srv_db st)" "rep A (storeView (srv_db st))" "0 \<le> t" "isInt64 t"
    "list_all lenOk args" "roomFor args A" "specCommand host t args = Some s"
  shows "\<exists>db'. redisDispatch host args password (st\<lparr>srv_db := atTime t (srv_db st)\<rparr>) = (Ok (fst (s A), False), st\<lparr>srv_db := db'\<rparr>)
    \<and> memOpen db' \<and> rep (snd (s A)) (storeView db')"
proof -
  obtain name rest where a: "args = name # rest" using assms(9) by (cases args) (auto simp: specCommand_def)
  let ?c = "ToUpper (host_upper host) name" and ?st = "st\<lparr>srv_db := atTime t (srv_db st)\<rparr>"
  have b: "Option.bind (map_of (specCommands host t args) ?c) id = Some s" using assms(9) a by (simp add: specCommand_def)
  then have "map_of (specCommands host t args) ?c \<noteq> None" by (cases "map_of (specCommands host t args) ?c") simp_all
  note cmd = spec_not_session [OF this]
  obtain m :: "((memoryDriverEngine, 'a) DB, respValue) op" where m: "dataCommand host ?c args = Some m"
    using cmd(5) by blast
  have h: "mem.holds t A (atTime t (srv_db st))"
    using assms(3-6) by (simp add: mem.holds_def memOpen_dbOk storeView_dbView)
  from mem.runsE [OF mem.commands_refine [OF assms(7,8,1) m b] h]
  obtain db' where r: "m (atTime t (srv_db st)) = (Ok (fst (s A)), db')" "mem.holds t (snd (s A)) db'" .
  have "redisDispatch host args password ?st = (Ok (fst (s A), False), ?st\<lparr>srv_db := db'\<rparr>)"
    using assms(2) r(1) m cmd(3,4) unfolding a dispatch_other [OF cmd(1,2)]
    by (auto simp: bindE_def onDB_def ret_def)
  with r(2) show ?thesis by (auto simp: mem.holds_def memOpen_dbOk storeView_dbView)
qed

lemma dispatchAll_refines:
  assumes "mapOrderOk host" "password = [] \<or> rs_authed (srv_session st)"
    "memOpen (srv_db st)" "rep A (storeView (srv_db st))" "admissible host reqs A"
  shows "dispatchAll host password reqs st = map (\<lambda>r. Ok (r, False)) (specAll host reqs A)"
  using assms(2-)
proof (induction reqs arbitrary: st A)
  case (Cons req reqs)
  then obtain s where s: "specCommand host (fst req) (snd req) = Some s" by (auto split: option.splits)
  obtain db' where d: "redisDispatch host (snd req) password (st\<lparr>srv_db := atTime (fst req) (srv_db st)\<rparr>)
      = (Ok (fst (s A), False), st\<lparr>srv_db := db'\<rparr>)" "memOpen db'" "rep (snd (s A)) (storeView db')"
    using dispatch_refines [OF assms(1) Cons.prems(1-3) _ _ _ _ s] Cons.prems(4) by auto
  then show ?case using Cons.IH [of "st\<lparr>srv_db := db'\<rparr>" "snd (s A)"] Cons.prems s by simp
qed simp

text \<open>
  C2. From an empty store every sequence of data commands (all of them but \<open>SCAN\<close>), each processed
  at its own time, gets the replies that the abstract key space gives: strings, hashes, sets and
  lists with their deadlines, wrong-type and syntax errors, counters, expiry and the listings of
  keys behave as their specifications say, whatever the order in which Go iterates a map. Times and
  arguments have to be representable in the storage format.
\<close>

theorem redis_refines_keyspace:
  assumes "mapOrderOk host" "memOpen (srv_db st)" "storeView (srv_db st) = Map.empty"
    "password = [] \<or> rs_authed (srv_session st)" "admissible host reqs (\<lambda>_. None)"
  shows "dispatchAll host password reqs st = map (\<lambda>r. Ok (r, False)) (specAll host reqs (\<lambda>_. None))"
proof -
  have "rep (\<lambda>_. None) (storeView (srv_db st))"
    using assms(3) by (simp add: rep_def owned_def repKey_def)
  then show ?thesis using assms by (intro dispatchAll_refines)
qed

theorem redis_refines_keyspace_witness:
  "dispatchAll \<lparr>host_upper = id, host_mapOrder = id\<rparr> []
     [(1, [''SET'', ''k'', ''7'', ''PX'', ''1'']), (2, [''INCR'', ''k'']), (3, [''SADD'', ''s'', ''b'', ''a'', ''b'']),
      (4, [''RPUSH'', ''s'', ''x'']), (2000000, [''GET'', ''k''])]
     \<lparr>srv_db = memDB [], srv_session = \<lparr>rs_authed = False, rs_id = 1, rs_proto = 2\<rparr>\<rparr>
   = [Ok (respSimpleString ''OK'', False), Ok (respIntegerValue 8, False), Ok (respIntegerValue 2, False),
      Ok (wrongTypeReply, False), Ok (respNil, False)]"
proof -
  let ?h = "\<lparr>host_upper = id, host_mapOrder = id\<rparr> :: redisHost"
  let ?reqs = "[(1, [''SET'', ''k'', ''7'', ''PX'', ''1'']), (2, [''INCR'', ''k'']), (3, [''SADD'', ''s'', ''b'', ''a'', ''b'']),
      (4, [''RPUSH'', ''s'', ''x'']), (2000000, [''GET'', ''k''])] :: timedRequest list"
  have up: "ToUpper id ''SET'' = ''SET''" "ToUpper id ''INCR'' = ''INCR''" "ToUpper id ''SADD'' = ''SADD''"
    "ToUpper id ''RPUSH'' = ''RPUSH''" "ToUpper id ''GET'' = ''GET''" "ToUpper id ''PX'' = ''PX''" by code_simp+
  have cmd: "specCommand ?h 1 [''SET'', ''k'', ''7'', ''PX'', ''1''] = Some (specSet 1 ?h [''SET'', ''k'', ''7'', ''PX'', ''1''])"
    "specCommand ?h 2 [''INCR'', ''k''] = Some (specIncr 2 [''INCR'', ''k''] 1)"
    "specCommand ?h 3 [''SADD'', ''s'', ''b'', ''a'', ''b''] = Some (specSAdd 3 [''SADD'', ''s'', ''b'', ''a'', ''b''])"
    "specCommand ?h 4 [''RPUSH'', ''s'', ''x''] = Some (specPush 4 [''RPUSH'', ''s'', ''x''] False False)"
    "specCommand ?h 2000000 [''GET'', ''k''] = Some (specGet 2000000 [''GET'', ''k''])"
    by (simp_all add: specCommand_def specCommands_def up)
  let ?A1 = "(\<lambda>_. None)(''k'' \<mapsto> (RString ''7'', 1000001)) :: keyspace"
  let ?A2 = "(\<lambda>_. None)(''k'' \<mapsto> (RString ''8'', 1000001)) :: keyspace"
  let ?A3 = "?A2(''s'' \<mapsto> (RSet {''a'', ''b''}, 0))"
  have "digitChar 8 = CHR ''8''" by code_simp
  then have num: "ParseInt 64 ''1'' = Inr 1" "bigSetString ''7'' = Some 7" "FormatInt 8 = ''8''"
    by (simp_all add: ParseInt_def bigSetString_def splitSign_def digitVal_def FormatInt_def natDigits.simps [of 8])
  note defs = arity_def onKey_eq purge_def alive_def fun_upd_def
  have s1: "specSet 1 ?h [''SET'', ''k'', ''7'', ''PX'', ''1''] (\<lambda>_. None) = (respSimpleString ''OK'', ?A1)"
    by (simp add: specSet_def defs setWord_def up num noSetOptions_def deadline_def nanosPerMillisecond_def
        int64_defs Let_def fun_eq_iff)
  have s2: "specIncr 2 [''INCR'', ''k''] 1 ?A1 = (respIntegerValue 8, ?A2)"
    by (simp add: specIncr_def specIncrBy_def defs num int64_defs Let_def fun_eq_iff)
  have s3: "specSAdd 3 [''SADD'', ''s'', ''b'', ''a'', ''b''] ?A2 = (respIntegerValue 2, ?A3)"
    by (simp add: specSAdd_def onSet_def asSet_def defs card_insert_if fun_eq_iff insert_commute)
  have s4: "specPush 4 [''RPUSH'', ''s'', ''x''] False False ?A3 = (wrongTypeReply, ?A3)"
    by (simp add: specPush_def onList_def asList_def defs fun_eq_iff)
  have s5: "fst (specGet 2000000 [''GET'', ''k''] ?A3) = respNil"
    by (simp add: specGet_def defs)
  note len = lenOk_def roomFor_def itemOk_def
  have "admissible ?h ?reqs (\<lambda>_. None)"
    by (simp add: cmd s1 s2 s3 s4 int64_defs len)
  moreover have "specAll ?h ?reqs (\<lambda>_. None)
      = [respSimpleString ''OK'', respIntegerValue 8, respIntegerValue 2, wrongTypeReply, respNil]"
    by (simp add: cmd s1 s2 s3 s4 s5)
  moreover have "mapOrderOk ?h" by (simp add: mapOrderOk_def)
  ultimately show ?thesis
    using redis_refines_keyspace [of ?h "\<lparr>srv_db = memDB [], srv_session = \<lparr>rs_authed = False, rs_id = 1, rs_proto = 2\<rparr>\<rparr>" "[]" ?reqs]
    by simp
qed

end
