(* ===== verification/RedisScan.thy ===== *)
theory RedisScan
  imports RedisSpec
begin

text \<open>
  \<open>KEYS\<close> and \<open>SCAN\<close>: what a listing leaves out, paging through the keys with cursors, and the
  overflow in the computation of a page.
\<close>

section \<open>Listings\<close>

lemma star_match: "redisPatternMatch ''*'' key \<longleftrightarrow> CHR ''/'' \<notin> set key"
  by (simp add: redisPatternMatch_def Match_star)

lemma logicalKeys_mem:
  assumes "mapOrderOk host" "memOpen db" "rep A (storeView db)" "0 \<le> t" "isInt64 t" "clockIs t db"
  shows "\<exists>db'. redisLogicalKeys host None db = (Ok (sorted_list_of_set (liveKeys t A)), db') \<and>
     memOpen db' \<and> rep (visible t A) (storeView db') \<and> clockIs t db'"
proof -
  have "mem.holds t A db" using assms by (simp add: mem.holds_def memOpen_dbOk storeView_dbView)
  from mem.runsE [OF mem.runs_redisLogicalKeys [OF assms(1)] this] show ?thesis
    by (metis mem.holds_def memOpen_dbOk storeView_dbView)
qed

lemma finite_liveKeys:
  assumes "memOpen db" "rep A (storeView db)"
  shows "finite (liveKeys t A)"
proof -
  have "mem.holds 0 A (atTime 0 db)"
    using assms by (simp add: mem.holds_def memOpen_dbOk storeView_dbView isInt64_0)
  from mem.logicalKeys_set [OF this] have "finite {key. lenOk key \<and> A key \<noteq> None}" by (metis List.finite_set)
  then show ?thesis by (rule rev_finite_subset) (auto simp: liveKeys_def alive_Some_iff)
qed

text \<open>
  C27. \<open>KEYS *\<close> lists, in byte order, exactly the live keys that contain no slash, while \<open>DBSIZE\<close>
  counts every live key: a pattern is matched as a path, and a star does not cross a slash.
\<close>

theorem keys_star_leaves_out_slashes:
  assumes "mapOrderOk host" "memOpen db" "rep A (storeView db)" "0 \<le> t" "isInt64 t"
  shows "fst (redisKeysCommand host [''KEYS'', ''*''] (atTime t db)) =
       Ok (respArrayValues (map respBulkString (sorted_list_of_set {key \<in> liveKeys t A. CHR ''/'' \<notin> set key})))
     \<and> fst (redisDBSize host [''DBSIZE''] (atTime t db)) = Ok (respIntegerValue (int (card (liveKeys t A))))"
proof -
  have fin: "finite (liveKeys t A)" by (rule finite_liveKeys [OF assms(2,3)])
  obtain db' where keys: "redisLogicalKeys host None (atTime t db) = (Ok (sorted_list_of_set (liveKeys t A)), db')"
    using logicalKeys_mem [OF assms(1), of "atTime t db" A t] assms by auto
  have "filter (redisPatternMatch ''*'') (sorted_list_of_set (liveKeys t A))
      = sorted_list_of_set {key \<in> liveKeys t A. CHR ''/'' \<notin> set key}"
    (is "?xs = _")
  proof -
    have "sorted ?xs" "distinct ?xs" by (simp_all add: sorted_wrt_filter)
    from sorted_list_of_set.idem_if_sorted_distinct [OF this] show ?thesis
      using fin by (simp add: star_match)
  qed
  then show ?thesis
    using keys fin by (simp add: redisKeysCommand_def redisDBSize_def replyE_def bindE_def ret_def)
qed

theorem keys_star_leaves_out_slashes_witness:
  "\<exists>db. fst (redisKeysCommand \<lparr>host_upper = id, host_mapOrder = id\<rparr> [''KEYS'', ''*''] (atTime 2 db)) = Ok (respArrayValues [])
     \<and> fst (redisDBSize \<lparr>host_upper = id, host_mapOrder = id\<rparr> [''DBSIZE''] (atTime 2 db)) = Ok (respIntegerValue 1)
     \<and> db = snd (redisSetNX [''SETNX'', ''a/b'', ''v''] (atTime 1 (memDB [])))"
proof -
  let ?h = "\<lparr>host_upper = id, host_mapOrder = id\<rparr> :: redisHost"
  let ?A = "(\<lambda>_. None)(''a/b'' \<mapsto> (RString ''v'', 0)) :: keyspace"
  have "rep (\<lambda>_. None) Map.empty" by (simp add: rep_def owned_def repKey_def)
  then have h: "mem.holds 1 (\<lambda>_. None) (atTime 1 (memDB []))"
    by (simp add: mem.holds_def memOpen_dbOk storeView_dbView int64_defs)
  have spec: "specSetNX 1 [''SETNX'', ''a/b'', ''v''] (\<lambda>_. None) = (respIntegerValue 1, ?A)"
    by (simp add: specSetNX_def arity_def onKey_eq alive_def purge_def fun_eq_iff)
  have "list_all lenOk [''SETNX'', ''a/b'', ''v'']" by (simp add: lenOk_def)
  from mem.runsE [OF mem.refinesD [OF mem.refines_SetNX [OF this] spec] h] obtain db where
    db: "redisSetNX [''SETNX'', ''a/b'', ''v''] (atTime 1 (memDB [])) = (Ok (respIntegerValue 1), db)" "mem.holds 1 ?A db" .
  have live: "liveKeys 2 ?A = {''a/b''}" by (auto simp: liveKeys_def alive_def lenOk_def)
  have none: "{key. key = ''a/b'' \<and> CHR ''/'' \<notin> set key} = {}" by auto
  have "mapOrderOk ?h" by (simp add: mapOrderOk_def)
  moreover have "memOpen db" "rep ?A (storeView db)" using db(2) by (simp_all add: mem.holds_def memOpen_dbOk storeView_dbView)
  ultimately show ?thesis
    using keys_star_leaves_out_slashes [of ?h db ?A 2] db(1) live none by (simp add: int64_defs)
qed

section \<open>Pages\<close>

lemma optionWords: "scanWord host ''MATCH'' = ScanMatch" "scanWord host ''COUNT'' = ScanCount"
proof -
  have "isASCII ''MATCH''" "isASCII ''COUNT''" "map upperByte ''MATCH'' = ''MATCH''" "map upperByte ''COUNT'' = ''COUNT''"
    by code_simp+
  then show "scanWord host ''MATCH'' = ScanMatch" "scanWord host ''COUNT'' = ScanCount"
    by (simp_all add: scanWord_def ToUpper_def Let_def)
qed

definition scanRequest :: "int \<Rightarrow> bytes \<Rightarrow> int \<Rightarrow> bytes list" where
  "scanRequest cursor pat count = [''SCAN'', FormatInt cursor, ''MATCH'', pat, ''COUNT'', FormatInt count]"

definition matchedKeys :: "time \<Rightarrow> bytes \<Rightarrow> keyspace \<Rightarrow> bytes list" where
  "matchedKeys t pat A = filter (redisPatternMatch pat) (sorted_list_of_set (liveKeys t A))"

lemma scan_eq:
  assumes "mapOrderOk host" "memOpen db" "rep A (storeView db)" "0 \<le> t" "isInt64 t" "clockIs t db"
    and "0 \<le> cursor" "isInt64 cursor" "0 < count" "isInt64 count"
  shows "\<exists>db'. redisScan host (scanRequest cursor pat count) db = (case scanPage cursor count (matchedKeys t pat A) of
       Ok r \<Rightarrow> Ok r | Err e \<Rightarrow> Ok (redisErrorReply (Some e)) | Panic p \<Rightarrow> Panic p, db')
     \<and> memOpen db' \<and> rep (visible t A) (storeView db') \<and> clockIs t db'"
proof -
  have num: "redisParseNonNegative (FormatInt cursor) = Ok cursor" "redisParseNonNegative (FormatInt count) = Ok count"
    using assms ParseInt_FormatInt [of 64 cursor] ParseInt_FormatInt [of 64 count]
    by (simp_all add: redisParseNonNegative_def redisParseInt_def int64_defs)
  obtain db' where "redisLogicalKeys host None db = (Ok (sorted_list_of_set (liveKeys t A)), db')"
    "memOpen db'" "rep (visible t A) (storeView db')" "clockIs t db'"
    using logicalKeys_mem [OF assms(1-6)] by blast
  then show ?thesis
    using num assms(9)
    by (auto simp: redisScan_def scanRequest_def optionWords replyE_def bindE_def liftR_def matchedKeys_def split: res.split)
qed

text \<open>
  A client that follows the cursors: it asks for the next page until the server answers with
  cursor 0, and puts the keys of the pages together. \<open>None\<close> means that it has given up.
\<close>

definition pageOf :: "respValue \<Rightarrow> (int \<times> bytes list) option" where
  "pageOf reply = (case resp_items reply of
      [next, page] \<Rightarrow> (case ParseInt 64 (resp_data next) of
          Inr c \<Rightarrow> Some (c, map resp_data (resp_items page)) | Inl _ \<Rightarrow> None)
    | _ \<Rightarrow> None)"

primrec scanClient :: "nat \<Rightarrow> redisHost \<Rightarrow> bytes \<Rightarrow> int \<Rightarrow> int \<Rightarrow> (memoryDriverEngine, 'v) DB \<Rightarrow> bytes list option" where
  "scanClient 0 host pat count cursor db = None"
| "scanClient (Suc n) host pat count cursor db =
     (case redisScan host (scanRequest cursor pat count) db of
        (Ok reply, db') \<Rightarrow> (case pageOf reply of
            Some (c, keys) \<Rightarrow> if c = 0 then Some keys else map_option ((@) keys) (scanClient n host pat count c db')
          | None \<Rightarrow> None)
      | _ \<Rightarrow> None)"

lemma scanPage_page:
  assumes "0 \<le> cursor" "0 < count" "int (length keys) + count \<le> maxInt64" "int (length keys) * respValueSize \<le> 2 ^ 48"
  shows "\<exists>reply c. scanPage cursor count keys = Ok reply \<and> pageOf reply = Some (c, take (nat count) (drop (nat cursor) keys))
     \<and> (if int (length keys) \<le> cursor + count then c = 0 else c = cursor + count)"
proof -
  let ?n = "int (length keys)"
  have digit0: "digitChar 0 = CHR ''0''" by code_simp
  have num: "ParseInt 64 (FormatInt c) = Inr c" if "0 \<le> c" "c \<le> maxInt64" for c
    using that by (intro ParseInt_FormatInt) (simp_all add: maxInt64_def)
  have bulks: "map resp_data (resp_items (respArrayValues (map respBulkString xs))) = xs" for xs
    by (simp add: respArrayValues_def respBulkString_def respBulkBytes_def comp_def)
  have page: "pageOf (respArrayValues [respBulkString (FormatInt c), respArrayValues (map respBulkString xs)]) = Some (c, xs)"
    if "0 \<le> c" "c \<le> maxInt64" for c xs
    using num [OF that] bulks [of xs] by (simp add: pageOf_def respArrayValues_def respBulkString_def respBulkBytes_def)
  show ?thesis
  proof (cases "?n \<le> cursor")
    case True
    then have "scanPage cursor count keys = Ok (respArrayValues [respBulkString (FormatInt 0), respArrayValues (map respBulkString [])])"
      using digit0 by (simp add: scanPage_def FormatInt_def natDigits.simps [of 0])
    then show ?thesis using page [of 0 "[]"] True assms by (auto simp: maxInt64_def)
  next
    case False
    then have sum: "wrap64 (cursor + count) = cursor + count"
      using assms by (intro wrap64_id) (simp add: int64_defs)
    define stop where "stop = (if cursor + count > ?n then ?n else cursor + count)"
    have st: "cursor < stop" "stop \<le> ?n" using False assms by (auto simp: stop_def)
    have cap: "wrap64 (stop - cursor) = stop - cursor" using st assms by (intro wrap64_id) (simp add: int64_defs)
    have "(stop - cursor) * respValueSize \<le> ?n * respValueSize"
      using st assms(1) by (intro mult_right_mono) (simp_all add: respValueSize_def)
    then have ok: "makeCapOk respValueSize (stop - cursor)" using st assms(4) by (simp add: makeCapOk_def)
    have "slice keys cursor (stop - 1) = take (nat count) (drop (nat cursor) keys)"
      using st assms False by (auto simp: slice_def stop_def)
    then have "scanPage cursor count keys = Ok (respArrayValues [respBulkString (FormatInt (if stop < ?n then stop else 0)),
        respArrayValues (map respBulkString (take (nat count) (drop (nat cursor) keys)))])"
      using False ok st unfolding scanPage_def Let_def sum stop_def [symmetric] cap by simp
    moreover have "0 \<le> (if stop < ?n then stop else 0)" "(if stop < ?n then stop else 0) \<le> maxInt64"
      using st assms by (auto simp: maxInt64_def)
    ultimately show ?thesis
      using page [of "if stop < ?n then stop else 0"] by (auto simp: stop_def)
  qed
qed

lemma scanClient_drop:
  assumes "mapOrderOk host" "memOpen db" "rep A (storeView db)" "0 \<le> t" "isInt64 t" "clockIs t db"
    and "0 \<le> cursor" "cursor \<le> maxInt64" "0 < count" "int (length (matchedKeys t pat A)) + count \<le> maxInt64"
    "int (length (matchedKeys t pat A)) * respValueSize \<le> 2 ^ 48" "length (matchedKeys t pat A) - nat cursor < n"
  shows "scanClient n host pat count cursor db = Some (drop (nat cursor) (matchedKeys t pat A))"
  using assms(2,3,6-)
proof (induction n arbitrary: db A cursor)
  case (Suc n)
  let ?ks = "matchedKeys t pat A"
  obtain reply c where p: "scanPage cursor count ?ks = Ok reply" "pageOf reply = Some (c, take (nat count) (drop (nat cursor) ?ks))"
    "if int (length ?ks) \<le> cursor + count then c = 0 else c = cursor + count"
    using scanPage_page [of cursor count ?ks] Suc.prems assms by blast
  have i64: "isInt64 cursor" "isInt64 count" using Suc.prems assms by (simp_all add: int64_defs)
  obtain db' where d: "redisScan host (scanRequest cursor pat count) db = (Ok reply, db')" "memOpen db'"
    "rep (visible t A) (storeView db')" "clockIs t db'"
    using scan_eq [OF assms(1) Suc.prems(1,2) assms(4,5) Suc.prems(3,4) i64(1) Suc.prems(6) i64(2), of pat] p(1) by auto
  have same: "matchedKeys t pat (visible t A) = ?ks" by (simp add: matchedKeys_def liveKeys_def visible_def)
  show ?case
  proof (cases "int (length ?ks) \<le> cursor + count")
    case True
    then have "take (nat count) (drop (nat cursor) ?ks) = drop (nat cursor) ?ks" using Suc.prems by (intro take_all) simp
    then show ?thesis using d p True by simp
  next
    case False
    then have c: "c = cursor + count" "c \<noteq> 0" "0 \<le> c" "c \<le> maxInt64" using p(3) Suc.prems by auto
    have "length ?ks - nat c < n" using Suc.prems False c by linarith
    then have "scanClient n host pat count c db' = Some (drop (nat c) ?ks)"
      using Suc.IH [OF d(2-4) c(3,4)] Suc.prems c same by simp
    moreover have "take (nat count) (drop (nat cursor) ?ks) @ drop (nat c) ?ks = drop (nat cursor) ?ks"
      using Suc.prems c(1) by (metis add.commute append_take_drop_id drop_drop nat_add_distrib less_imp_le)
    ultimately show ?thesis using d p c by simp
  qed
qed simp

text \<open>A database with two keys, for concrete instances.\<close>

definition twoKeys :: "(memoryDriverEngine, unit) DB" where
  "twoKeys = snd (redisMSet [''MSET'', ''a'', ''1'', ''b'', ''2''] (atTime 1 (memDB [])))"

lemma twoKeys_ok:
  defines "A \<equiv> (\<lambda>_. None)(''a'' \<mapsto> (RString ''1'', 0), ''b'' \<mapsto> (RString ''2'', 0)) :: keyspace"
  shows "memOpen twoKeys" "rep A (storeView twoKeys)" "matchedKeys 2 ''*'' A = [''a'', ''b'']"
proof -
  let ?args = "[''MSET'', ''a'', ''1'', ''b'', ''2'']"
  have "rep (\<lambda>_. None) Map.empty" by (simp add: rep_def owned_def repKey_def)
  then have h: "mem.holds 1 (\<lambda>_. None) (atTime 1 (memDB []))"
    by (simp add: mem.holds_def memOpen_dbOk storeView_dbView int64_defs)
  have spec: "specMSet ?args (\<lambda>_. None) = (respSimpleString ''OK'', A)"
    by (simp add: specMSet_def arity_def A_def)
  have "list_all lenOk ?args" by (simp add: lenOk_def)
  from mem.runsE [OF mem.refinesD [OF mem.refines_MSet [OF this] spec] h] obtain db where
    "redisMSet ?args (atTime 1 (memDB [])) = (Ok (respSimpleString ''OK''), db)" "mem.holds 1 A db" .
  then have "mem.holds 1 A twoKeys" by (simp add: twoKeys_def)
  then show "memOpen twoKeys" "rep A (storeView twoKeys)"
    by (simp_all add: mem.holds_def memOpen_dbOk storeView_dbView)
  have "liveKeys 2 A = {''a'', ''b''}" by (auto simp: A_def liveKeys_def alive_def lenOk_def split: if_splits)
  then show "matchedKeys 2 ''*'' A = [''a'', ''b'']"
    by (simp add: matchedKeys_def star_match)
qed

text \<open>
  C26. Paging through an unchanged database with \<open>SCAN\<close> ends and is complete: whatever positive page
  size a client asks for, following the cursors from 0 it gets every live key that matches its
  pattern exactly once and in byte order, and it needs at most one page more than there are such
  keys. The page size has to leave room for the cursor in 64 bits.
\<close>

theorem scan_client_complete:
  assumes "mapOrderOk host" "memOpen db" "rep A (storeView db)" "0 \<le> t" "isInt64 t"
    and "0 < count" "int (length (matchedKeys t pat A)) + count \<le> maxInt64"
    "int (length (matchedKeys t pat A)) * respValueSize \<le> 2 ^ 48"
  shows "scanClient (Suc (length (matchedKeys t pat A))) host pat count 0 (atTime t db) = Some (matchedKeys t pat A)"
  using scanClient_drop [OF assms(1), of "atTime t db" A t 0 count pat] assms
  by (simp add: maxInt64_def del: scanClient.simps)

theorem scan_client_complete_witness:
  "scanClient 3 \<lparr>host_upper = id, host_mapOrder = id\<rparr> ''*'' 1 0 (atTime 2 twoKeys) = Some [''a'', ''b'']"
proof -
  let ?h = "\<lparr>host_upper = id, host_mapOrder = id\<rparr> :: redisHost"
  have "mapOrderOk ?h" by (simp add: mapOrderOk_def)
  from scan_client_complete [OF this twoKeys_ok(1,2), of 2 1 "''*''"] show ?thesis
    unfolding twoKeys_ok(3) by (simp add: int64_defs respValueSize_def eval_nat_numeral del: scanClient.simps)
qed

lemma scanPage_overflow:
  assumes "0 < cursor" "cursor < int (length keys)" "maxInt64 - cursor < count" "count \<le> maxInt64" "cursor \<le> maxInt64"
  shows "\<exists>p. scanPage cursor count keys = Panic p"
proof -
  have "wrap64 (cursor + count) = cursor + count - 2 ^ 64"
  proof -
    have "(cursor + count + 2 ^ 63) mod 2 ^ 64 = (cursor + count + 2 ^ 63 - 2 ^ 64) mod (2 ^ 64 :: int)"
      by (rule minus_mod_self2 [symmetric])
    also have "\<dots> = cursor + count + 2 ^ 63 - 2 ^ 64"
      using assms by (intro mod_pos_pos_trivial) (simp_all add: maxInt64_def)
    finally show ?thesis by (simp add: wrap64_def)
  qed
  then have "wrap64 (cursor + count) < 0" using assms by (simp add: maxInt64_def)
  then show ?thesis using assms(1,2) by (auto simp: scanPage_def Let_def)
qed

text \<open>
  C28. The end of a page is computed as \<open>cursor + count\<close> in 64 bits without a check: a request with a
  positive cursor inside the listing and a count that makes the sum overflow panics. A cursor at or
  beyond the end of the listing is answered before the sum is computed.
\<close>

theorem scan_overflow_panics:
  assumes "mapOrderOk host" "memOpen db" "rep A (storeView db)" "0 \<le> t" "isInt64 t"
    and "0 < cursor" "cursor < int (length (matchedKeys t pat A))" "maxInt64 - cursor < count" "count \<le> maxInt64"
    "cursor \<le> maxInt64"
  shows "\<exists>p. fst (redisScan host (scanRequest cursor pat count) (atTime t db)) = Panic p"
proof -
  have "isInt64 cursor" "isInt64 count" "0 < count" using assms by (simp_all add: int64_defs)
  then show ?thesis
    using scan_eq [OF assms(1), of "atTime t db" A t cursor count pat] assms scanPage_overflow [OF assms(6-10)] by auto
qed

theorem scan_overflow_panics_witness:
  "\<exists>p. fst (redisScan \<lparr>host_upper = id, host_mapOrder = id\<rparr>
     [''SCAN'', FormatInt 1, ''MATCH'', ''*'', ''COUNT'', FormatInt 9223372036854775807] (atTime 2 twoKeys)) = Panic p"
proof -
  let ?h = "\<lparr>host_upper = id, host_mapOrder = id\<rparr> :: redisHost"
  have "mapOrderOk ?h" by (simp add: mapOrderOk_def)
  from scan_overflow_panics [OF this twoKeys_ok(1,2), of 2 1 "''*''" 9223372036854775807] show ?thesis
    unfolding twoKeys_ok(3) by (simp add: int64_defs scanRequest_def)
qed

end
