(* ===== verification/GoPath.thy ===== *)
theory GoPath
  imports GoStrings
begin

text \<open>
  What the module catalog and the database manifest use of \<open>strings\<close>, \<open>strconv\<close>, \<open>path\<close> and
  \<open>path/filepath\<close> (on Unix, where the two agree): trimming, case, quoting, and lexical cleaning and
  joining of paths. The Unicode tables behind \<open>strings.ToLower\<close> and \<open>strconv.Quote\<close> are parameters
  for strings that are not ASCII.
\<close>

section \<open>Text\<close>

record unicode =
  uni_lower :: "bytes \<Rightarrow> bytes"
  uni_quote :: "bytes \<Rightarrow> bytes"

definition lowerByte :: "byte \<Rightarrow> byte" where
  "lowerByte c = (let n = of_char c :: nat in if 65 \<le> n \<and> n \<le> 90 then char_of (n + 32) else c)"

definition ToLower :: "unicode \<Rightarrow> bytes \<Rightarrow> bytes" where
  "ToLower uni s = (if isASCII s then map lowerByte s else uni_lower uni s)"

text \<open>\<open>strings.TrimSpace\<close>: white-space runes at both ends.\<close>

lemma spaceLen_pos: "0 < spaceLen s \<Longrightarrow> s \<noteq> []"
  by (auto simp: spaceLen_def)

function TrimLeft :: "bytes \<Rightarrow> bytes" where
  "TrimLeft s = (if spaceLen s = 0 then s else TrimLeft (drop (spaceLen s) s))"
  by pat_completeness auto
termination
  by (relation "measure length") (auto intro!: diff_less dest: spaceLen_pos)

declare TrimLeft.simps [simp del]

definition spaceEnd :: "bytes \<Rightarrow> nat" where
  "spaceEnd s = (let tail = (\<lambda>n. drop (length s - n) s) in
     if s = [] then 0
     else if spaceLen (tail 1) = 1 then 1
     else if spaceLen (tail 2) = 2 then 2
     else if spaceLen (tail 3) = 3 then 3
     else 0)"

lemma spaceEnd_pos: "0 < spaceEnd s \<Longrightarrow> s \<noteq> []"
  by (auto simp: spaceEnd_def)

function TrimRight :: "bytes \<Rightarrow> bytes" where
  "TrimRight s = (if spaceEnd s = 0 then s else TrimRight (take (length s - spaceEnd s) s))"
  by pat_completeness auto
termination
  by (relation "measure length") (auto intro!: diff_less dest: spaceEnd_pos)

declare TrimRight.simps [simp del]

definition TrimSpace :: "bytes \<Rightarrow> bytes" where
  "TrimSpace s = TrimRight (TrimLeft s)"

text \<open>The verb \<open>%q\<close>.\<close>

definition hexChar :: "nat \<Rightarrow> byte" where
  "hexChar n = char_of (if n < 10 then 48 + n else 87 + n)"

definition quoteByte :: "byte \<Rightarrow> bytes" where
  "quoteByte c = (let n = of_char c :: nat in
      if c = CHR 0x5C \<or> c = CHR 0x22 then [CHR 0x5C, c]
      else if n = 7 then [CHR 0x5C, CHR ''a'']
      else if n = 8 then [CHR 0x5C, CHR ''b'']
      else if n = 12 then [CHR 0x5C, CHR ''f'']
      else if n = 10 then [CHR 0x5C, CHR ''n'']
      else if n = 13 then [CHR 0x5C, CHR ''r'']
      else if n = 9 then [CHR 0x5C, CHR ''t'']
      else if n = 11 then [CHR 0x5C, CHR ''v'']
      else if n < 32 \<or> n = 127 then [CHR 0x5C, CHR ''x'', hexChar (n div 16), hexChar (n mod 16)]
      else [c])"

definition Quote :: "unicode \<Rightarrow> bytes \<Rightarrow> bytes" where
  "Quote uni s = (if isASCII s then CHR 0x22 # concat (map quoteByte s) @ [CHR 0x22] else uni_quote uni s)"

text \<open>\<open>strings.Split(s, sep)\<close> for one byte, and \<open>strings.Join\<close>.\<close>

fun splitOn :: "byte \<Rightarrow> bytes \<Rightarrow> bytes list" where
  "splitOn sep [] = [[]]"
| "splitOn sep (c # cs) =
     (if c = sep then [] # splitOn sep cs
      else (case splitOn sep cs of
          w # ws \<Rightarrow> (c # w) # ws
        | [] \<Rightarrow> [[c]]))"

fun joinWith :: "byte \<Rightarrow> bytes list \<Rightarrow> bytes" where
  "joinWith sep [] = []"
| "joinWith sep [w] = w"
| "joinWith sep (w # v # vs) = w @ sep # joinWith sep (v # vs)"

section \<open>Paths\<close>

abbreviation slash :: byte where "slash \<equiv> CHR ''/''"

text \<open>
  \<open>path.Clean\<close> on the elements between slashes: empty ones and \<open>.\<close> are dropped, \<open>..\<close> removes the
  element before it, is dropped at the root, and stays at the front of a relative path. The stack
  holds the elements kept so far, the last one first.
\<close>

fun cleanLoop :: "bool \<Rightarrow> bytes list \<Rightarrow> bytes list \<Rightarrow> bytes list" where
  "cleanLoop rooted stack [] = stack"
| "cleanLoop rooted stack (e # es) =
     (if e = [] \<or> e = ''.'' then cleanLoop rooted stack es
      else if e = ''..'' then
        (if stack \<noteq> [] \<and> hd stack \<noteq> ''..'' then cleanLoop rooted (tl stack) es
         else if rooted then cleanLoop rooted stack es
         else cleanLoop rooted (e # stack) es)
      else cleanLoop rooted (e # stack) es)"

definition isAbs :: "bytes \<Rightarrow> bool" where
  "isAbs p \<longleftrightarrow> p \<noteq> [] \<and> hd p = slash"

definition cleanElems :: "bytes \<Rightarrow> bytes list" where
  "cleanElems p = rev (cleanLoop (isAbs p) [] (splitOn slash p))"

definition Clean :: "bytes \<Rightarrow> bytes" where
  "Clean p = (let body = joinWith slash (cleanElems p) in
     if isAbs p then slash # body else if body = [] then ''.'' else body)"

text \<open>\<open>filepath.Join\<close>: leading empty elements are skipped.\<close>

definition filepathJoin :: "bytes list \<Rightarrow> bytes" where
  "filepathJoin elems = (let rest = dropWhile (\<lambda>e. e = []) elems in
     if rest = [] then [] else Clean (joinWith slash rest))"

text \<open>\<open>filepath.SplitList\<close>\<close>

definition SplitList :: "bytes \<Rightarrow> bytes list" where
  "SplitList s = (if s = [] then [] else splitOn (CHR '':'') s)"

section \<open>Elements of a path\<close>

lemma splitOn_not_Nil [simp]: "splitOn sep s \<noteq> []"
  by (induction s) (auto split: list.split)

lemma splitOn_no_sep: "e \<in> set (splitOn sep s) \<Longrightarrow> sep \<notin> set e"
proof (induction s arbitrary: e)
  case (Cons c cs)
  then show ?case by (cases "splitOn sep cs") (auto split: if_splits)
qed simp

lemma splitOn_word: "sep \<notin> set w \<Longrightarrow> splitOn sep w = [w]"
  by (induction w) auto

lemma splitOn_append: "splitOn sep (u @ sep # v) = splitOn sep u @ splitOn sep v"
proof (induction u)
  case (Cons c cs)
  then show ?case by (cases "splitOn sep cs") (auto simp: splitOn_not_Nil)
qed simp

lemma splitOn_joinWith:
  "ws \<noteq> [] \<Longrightarrow> list_all (\<lambda>w. sep \<notin> set w) ws \<Longrightarrow> splitOn sep (joinWith sep ws) = ws"
  by (induction ws rule: joinWith.induct) (auto simp: splitOn_word splitOn_append)

lemma joinWith_splitOn: "joinWith sep (splitOn sep s) = s"
proof (induction s)
  case (Cons c cs)
  then show ?case by (cases "(sep, splitOn sep cs)" rule: joinWith.cases) (auto split: if_splits)
qed simp

lemma joinWith_append: "us \<noteq> [] \<Longrightarrow> vs \<noteq> [] \<Longrightarrow> joinWith sep (us @ vs) = joinWith sep us @ sep # joinWith sep vs"
  by (induction us rule: joinWith.induct) (auto simp: neq_Nil_conv)

text \<open>An element that names an entry of its directory.\<close>

definition plainElem :: "bytes \<Rightarrow> bool" where
  "plainElem e \<longleftrightarrow> e \<noteq> [] \<and> e \<noteq> ''.'' \<and> e \<noteq> ''..'' \<and> slash \<notin> set e"

lemma cleanLoop_plain: "list_all plainElem es \<Longrightarrow> cleanLoop rooted stack es = rev es @ stack"
  by (induction es arbitrary: stack) (auto simp: plainElem_def)

lemma cleanLoop_append: "cleanLoop rooted stack (es @ fs) = cleanLoop rooted (cleanLoop rooted stack es) fs"
  by (induction rooted stack es rule: cleanLoop.induct) auto

lemma cleanLoop_elems:
  assumes "list_all (\<lambda>e. slash \<notin> set e) es" "list_all (\<lambda>e. plainElem e \<or> e = ''..'') stack"
  shows "list_all (\<lambda>e. plainElem e \<or> e = ''..'') (cleanLoop rooted stack es)"
  using assms
proof (induction rooted stack es rule: cleanLoop.induct)
  case (2 rooted stack e es)
  then show ?case by (cases stack) (auto simp: plainElem_def)
qed simp

text \<open>In a kept stack, \<open>..\<close> only stands at the front of the path.\<close>

primrec dotsFirst :: "bytes list \<Rightarrow> bool" where
  "dotsFirst [] = True"
| "dotsFirst (e # es) = (if e = ''..'' then list_all (\<lambda>f. f = ''..'') es else dotsFirst es)"

lemma dotsFirst_all: "list_all (\<lambda>f. f = ''..'') es \<Longrightarrow> dotsFirst es"
  by (induction es) auto

lemma cleanLoop_dots: "dotsFirst stack \<Longrightarrow> dotsFirst (cleanLoop rooted stack es)"
proof (induction rooted stack es rule: cleanLoop.induct)
  case (2 rooted stack e es)
  have "dotsFirst (e # stack)" if "e = ''..'' \<longrightarrow> stack = [] \<or> hd stack = ''..''"
    using that "2.prems" by (cases stack) auto
  moreover have "dotsFirst (tl stack)" using "2.prems" by (cases stack) (auto dest: dotsFirst_all split: if_splits)
  ultimately show ?case using 2 by auto
qed simp

lemma cleanElems_elems: "list_all (\<lambda>e. plainElem e \<or> e = ''..'') (cleanElems p)"
  using cleanLoop_elems [of "splitOn slash p" "[]" "isAbs p"] splitOn_no_sep [of _ slash p]
  by (auto simp: cleanElems_def list_all_iff)

lemma dotsFirst_split: "dotsFirst stack \<Longrightarrow> \<exists>n ps. stack = ps @ replicate n ''..'' \<and> ''..'' \<notin> set ps"
proof (induction stack)
  case (Cons e es)
  show ?case
  proof (cases "e = ''..''")
    case True
    then have "e # es = [] @ replicate (Suc (length es)) ''..''"
      using Cons.prems by (auto simp: list_all_iff replicate_length_same)
    then show ?thesis by (metis empty_iff list.set(1))
  next
    case False
    then obtain n ps where "es = ps @ replicate n ''..''" "''..'' \<notin> set ps" using Cons by auto
    then have "e # es = (e # ps) @ replicate n ''..''" "''..'' \<notin> set (e # ps)" using False by auto
    then show ?thesis by blast
  qed
qed simp

lemma cleanElems_dots: "\<exists>n qs. cleanElems p = replicate n ''..'' @ qs \<and> ''..'' \<notin> set qs"
proof -
  obtain n ps where "cleanLoop (isAbs p) [] (splitOn slash p) = ps @ replicate n ''..''" "''..'' \<notin> set ps"
    using dotsFirst_split [OF cleanLoop_dots [of "[]" "isAbs p" "splitOn slash p"]] by auto
  then have "cleanElems p = replicate n ''..'' @ rev ps" "''..'' \<notin> set (rev ps)" by (simp_all add: cleanElems_def)
  then show ?thesis by blast
qed

text \<open>A cleaned relative path that does not start with \<open>..\<close> is a sequence of plain elements.\<close>

lemma cleaned_plain:
  assumes "\<not> isAbs v" "Clean v = v" "v \<noteq> ''.''" "v \<noteq> ''..''" "\<not> HasPrefix v ''../''"
  shows "list_all plainElem (splitOn slash v)"
proof -
  define es where "es = cleanElems v"
  have elems: "list_all (\<lambda>e. plainElem e \<or> e = ''..'') es" unfolding es_def by (rule cleanElems_elems)
  have clean: "(if joinWith slash es = [] then ''.'' else joinWith slash es) = v"
    using assms(2) unfolding Clean_def Let_def es_def [symmetric] using assms(1) by simp
  have v: "v = joinWith slash es" using clean assms(3) by (auto split: if_splits)
  have ne: "es \<noteq> []" using clean assms(3) by auto
  have "list_all (\<lambda>w. slash \<notin> set w) es" using elems by (rule list.pred_mono_strong) (auto simp: plainElem_def)
  then have split: "splitOn slash v = es" unfolding v by (rule splitOn_joinWith [OF ne])
  obtain n qs where dots: "es = replicate n ''..'' @ qs" "''..'' \<notin> set qs"
    unfolding es_def using cleanElems_dots by blast
  have "n = 0"
  proof (rule ccontr)
    assume "n \<noteq> 0"
    then obtain r where r: "es = ''..'' # r" using dots by (cases n) auto
    show False
    proof (cases r)
      case Nil
      then show False using v r assms(4) by simp
    next
      case (Cons w ws)
      then have "v = ''..'' @ slash # joinWith slash (w # ws)" using v r by simp
      then show False using assms(5) by (simp add: HasPrefix_def)
    qed
  qed
  then show ?thesis using elems dots split by (auto simp: list_all_iff)
qed

text \<open>Joining a directory and plain elements appends them to the elements of the directory.\<close>

lemma cleanElems_join:
  assumes "d \<noteq> []" "list_all plainElem (splitOn slash v)"
  shows "cleanElems (d @ slash # v) = cleanElems d @ splitOn slash v"
proof -
  have "isAbs (d @ slash # v) = isAbs d" using assms(1) by (simp add: isAbs_def)
  then show ?thesis
    using assms(2) by (simp add: cleanElems_def splitOn_append cleanLoop_append cleanLoop_plain)
qed

text \<open>Cleaning keeps the elements.\<close>

lemma isAbs_Clean [simp]: "isAbs (Clean p) = isAbs p"
proof (cases "isAbs p")
  case False
  have "\<not> isAbs (joinWith slash (cleanElems p))"
    using cleanElems_elems [of p]
    by (cases "(slash, cleanElems p)" rule: joinWith.cases) (auto simp: isAbs_def plainElem_def hd_append dest: hd_in_set)
  then show ?thesis using False by (auto simp: Clean_def Let_def isAbs_def)
qed (simp add: Clean_def Let_def isAbs_def)

lemma cleanLoop_rooted: "''..'' \<notin> set stack \<Longrightarrow> ''..'' \<notin> set (cleanLoop True stack es)"
proof (induction True stack es rule: cleanLoop.induct)
  case (2 stack e es)
  then show ?case by (cases stack) auto
qed simp

lemma cleanLoop_replicate: "list_all (\<lambda>f. f = ''..'') stack \<Longrightarrow>
   cleanLoop False stack (replicate n ''..'' @ es) = cleanLoop False (replicate n ''..'' @ stack) es"
proof (induction n arbitrary: stack)
  case (Suc n)
  have "stack = [] \<or> hd stack = ''..''" using Suc.prems by (cases stack) auto
  then show ?case using Suc by (auto simp: replicate_app_Cons_same)
qed simp

lemma cleanElems_Clean [simp]: "cleanElems (Clean p) = cleanElems p"
proof -
  define es where "es = cleanElems p"
  obtain n qs where dots: "es = replicate n ''..'' @ qs" "''..'' \<notin> set qs"
    unfolding es_def using cleanElems_dots by blast
  have elems: "list_all (\<lambda>e. plainElem e \<or> e = ''..'') es" unfolding es_def by (rule cleanElems_elems)
  have "list_all plainElem qs" using elems dots by (auto simp: list_all_iff)
  have noslash: "list_all (\<lambda>w. slash \<notin> set w) es" using elems by (rule list.pred_mono_strong) (auto simp: plainElem_def)
  have split: "splitOn slash (joinWith slash es) = (if es = [] then [[]] else es)" using splitOn_joinWith [OF _ noslash] by simp
  have body: "joinWith slash es = [] \<longleftrightarrow> es = []"
    using elems by (cases "(slash, es)" rule: joinWith.cases) (auto simp: plainElem_def)
  show ?thesis
  proof (cases "isAbs p")
    case True
    then have "''..'' \<notin> set es" unfolding es_def using cleanLoop_rooted [of "[]" "splitOn slash p"] by (simp add: cleanElems_def)
    then have "list_all plainElem es" using elems by (auto simp: list_all_iff)
    then have "cleanLoop True [] (splitOn slash (Clean p)) = rev es"
      using True split by (simp add: Clean_def es_def [symmetric] cleanLoop_plain)
    then show ?thesis using True by (simp add: cleanElems_def [of "Clean p"] es_def)
  next
    case False
    have "cleanLoop False [] es = rev es"
      using cleanLoop_replicate [of "[]" n qs] \<open>list_all plainElem qs\<close> by (simp add: dots cleanLoop_plain)
    then have "cleanLoop False [] (splitOn slash (Clean p)) = rev es"
      using False split body by (simp add: Clean_def Let_def es_def [symmetric])
    then show ?thesis using False by (simp add: cleanElems_def [of "Clean p"] es_def)
  qed
qed

lemma filepathJoin_plain:
  assumes "d \<noteq> []" "list_all plainElem (splitOn slash v)"
  shows "cleanElems (filepathJoin [d, v]) = cleanElems d @ splitOn slash v" "isAbs (filepathJoin [d, v]) = isAbs d"
  using assms cleanElems_join [OF assms] by (simp_all add: filepathJoin_def) (simp add: isAbs_def)

end
