(* ===== verification/FileSystem.thy ===== *)
theory FileSystem
  imports GoPath
begin

text \<open>
  The calls of \<open>os\<close> that the module catalog and the database manifest make, on a file system that
  maps cleaned names to files and directories. Two names are two places: there are no links, and a
  directory is not reached both by a relative and by an absolute name; a name below a regular file is
  reported as missing, not as \<open>ENOTDIR\<close>. \<open>fs_fault\<close> is any error that
  the operating system gives for other reasons than the presence of a name (permissions, a damaged
  disk), \<open>fs_room\<close> how many bytes of a file can be written before its device is full.
\<close>

datatype node = File bytes | Dir

datatype fsCall = FsStat | FsOpen | FsRead | FsReadDir | FsMkdir | FsCreate | FsSync | FsClose

record fileSystem =
  fs_nodes :: "(bytes \<times> node) list"
  fs_fault :: "fsCall \<Rightarrow> bytes \<Rightarrow> goerror option"
  fs_room :: "bytes \<Rightarrow> nat option"

text \<open>\<open>*PathError\<close>: the failed call, the name, and the cause.\<close>

definition pathError :: "bytes \<Rightarrow> bytes \<Rightarrow> bytes \<Rightarrow> sentinel list \<Rightarrow> goerror" where
  "pathError call name cause chain = \<lparr>err_text = call @ '' '' @ name @ '': '' @ cause, err_chain = chain\<rparr>"

definition errNoEntry :: "bytes \<Rightarrow> bytes \<Rightarrow> goerror" where
  "errNoEntry call name = pathError call name ''no such file or directory'' [FsErrNotExist]"

definition fs_at :: "fileSystem \<Rightarrow> bytes \<Rightarrow> node option" where
  "fs_at fs name = map_of (fs_nodes fs) (Clean name)"

text \<open>\<open>os.Stat(name)\<close>, of which the code uses \<open>IsDir\<close>.\<close>

definition os_Stat :: "fileSystem \<Rightarrow> bytes \<Rightarrow> bool res" where
  "os_Stat fs name = (case fs_fault fs FsStat name of
      Some e \<Rightarrow> Err e
    | None \<Rightarrow> (case fs_at fs name of
          None \<Rightarrow> Err (errNoEntry ''stat'' name)
        | Some n \<Rightarrow> Ok (n = Dir)))"

definition os_ReadFile :: "fileSystem \<Rightarrow> bytes \<Rightarrow> bytes res" where
  "os_ReadFile fs name = (case fs_fault fs FsRead name of
      Some e \<Rightarrow> Err e
    | None \<Rightarrow> (case fs_at fs name of
          None \<Rightarrow> Err (errNoEntry ''open'' name)
        | Some Dir \<Rightarrow> Err (pathError ''read'' name ''is a directory'' [])
        | Some (File content) \<Rightarrow> Ok content))"

text \<open>\<open>os.Open\<close>, and reading an open file to its end.\<close>

definition os_Open :: "fileSystem \<Rightarrow> bytes \<Rightarrow> unit res" where
  "os_Open fs name = (case fs_fault fs FsOpen name of
      Some e \<Rightarrow> Err e
    | None \<Rightarrow> if fs_at fs name = None then Err (errNoEntry ''open'' name) else Ok ())"

definition file_ReadAll :: "fileSystem \<Rightarrow> bytes \<Rightarrow> bytes res" where
  "file_ReadAll fs name = (case fs_fault fs FsRead name of
      Some e \<Rightarrow> Err e
    | None \<Rightarrow> (case fs_at fs name of
          Some (File content) \<Rightarrow> Ok content
        | _ \<Rightarrow> Err (pathError ''read'' name ''is a directory'' [])))"

text \<open>The name of an entry of a directory, from its full name.\<close>

definition childName :: "bytes \<Rightarrow> bytes \<Rightarrow> bytes option" where
  "childName dir name =
     (let pre = (if dir = ''/'' then dir else if dir = ''.'' then [] else dir @ ''/'');
          base = drop (length pre) name
      in if take (length pre) name = pre \<and> plainElem base then Some base else None)"

definition dirEntries :: "fileSystem \<Rightarrow> bytes \<Rightarrow> (bytes \<times> bool) list" where
  "dirEntries fs dir =
     sort_key fst (List.map_filter (\<lambda>(name, n). map_option (\<lambda>b. (b, n = Dir)) (childName (Clean dir) name)) (fs_nodes fs))"

text \<open>\<open>os.ReadDir\<close>: the entries by name, with \<open>IsDir\<close>.\<close>

definition os_ReadDir :: "fileSystem \<Rightarrow> bytes \<Rightarrow> (bytes \<times> bool) list res" where
  "os_ReadDir fs name = (case fs_fault fs FsReadDir name of
      Some e \<Rightarrow> Err e
    | None \<Rightarrow> (case fs_at fs name of
          None \<Rightarrow> Err (errNoEntry ''open'' name)
        | Some (File _) \<Rightarrow> Err (pathError ''fdopendir'' name ''not a directory'' [])
        | Some Dir \<Rightarrow> Ok (dirEntries fs name)))"

text \<open>A directory and the directories above it, outermost first.\<close>

definition ancestors :: "bytes \<Rightarrow> bytes list" where
  "ancestors name =
     (let es = cleanElems name; top = (if isAbs name then ''/'' else []) in
      (if isAbs name then [''/''] else if es = [] then [''.''] else [])
        @ map (\<lambda>i. top @ joinWith slash (take i es)) [1..<Suc (length es)])"

fun mkdirs :: "bytes list \<Rightarrow> (fileSystem, unit) op" where
  "mkdirs [] fs = (Ok (), fs)"
| "mkdirs (d # ds) fs = (case map_of (fs_nodes fs) d of
      Some Dir \<Rightarrow> mkdirs ds fs
    | Some (File _) \<Rightarrow> (Err (pathError ''mkdir'' d ''not a directory'' []), fs)
    | None \<Rightarrow> mkdirs ds (fs\<lparr>fs_nodes := (d, Dir) # fs_nodes fs\<rparr>))"

definition os_MkdirAll :: "bytes \<Rightarrow> (fileSystem, unit) op" where
  "os_MkdirAll name fs = (case fs_fault fs FsMkdir name of
      Some e \<Rightarrow> (Err e, fs)
    | None \<Rightarrow> mkdirs (ancestors name) fs)"

text \<open>\<open>os.OpenFile(name, O_WRONLY|O_CREATE|O_EXCL, mode)\<close>\<close>

definition os_CreateExcl :: "bytes \<Rightarrow> (fileSystem, unit) op" where
  "os_CreateExcl name fs = (case fs_fault fs FsCreate name of
      Some e \<Rightarrow> (Err e, fs)
    | None \<Rightarrow> (case fs_at fs name of
          Some _ \<Rightarrow> (Err (pathError ''open'' name ''file exists'' [FsErrExist]), fs)
        | None \<Rightarrow> (Ok (), fs\<lparr>fs_nodes := (Clean name, File []) # fs_nodes fs\<rparr>)))"

text \<open>\<open>file.Write\<close> on a file that was just created: the bytes written and the error.\<close>

definition file_Write :: "bytes \<Rightarrow> bytes \<Rightarrow> fileSystem \<Rightarrow> (nat \<times> goerror option) \<times> fileSystem" where
  "file_Write name data fs =
     (let n = (case fs_room fs name of Some room \<Rightarrow> min room (length data) | None \<Rightarrow> length data) in
      ((n, if n < length data then Some (pathError ''write'' name ''no space left on device'' []) else None),
       fs\<lparr>fs_nodes := AList.update (Clean name) (File (take n data)) (fs_nodes fs)\<rparr>))"

definition file_Sync :: "bytes \<Rightarrow> (fileSystem, unit) op" where
  "file_Sync name fs = (case fs_fault fs FsSync name of Some e \<Rightarrow> Err e | None \<Rightarrow> Ok (), fs)"

definition file_Close :: "bytes \<Rightarrow> fileSystem \<Rightarrow> unit res" where
  "file_Close name fs = (case fs_fault fs FsClose name of Some e \<Rightarrow> Err e | None \<Rightarrow> Ok ())"

section \<open>Consequences\<close>

definition fs_healthy :: "fileSystem \<Rightarrow> bool" where
  "fs_healthy fs \<longleftrightarrow> fs_fault fs = (\<lambda>_ _. None) \<and> fs_room fs = (\<lambda>_. None)"

lemma fs_at_update:
  "fs_at (fs\<lparr>fs_nodes := AList.update (Clean name) n (fs_nodes fs)\<rparr>) p = (if Clean p = Clean name then Some n else fs_at fs p)"
  by (simp add: fs_at_def)

lemma fs_at_Cons:
  "fs_at (fs\<lparr>fs_nodes := (Clean name, n) # fs_nodes fs\<rparr>) p = (if Clean p = Clean name then Some n else fs_at fs p)"
  by (simp add: fs_at_def)

end
