(* ===== verification/Json.thy ===== *)
theory Json
  imports PathMatch
begin

text \<open>
  The part of \<open>encoding/json\<close> that KVLite uses for data of fixed types: JSON text, its scanner with
  the unquoting of strings, and the encoder. The encoder escapes what Go escapes (\<open>SetEscapeHTML\<close> is
  never called), the scanner accepts what Go accepts, with the limit on nesting. Bytes that are not
  UTF-8 become U+FFFD in both directions.
\<close>

section \<open>UTF-8\<close>

lemma drop_rune_shorter: "s \<noteq> [] \<Longrightarrow> length (drop (snd (DecodeRune s)) s) < length s"
  using DecodeRune_size [of s] by (cases s) auto

lemma drop_rune_shorter_Cons: "length (drop (snd (DecodeRune (c # cs))) (c # cs)) < Suc (length cs)"
  using drop_rune_shorter [of "c # cs"] by simp

text \<open>\<open>utf8.EncodeRune\<close>\<close>

definition EncodeRune :: "nat \<Rightarrow> bytes" where
  "EncodeRune r = map char_of
     (if r < 0x80 then [r]
      else if r < 0x800 then [0xC0 + r div 64, 0x80 + r mod 64]
      else if 0xD800 \<le> r \<and> r \<le> 0xDFFF \<or> 0x10FFFF < r then [0xEF, 0xBF, 0xBD]
      else if r < 0x10000 then [0xE0 + r div 4096, 0x80 + r div 64 mod 64, 0x80 + r mod 64]
      else [0xF0 + r div 262144, 0x80 + r div 4096 mod 64, 0x80 + r div 64 mod 64, 0x80 + r mod 64])"

text \<open>\<open>utf8.ValidString\<close>\<close>

function ValidString :: "bytes \<Rightarrow> bool" where
  "ValidString s =
     (if s = [] then True
      else if DecodeRune s = (RuneError, 1) then False
      else ValidString (drop (snd (DecodeRune s)) s))"
  by pat_completeness auto
termination
  by (relation "measure length") (auto intro: drop_rune_shorter simp del: length_drop)

declare ValidString.simps [simp del]

section \<open>Values\<close>

datatype json = JNull | JBool bool | JNum bytes | JStr bytes | JArr "json list" | JObj "(bytes \<times> json) list"

section \<open>Encoding\<close>

definition hexDigit :: "nat \<Rightarrow> byte" where
  "hexDigit n = char_of (if n < 10 then 48 + n else 87 + n)"

definition escapeByte :: "byte \<Rightarrow> bytes" where
  "escapeByte c = (let n = of_char c :: nat in
      if c = CHR 0x5C \<or> c = CHR 0x22 then [CHR 0x5C, c]
      else if n = 8 then [CHR 0x5C, CHR ''b'']
      else if n = 12 then [CHR 0x5C, CHR ''f'']
      else if n = 10 then [CHR 0x5C, CHR ''n'']
      else if n = 13 then [CHR 0x5C, CHR ''r'']
      else if n = 9 then [CHR 0x5C, CHR ''t'']
      else if n < 32 \<or> c = CHR ''<'' \<or> c = CHR ''>'' \<or> c = CHR 0x26
      then [CHR 0x5C, CHR ''u'', CHR ''0'', CHR ''0'', hexDigit (n div 16), hexDigit (n mod 16)]
      else [c])"

text \<open>The body of a string, between the quotes.\<close>

function appendString :: "bytes \<Rightarrow> bytes" where
  "appendString s = (case s of
      [] \<Rightarrow> []
    | c # cs \<Rightarrow>
        if (of_char c :: nat) < 0x80 then escapeByte c @ appendString cs
        else (case DecodeRune s of (r, n) \<Rightarrow>
            (if r = RuneError \<and> n = 1 then CHR 0x5C # ''ufffd''
             else if r = 0x2028 \<or> r = 0x2029 then CHR 0x5C # ''u202'' @ [hexDigit (r mod 16)]
             else take n s) @ appendString (drop n s)))"
  by pat_completeness auto
termination
  by (relation "measure length") (auto dest!: arg_cong [where f = snd] intro: drop_rune_shorter_Cons simp del: length_drop)

declare appendString.simps [simp del]

definition encodeString :: "bytes \<Rightarrow> bytes" where
  "encodeString s = CHR 0x22 # appendString s @ [CHR 0x22]"

fun commaSep :: "bytes list \<Rightarrow> bytes" where
  "commaSep [] = []"
| "commaSep [x] = x"
| "commaSep (x # y # ys) = x @ '','' @ commaSep (y # ys)"

fun encodeJson :: "json \<Rightarrow> bytes" where
  "encodeJson JNull = ''null''"
| "encodeJson (JBool b) = (if b then ''true'' else ''false'')"
| "encodeJson (JNum n) = n"
| "encodeJson (JStr s) = encodeString s"
| "encodeJson (JArr xs) = ''['' @ commaSep (map encodeJson xs) @ '']''"
| "encodeJson (JObj ms) = ''{'' @ commaSep (map (\<lambda>(k, v). encodeString k @ '':'' @ encodeJson v) ms) @ ''}''"

section \<open>Scanning\<close>

definition jsonSpace :: "byte \<Rightarrow> bool" where
  "jsonSpace c \<longleftrightarrow> c = CHR '' '' \<or> c = CHR 0x09 \<or> c = CHR 0x0D \<or> c = CHR 0x0A"

definition skipSpace :: "bytes \<Rightarrow> bytes" where
  "skipSpace s = dropWhile jsonSpace s"

definition hexVal :: "byte \<Rightarrow> nat option" where
  "hexVal c = (let n = of_char c :: nat in
      if 48 \<le> n \<and> n \<le> 57 then Some (n - 48)
      else if 97 \<le> n \<and> n \<le> 102 then Some (n - 87)
      else if 65 \<le> n \<and> n \<le> 70 then Some (n - 55)
      else None)"

definition hex4 :: "bytes \<Rightarrow> nat option" where
  "hex4 s = (case map hexVal (take 4 s) of
      [Some a, Some b, Some c, Some d] \<Rightarrow> Some (((a * 16 + b) * 16 + c) * 16 + d)
    | _ \<Rightarrow> None)"

text \<open>A backslash, \<open>u\<close> and four digits at the head of a string (\<open>getu4\<close>).\<close>

definition getu4 :: "bytes \<Rightarrow> nat option" where
  "getu4 s = (if take 2 s = [CHR 0x5C, CHR ''u''] then hex4 (drop 2 s) else None)"

definition surrogatePair :: "nat \<Rightarrow> nat \<Rightarrow> nat option" where
  "surrogatePair r1 r2 =
     (if 0xD800 \<le> r1 \<and> r1 < 0xDC00 \<and> 0xDC00 \<le> r2 \<and> r2 < 0xE000
      then Some ((r1 - 0xD800) * 1024 + (r2 - 0xDC00) + 0x10000) else None)"

definition unescape :: "byte \<Rightarrow> byte option" where
  "unescape e =
     (if e = CHR 0x22 \<or> e = CHR 0x5C \<or> e = CHR ''/'' then Some e
      else if e = CHR ''b'' then Some CHR 0x08
      else if e = CHR ''f'' then Some CHR 0x0C
      else if e = CHR ''n'' then Some CHR 0x0A
      else if e = CHR ''r'' then Some CHR 0x0D
      else if e = CHR ''t'' then Some CHR 0x09
      else None)"

text \<open>
  A string after its opening quote: the unquoted bytes and what follows the closing quote. One step
  takes one byte, escape or rune and gives the bytes it stands for and the number of bytes it takes.
\<close>

definition strStep :: "bytes \<Rightarrow> (bytes \<times> nat) option" where
  "strStep s = (case s of
      [] \<Rightarrow> None
    | c # cs \<Rightarrow>
        if (of_char c :: nat) < 0x20 then None
        else if c = CHR 0x5C then
          (case getu4 s of
             Some r \<Rightarrow>
               if 0xD800 \<le> r \<and> r < 0xE000 then
                 (case Option.bind (getu4 (drop 6 s)) (surrogatePair r) of
                    Some d \<Rightarrow> Some (EncodeRune d, 12)
                  | None \<Rightarrow> Some (EncodeRune RuneError, 6))
               else Some (EncodeRune r, 6)
           | None \<Rightarrow> (case cs of
                 [] \<Rightarrow> None
               | e # _ \<Rightarrow> map_option (\<lambda>b. ([b], 2)) (unescape e)))
        else if (of_char c :: nat) < 0x80 then Some ([c], 1)
        else (case DecodeRune s of (r, n) \<Rightarrow> Some (if n = 1 then EncodeRune RuneError else take n s, n)))"

lemma strStep_size: "strStep s = Some (b, n) \<Longrightarrow> 1 \<le> n \<and> s \<noteq> []"
  using DecodeRune_size [of s]
  by (auto simp: strStep_def split: list.splits if_splits option.splits prod.splits)

function strBody :: "bytes \<Rightarrow> (bytes \<times> bytes) option" where
  "strBody s =
     (if s \<noteq> [] \<and> hd s = CHR 0x22 then Some ([], tl s)
      else (case strStep s of
          None \<Rightarrow> None
        | Some (b, n) \<Rightarrow> map_option (apfst ((@) b)) (strBody (drop n s))))"
  by pat_completeness auto
termination
proof (relation "measure length")
  fix s x b n
  assume "strStep s = Some x" "(b, n) = x"
  then show "(drop n s, s) \<in> measure length" using strStep_size [of s b n] by (cases s) auto
qed auto

declare strBody.simps [simp del]

definition isDigit :: "byte \<Rightarrow> bool" where
  "isDigit c \<longleftrightarrow> digitVal c \<noteq> None"

text \<open>The parts of a number: at least one digit, a fraction, an exponent.\<close>

definition scanDigits :: "bytes \<Rightarrow> (bytes \<times> bytes) option" where
  "scanDigits s = (let d = takeWhile isDigit s in if d = [] then None else Some (d, drop (length d) s))"

definition scanInt :: "bytes \<Rightarrow> (bytes \<times> bytes) option" where
  "scanInt s = (case s of
      c # cs \<Rightarrow> if c = CHR ''0'' then Some (''0'', cs) else scanDigits s
    | [] \<Rightarrow> None)"

definition scanFrac :: "bytes \<Rightarrow> (bytes \<times> bytes) option" where
  "scanFrac s = (case s of
      c # cs \<Rightarrow> if c = CHR ''.'' then map_option (apfst ((#) c)) (scanDigits cs) else Some ([], s)
    | [] \<Rightarrow> Some ([], []))"

definition scanExp :: "bytes \<Rightarrow> (bytes \<times> bytes) option" where
  "scanExp s = (case s of
      c # cs \<Rightarrow>
        if c = CHR ''e'' \<or> c = CHR ''E'' then
          (case cs of
             d # ds \<Rightarrow>
               if d = CHR ''+'' \<or> d = CHR ''-'' then map_option (apfst (\<lambda>n. c # d # n)) (scanDigits ds)
               else map_option (apfst ((#) c)) (scanDigits cs)
           | [] \<Rightarrow> None)
        else Some ([], s)
    | [] \<Rightarrow> Some ([], []))"

definition scanNumber :: "bytes \<Rightarrow> (bytes \<times> bytes) option" where
  "scanNumber s =
     (let sign = (if take 1 s = ''-'' then ''-'' else []) in
      case scanInt (drop (length sign) s) of
        None \<Rightarrow> None
      | Some (i, r) \<Rightarrow> (case scanFrac r of
            None \<Rightarrow> None
          | Some (f, r) \<Rightarrow> (case scanExp r of
                None \<Rightarrow> None
              | Some (e, r) \<Rightarrow> Some (sign @ i @ f @ e, r))))"

definition maxNestingDepth :: nat where "maxNestingDepth = 10000"

text \<open>
  The elements of an array and the members of an object, with the parser of one value as an
  argument, and values. The number is fuel: a value passes on one less, and the length of the text
  is enough. \<open>depth\<close> counts the arrays and objects around the value.
\<close>

primrec parseElems :: "(bytes \<Rightarrow> (json \<times> bytes) option) \<Rightarrow> nat \<Rightarrow> bytes \<Rightarrow> (json list \<times> bytes) option" where
  "parseElems val 0 s = None"
| "parseElems val (Suc n) s = (case val s of
      None \<Rightarrow> None
    | Some (v, r) \<Rightarrow>
        if take 1 (skipSpace r) = '','' then map_option (apfst ((#) v)) (parseElems val n (drop 1 (skipSpace r)))
        else if take 1 (skipSpace r) = '']'' then Some ([v], drop 1 (skipSpace r))
        else None)"

definition parseMember :: "(bytes \<Rightarrow> (json \<times> bytes) option) \<Rightarrow> bytes \<Rightarrow> ((bytes \<times> json) \<times> bytes) option" where
  "parseMember val s =
     (if take 1 (skipSpace s) \<noteq> [CHR 0x22] then None
      else (case strBody (drop 1 (skipSpace s)) of
          None \<Rightarrow> None
        | Some (k, r) \<Rightarrow>
            if take 1 (skipSpace r) \<noteq> '':'' then None
            else map_option (apfst (Pair k)) (val (drop 1 (skipSpace r)))))"

primrec parseMembers ::
  "(bytes \<Rightarrow> (json \<times> bytes) option) \<Rightarrow> nat \<Rightarrow> bytes \<Rightarrow> ((bytes \<times> json) list \<times> bytes) option" where
  "parseMembers val 0 s = None"
| "parseMembers val (Suc n) s = (case parseMember val s of
      None \<Rightarrow> None
    | Some (m, r) \<Rightarrow>
        if take 1 (skipSpace r) = '','' then map_option (apfst ((#) m)) (parseMembers val n (drop 1 (skipSpace r)))
        else if take 1 (skipSpace r) = ''}'' then Some ([m], drop 1 (skipSpace r))
        else None)"

primrec parseValue :: "nat \<Rightarrow> nat \<Rightarrow> bytes \<Rightarrow> (json \<times> bytes) option" where
  "parseValue 0 depth s = None"
| "parseValue (Suc n) depth s =
     (let s = skipSpace s in
      if take 1 s = ''{'' then
        if depth \<ge> maxNestingDepth then None
        else if take 1 (skipSpace (drop 1 s)) = ''}'' then Some (JObj [], drop 1 (skipSpace (drop 1 s)))
        else map_option (apfst JObj) (parseMembers (parseValue n (Suc depth)) n (drop 1 s))
      else if take 1 s = ''['' then
        if depth \<ge> maxNestingDepth then None
        else if take 1 (skipSpace (drop 1 s)) = '']'' then Some (JArr [], drop 1 (skipSpace (drop 1 s)))
        else map_option (apfst JArr) (parseElems (parseValue n (Suc depth)) n (drop 1 s))
      else if take 1 s = [CHR 0x22] then map_option (apfst JStr) (strBody (drop 1 s))
      else if take 4 s = ''null'' then Some (JNull, drop 4 s)
      else if take 4 s = ''true'' then Some (JBool True, drop 4 s)
      else if take 5 s = ''false'' then Some (JBool False, drop 5 s)
      else map_option (apfst JNum) (scanNumber s))"

text \<open>
  \<open>json.Unmarshal\<close> and \<open>json.Valid\<close> take one value and nothing else; \<open>Decoder.Decode\<close> takes the
  next value of a stream, or reports that only white space is left.
\<close>

definition parseJson :: "bytes \<Rightarrow> json option" where
  "parseJson data = (case parseValue (length data) 0 data of
      Some (v, r) \<Rightarrow> if skipSpace r = [] then Some v else None
    | None \<Rightarrow> None)"

datatype decoded = Decoded json bytes | DecodeEOF | DecodeError

definition decodeNext :: "bytes \<Rightarrow> decoded" where
  "decodeNext data =
     (if skipSpace data = [] then DecodeEOF
      else (case parseValue (length data) 0 data of
          Some (v, r) \<Rightarrow> Decoded v r
        | None \<Rightarrow> DecodeError))"

end
