(* ===== verification/Modules.thy ===== *)
theory Modules
  imports FileSystem Json
begin

text \<open>
  Module manifests, the registry of linked modules and the catalog of installed modules
  (\<open>module.go\<close>). The catalog reads manifests from a file system and never runs an artifact.

  \<open>moduleHost\<close> holds what the process finds around it: Unicode tables, the platform, environment
  variables, SHA-256, and the texts of JSON errors.
\<close>

section \<open>Manifests\<close>

record moduleHost =
  mh_uni :: unicode
  mh_platform :: bytes
  mh_env :: "bytes \<Rightarrow> bytes"
  mh_sha256 :: "bytes \<Rightarrow> bytes"
  mh_jsonError :: "bytes \<Rightarrow> bytes"

definition ModuleManifestFilename :: bytes where "ModuleManifestFilename = ''kvlite-module.json''"
definition ModuleManifestVersion :: int where "ModuleManifestVersion = 1"
definition ModuleManifestMultiKindVersion :: int where "ModuleManifestMultiKindVersion = 2"
definition ModuleABIVersion :: int where "ModuleABIVersion = 1"

definition ModuleKindEngine :: bytes where "ModuleKindEngine = ''engine''"
definition ModuleKindTransport :: bytes where "ModuleKindTransport = ''transport''"

definition canonicalModuleKind :: "bytes \<Rightarrow> bytes" where
  "canonicalModuleKind kind =
     (if kind = ''driver'' then ModuleKindEngine
      else if kind = ''extension'' then ModuleKindTransport
      else kind)"

definition ModuleArtifactCShared :: bytes where "ModuleArtifactCShared = ''c-shared''"
definition ModuleArtifactExecutable :: bytes where "ModuleArtifactExecutable = ''executable''"
definition ModuleArtifactNative :: bytes where "ModuleArtifactNative = ''native-module''"

record ModuleDependency =
  dep_Name :: bytes
  dep_ModuleABI :: int

record ModuleArtifact =
  art_Platform :: bytes
  art_Kind :: bytes
  art_Path :: bytes
  art_SHA256 :: bytes
  art_Symbol :: bytes

record ModuleManifest =
  mm_SchemaVersion :: int
  mm_Name :: bytes
  mm_Kind :: bytes
  mm_Kinds :: "bytes list"
  mm_Version :: bytes
  mm_ModuleABI :: int
  mm_Driver :: bytes
  mm_Capabilities :: "bytes list"
  mm_Dependencies :: "ModuleDependency list"
  mm_Artifacts :: "ModuleArtifact list"
  mm_License :: bytes

definition ProvidedKinds :: "ModuleManifest \<Rightarrow> bytes list" where
  "ProvidedKinds manifest =
     (if mm_SchemaVersion manifest = ModuleManifestVersion then [canonicalModuleKind (mm_Kind manifest)]
      else mm_Kinds manifest)"

definition Provides :: "ModuleManifest \<Rightarrow> bytes \<Rightarrow> bool" where
  "Provides manifest kind \<longleftrightarrow> List.member (ProvidedKinds manifest) kind"

record Module =
  mod_Manifest :: ModuleManifest
  mod_Directory :: bytes
  mod_ManifestPath :: bytes
  mod_Linked :: bool

section \<open>Names, platforms and artifact paths\<close>

definition nameChar :: "byte \<Rightarrow> bool" where
  "nameChar c \<longleftrightarrow> (let n = of_char c :: nat in
     (97 \<le> n \<and> n \<le> 122) \<or> (48 \<le> n \<and> n \<le> 57) \<or> c = CHR ''-'' \<or> c = CHR ''_'' \<or> c = CHR ''.'')"

definition normalizeModuleName :: "unicode \<Rightarrow> bytes \<Rightarrow> bytes res" where
  "normalizeModuleName uni name =
     (let canonical = ToLower uni (TrimSpace name); good = takeWhile nameChar canonical in
      if canonical = [] then Err (errorfIs ErrModuleManifestInvalid ''module name is required'')
      else if good \<noteq> canonical
      then Err (errorfIs ErrModuleManifestInvalid (''module name '' @ Quote uni name
             @ '' contains an unsupported character at byte '' @ FormatInt (int (length good))))
      else Ok canonical)"

primrec validateTokensLoop :: "unicode \<Rightarrow> bytes \<Rightarrow> bytes \<Rightarrow> bytes list \<Rightarrow> bytes list \<Rightarrow> unit res" where
  "validateTokensLoop uni moduleName label [] seen = Ok ()"
| "validateTokensLoop uni moduleName label (value # rest) seen =
     (if normalizeModuleName uni value \<noteq> Ok value
      then Err (errorfIs ErrModuleManifestInvalid
             (''module '' @ Quote uni moduleName @ '' has invalid '' @ label @ '' '' @ Quote uni value))
      else if List.member seen value
      then Err (errorfIs ErrModuleManifestInvalid
             (''module '' @ Quote uni moduleName @ '' declares '' @ label @ '' '' @ Quote uni value @ '' more than once''))
      else validateTokensLoop uni moduleName label rest (value # seen))"

definition validateModuleTokens :: "unicode \<Rightarrow> bytes \<Rightarrow> bytes \<Rightarrow> bytes list \<Rightarrow> unit res" where
  "validateModuleTokens uni moduleName label names = validateTokensLoop uni moduleName label names []"

definition platformChar :: "byte \<Rightarrow> bool" where
  "platformChar c \<longleftrightarrow> (let n = of_char c :: nat in
     (97 \<le> n \<and> n \<le> 122) \<or> (48 \<le> n \<and> n \<le> 57) \<or> c = CHR ''-'')"

definition validModulePlatform :: "unicode \<Rightarrow> bytes \<Rightarrow> bool" where
  "validModulePlatform uni platform \<longleftrightarrow>
     platform \<noteq> [] \<and> platform = ToLower uni platform \<and> length (filter (\<lambda>c. c = CHR ''-'') platform) = 1
       \<and> list_all platformChar platform"

definition safeModuleRelativePath :: "bytes \<Rightarrow> bool" where
  "safeModuleRelativePath name \<longleftrightarrow>
     \<not> (name = [] \<or> List.member name CHR 0x5C \<or> isAbs name) \<and>
     (let clean = Clean name in
      clean \<noteq> ''.'' \<and> clean \<noteq> ''..'' \<and> \<not> HasPrefix clean ''../'' \<and> clean = name)"

text \<open>\<open>hex.DecodeString\<close> succeeds.\<close>

definition isHex :: "bytes \<Rightarrow> bool" where
  "isHex s \<longleftrightarrow> even (length s) \<and> list_all (\<lambda>c. hexVal c \<noteq> None) s"

definition validateModuleArtifact :: "unicode \<Rightarrow> ModuleArtifact \<Rightarrow> unit res" where
  "validateModuleArtifact uni artifact =
     (if \<not> validModulePlatform uni (art_Platform artifact)
      then Err (errorsNew (''artifact platform '' @ Quote uni (art_Platform artifact) @ '' is invalid''))
      else if art_Kind artifact \<noteq> ModuleArtifactCShared \<and> art_Kind artifact \<noteq> ModuleArtifactExecutable
          \<and> art_Kind artifact \<noteq> ModuleArtifactNative
      then Err (errorsNew (''artifact kind '' @ Quote uni (art_Kind artifact) @ '' is unsupported''))
      else if \<not> safeModuleRelativePath (art_Path artifact)
      then Err (errorsNew (''artifact path '' @ Quote uni (art_Path artifact) @ '' must be a relative slash-separated path''))
      else if art_SHA256 artifact \<noteq> [] \<and> (length (art_SHA256 artifact) \<noteq> 64 \<or> \<not> isHex (art_SHA256 artifact))
      then Err (errorsNew (''artifact '' @ Quote uni (art_Path artifact) @ '' has an invalid SHA-256 checksum''))
      else if art_Kind artifact = ModuleArtifactNative \<and> TrimSpace (art_Symbol artifact) = []
      then Err (errorsNew (''native module artifact '' @ Quote uni (art_Path artifact) @ '' must name its initialization symbol''))
      else Ok ())"

definition moduleArtifactKindAllowed :: "bytes \<Rightarrow> bytes list \<Rightarrow> bool" where
  "moduleArtifactKindAllowed kind wanted \<longleftrightarrow> wanted = [] \<or> List.member wanted kind"

definition unicodeWhitespace :: "byte \<Rightarrow> bool" where
  "unicodeWhitespace c \<longleftrightarrow> (let n = of_char c :: nat in n = 32 \<or> (9 \<le> n \<and> n \<le> 13))"

text \<open>Driver names (\<open>backend.go\<close>).\<close>

definition normalizeDriverName :: "unicode \<Rightarrow> bytes \<Rightarrow> bytes res" where
  "normalizeDriverName uni name =
     (let canonical = ToLower uni (TrimSpace name); good = takeWhile nameChar canonical in
      if canonical = [] then Err (errorfIs ErrInvalidArgument ''storage driver is required'')
      else if good \<noteq> canonical
      then Err (errorfIs ErrInvalidArgument (''storage driver '' @ Quote uni name
             @ '' contains an unsupported character at byte '' @ FormatInt (int (length good))))
      else Ok canonical)"

definition ParseDriverName :: "unicode \<Rightarrow> bytes \<Rightarrow> bytes res" where
  "ParseDriverName uni name = normalizeDriverName uni name"

section \<open>Validation\<close>

text \<open>\<open>fmt.Errorf("%w: module %q rest", ErrModuleManifestInvalid, name)\<close>\<close>

definition manifestErr :: "unicode \<Rightarrow> bytes \<Rightarrow> bytes \<Rightarrow> goerror" where
  "manifestErr uni name rest = errorfIs ErrModuleManifestInvalid (''module '' @ Quote uni name @ rest)"

primrec validateKindsLoop :: "unicode \<Rightarrow> bytes \<Rightarrow> bytes list \<Rightarrow> bytes list \<Rightarrow> unit res" where
  "validateKindsLoop uni name [] seen = Ok ()"
| "validateKindsLoop uni name (kind # kinds) seen =
     (if kind \<noteq> ModuleKindEngine \<and> kind \<noteq> ModuleKindTransport
      then Err (manifestErr uni name ('' has unsupported kind '' @ Quote uni kind))
      else if List.member seen kind
      then Err (manifestErr uni name ('' declares kind '' @ Quote uni kind @ '' more than once''))
      else validateKindsLoop uni name kinds (kind # seen))"

primrec validateDependenciesLoop ::
  "unicode \<Rightarrow> bytes \<Rightarrow> ModuleDependency list \<Rightarrow> bytes list \<Rightarrow> unit res" where
  "validateDependenciesLoop uni name [] seen = Ok ()"
| "validateDependenciesLoop uni name (dependency # rest) seen =
     (let dep = dep_Name dependency in
      if normalizeModuleName uni dep \<noteq> Ok dep
      then Err (manifestErr uni name ('' has invalid dependency '' @ Quote uni dep))
      else if dep = name then Err (manifestErr uni name '' cannot depend on itself'')
      else if dep_ModuleABI dependency \<noteq> 0 \<and> dep_ModuleABI dependency \<noteq> ModuleABIVersion
      then Err (errorfIs ErrModuleIncompatible (''module '' @ Quote uni name @ '' dependency '' @ Quote uni dep
             @ '' requires module ABI '' @ FormatInt (dep_ModuleABI dependency)))
      else if List.member seen dep
      then Err (manifestErr uni name ('' declares dependency '' @ Quote uni dep @ '' more than once''))
      else validateDependenciesLoop uni name rest (dep # seen))"

definition artifactKey :: "ModuleArtifact \<Rightarrow> bytes" where
  "artifactKey artifact = art_Platform artifact @ CHR 0x00 # art_Kind artifact"

primrec validateArtifactsLoop :: "unicode \<Rightarrow> bytes \<Rightarrow> ModuleArtifact list \<Rightarrow> bytes list \<Rightarrow> unit res" where
  "validateArtifactsLoop uni name [] seen = Ok ()"
| "validateArtifactsLoop uni name (artifact # rest) seen =
     (case validateModuleArtifact uni artifact of
        Err e \<Rightarrow> Err (manifestErr uni name ('': '' @ err_text e))
      | Panic p \<Rightarrow> Panic p
      | Ok _ \<Rightarrow>
          if List.member seen (artifactKey artifact)
          then Err (manifestErr uni name ('' lists more than one '' @ art_Kind artifact @ '' artifact for '' @ art_Platform artifact))
          else validateArtifactsLoop uni name rest (artifactKey artifact # seen))"

definition validateShape :: "unicode \<Rightarrow> ModuleManifest \<Rightarrow> unit res" where
  "validateShape uni manifest =
     (if mm_SchemaVersion manifest = ModuleManifestVersion then
        (if mm_Kind manifest = [] \<or> mm_Kinds manifest \<noteq> []
         then Err (errorfIs ErrModuleManifestInvalid
                (''v1 module '' @ Quote uni (mm_Name manifest) @ '' requires only a singular kind''))
         else Ok ())
      else if mm_Kind manifest \<noteq> [] \<or> mm_Kinds manifest = []
      then Err (errorfIs ErrModuleManifestInvalid
             (''v2 module '' @ Quote uni (mm_Name manifest) @ '' requires kinds and no singular kind''))
      else Ok ())"

definition validateDriver :: "unicode \<Rightarrow> ModuleManifest \<Rightarrow> unit res" where
  "validateDriver uni manifest =
     (if Provides manifest ModuleKindEngine then
        (case ParseDriverName uni (mm_Driver manifest) of
           Err e \<Rightarrow> Err (manifestErr uni (mm_Name manifest) ('': '' @ err_text e))
         | Panic p \<Rightarrow> Panic p
         | Ok canonical \<Rightarrow>
             if mm_Driver manifest \<noteq> canonical
             then Err (manifestErr uni (mm_Name manifest)
                    ('' driver '' @ Quote uni (mm_Driver manifest) @ '' must be canonical '' @ Quote uni canonical))
             else Ok ())
      else if mm_Driver manifest \<noteq> []
      then Err (errorfIs ErrModuleManifestInvalid (''transport module '' @ Quote uni (mm_Name manifest)
             @ '' cannot select driver '' @ Quote uni (mm_Driver manifest)))
      else Ok ())"

definition Validate :: "unicode \<Rightarrow> ModuleManifest \<Rightarrow> unit res" where
  "Validate uni manifest = (let name = mm_Name manifest in
     if mm_SchemaVersion manifest \<noteq> ModuleManifestVersion
         \<and> mm_SchemaVersion manifest \<noteq> ModuleManifestMultiKindVersion
     then Err (manifestErr uni name ('' uses unsupported schema version '' @ FormatInt (mm_SchemaVersion manifest)))
     else bindR (normalizeModuleName uni name) (\<lambda>canonicalName.
       if name \<noteq> canonicalName
       then Err (errorfIs ErrModuleManifestInvalid
              (''module name '' @ Quote uni name @ '' must be canonical '' @ Quote uni canonicalName))
       else bindR (validateShape uni manifest) (\<lambda>_.
       bindR (validateKindsLoop uni name (ProvidedKinds manifest) []) (\<lambda>_.
       if TrimSpace (mm_Version manifest) = [] \<or> list_ex unicodeWhitespace (mm_Version manifest)
       then Err (manifestErr uni name '' must provide a non-whitespace version'')
       else if mm_ModuleABI manifest \<noteq> ModuleABIVersion
       then Err (errorfIs ErrModuleIncompatible (''module '' @ Quote uni name @ '' requires module ABI ''
              @ FormatInt (mm_ModuleABI manifest) @ '', host supports '' @ FormatInt ModuleABIVersion))
       else if TrimSpace (mm_License manifest) = []
       then Err (manifestErr uni name '' must declare a license'')
       else bindR (validateDriver uni manifest) (\<lambda>_.
       bindR (validateModuleTokens uni name ''capability'' (mm_Capabilities manifest)) (\<lambda>_.
       bindR (validateDependenciesLoop uni name (mm_Dependencies manifest) []) (\<lambda>_.
         validateArtifactsLoop uni name (mm_Artifacts manifest) [])))))))"

section \<open>Linked modules\<close>

type_synonym linkedModules = "(bytes \<times> ModuleManifest) list"

text \<open>\<open>cloneModuleManifest\<close> detaches the slices of a manifest; as a value the copy is the same.\<close>

definition cloneModuleManifest :: "ModuleManifest \<Rightarrow> ModuleManifest" where
  [simp]: "cloneModuleManifest manifest = manifest"

definition RegisterLinkedModule :: "unicode \<Rightarrow> ModuleManifest \<Rightarrow> (linkedModules, unit) op" where
  "RegisterLinkedModule uni manifest modules =
     (let manifest = manifest\<lparr>mm_Kind := canonicalModuleKind (mm_Kind manifest)\<rparr> in
      case Validate uni manifest of
        Err e \<Rightarrow> (Err e, modules)
      | Panic p \<Rightarrow> (Panic p, modules)
      | Ok _ \<Rightarrow>
          if map_of modules (mm_Name manifest) \<noteq> None
          then (Err (errorfIs ErrModuleConflict (Quote uni (mm_Name manifest))), modules)
          else (Ok (), AList.update (mm_Name manifest) (cloneModuleManifest manifest) modules))"

definition MustRegisterLinkedModule :: "unicode \<Rightarrow> ModuleManifest \<Rightarrow> (linkedModules, unit) op" where
  "MustRegisterLinkedModule uni manifest modules = (case RegisterLinkedModule uni manifest modules of
      (Err e, modules') \<Rightarrow> (Panic (err_text e), modules')
    | r \<Rightarrow> r)"

definition linkedAs :: "ModuleManifest \<Rightarrow> Module" where
  "linkedAs manifest = \<lparr>mod_Manifest = cloneModuleManifest manifest, mod_Directory = [], mod_ManifestPath = [], mod_Linked = True\<rparr>"

definition LinkedModules :: "linkedModules \<Rightarrow> Module list" where
  "LinkedModules modules = sort_key (\<lambda>m. mm_Name (mod_Manifest m)) (map (\<lambda>(_, manifest). linkedAs manifest) modules)"

definition LinkedModule :: "unicode \<Rightarrow> linkedModules \<Rightarrow> bytes \<Rightarrow> Module res" where
  "LinkedModule uni modules name =
     bindR (normalizeModuleName uni name) (\<lambda>canonical.
       case map_of modules canonical of
         None \<Rightarrow> Err (errorfIs ErrModuleNotInstalled (Quote uni canonical))
       | Some manifest \<Rightarrow> Ok (linkedAs manifest))"

section \<open>Reading a manifest\<close>

text \<open>
  Decoding of JSON into Go values of fixed types, with unknown fields disallowed. \<open>null\<close> leaves a
  value as it was and makes a slice nil; keys match field names without regard to case; a later
  member writes over an earlier one. \<open>None\<close> is any decoding error.
\<close>

definition decodeString :: "json \<Rightarrow> bytes \<Rightarrow> bytes option" where
  "decodeString v old = (case v of JStr s \<Rightarrow> Some s | JNull \<Rightarrow> Some old | _ \<Rightarrow> None)"

definition decodeInt :: "json \<Rightarrow> int \<Rightarrow> int option" where
  "decodeInt v old = (case v of
      JNum n \<Rightarrow> (case ParseInt 64 n of Inr i \<Rightarrow> Some i | Inl _ \<Rightarrow> None)
    | JNull \<Rightarrow> Some old
    | _ \<Rightarrow> None)"

primrec decodeElems :: "(json \<Rightarrow> 'a \<Rightarrow> 'a option) \<Rightarrow> 'a \<Rightarrow> json list \<Rightarrow> 'a list \<Rightarrow> 'a list option" where
  "decodeElems dec zero [] old = Some []"
| "decodeElems dec zero (v # vs) old = (case dec v (case old of o1 # _ \<Rightarrow> o1 | [] \<Rightarrow> zero) of
      None \<Rightarrow> None
    | Some x \<Rightarrow> map_option ((#) x) (decodeElems dec zero vs (tl old)))"

definition decodeSlice :: "(json \<Rightarrow> 'a \<Rightarrow> 'a option) \<Rightarrow> 'a \<Rightarrow> json \<Rightarrow> 'a list \<Rightarrow> 'a list option" where
  "decodeSlice dec zero v old = (case v of
      JArr vs \<Rightarrow> decodeElems dec zero vs old
    | JNull \<Rightarrow> Some []
    | _ \<Rightarrow> None)"

type_synonym 'r fieldDecoder = "bytes \<times> (json \<Rightarrow> 'r \<Rightarrow> 'r option)"

definition fieldFor :: "'r fieldDecoder list \<Rightarrow> bytes \<Rightarrow> (json \<Rightarrow> 'r \<Rightarrow> 'r option) option" where
  "fieldFor flds key = map_option snd (find (\<lambda>(name, _). EqualFold key (map upperByte name)) flds)"

primrec decodeMembers :: "'r fieldDecoder list \<Rightarrow> (bytes \<times> json) list \<Rightarrow> 'r \<Rightarrow> 'r option" where
  "decodeMembers flds [] r = Some r"
| "decodeMembers flds (m # ms) r = (case fieldFor flds (fst m) of
      None \<Rightarrow> None
    | Some dec \<Rightarrow> Option.bind (dec (snd m) r) (decodeMembers flds ms))"

definition decodeStruct :: "'r fieldDecoder list \<Rightarrow> json \<Rightarrow> 'r \<Rightarrow> 'r option" where
  "decodeStruct flds v old = (case v of
      JObj ms \<Rightarrow> decodeMembers flds ms old
    | JNull \<Rightarrow> Some old
    | _ \<Rightarrow> None)"

definition dependencyFields :: "ModuleDependency fieldDecoder list" where
  "dependencyFields = [
     (''name'', \<lambda>v r. map_option (\<lambda>x. r\<lparr>dep_Name := x\<rparr>) (decodeString v (dep_Name r))),
     (''module_abi'', \<lambda>v r. map_option (\<lambda>x. r\<lparr>dep_ModuleABI := x\<rparr>) (decodeInt v (dep_ModuleABI r)))]"

definition artifactFields :: "ModuleArtifact fieldDecoder list" where
  "artifactFields = [
     (''platform'', \<lambda>v r. map_option (\<lambda>x. r\<lparr>art_Platform := x\<rparr>) (decodeString v (art_Platform r))),
     (''kind'', \<lambda>v r. map_option (\<lambda>x. r\<lparr>art_Kind := x\<rparr>) (decodeString v (art_Kind r))),
     (''path'', \<lambda>v r. map_option (\<lambda>x. r\<lparr>art_Path := x\<rparr>) (decodeString v (art_Path r))),
     (''sha256'', \<lambda>v r. map_option (\<lambda>x. r\<lparr>art_SHA256 := x\<rparr>) (decodeString v (art_SHA256 r))),
     (''symbol'', \<lambda>v r. map_option (\<lambda>x. r\<lparr>art_Symbol := x\<rparr>) (decodeString v (art_Symbol r)))]"

definition zeroDependency :: ModuleDependency where
  "zeroDependency = \<lparr>dep_Name = [], dep_ModuleABI = 0\<rparr>"

definition zeroArtifact :: ModuleArtifact where
  "zeroArtifact = \<lparr>art_Platform = [], art_Kind = [], art_Path = [], art_SHA256 = [], art_Symbol = []\<rparr>"

definition zeroManifest :: ModuleManifest where
  "zeroManifest = \<lparr>mm_SchemaVersion = 0, mm_Name = [], mm_Kind = [], mm_Kinds = [], mm_Version = [], mm_ModuleABI = 0,
     mm_Driver = [], mm_Capabilities = [], mm_Dependencies = [], mm_Artifacts = [], mm_License = []\<rparr>"

definition manifestFields :: "ModuleManifest fieldDecoder list" where
  "manifestFields = [
     (''schema_version'', \<lambda>v r. map_option (\<lambda>x. r\<lparr>mm_SchemaVersion := x\<rparr>) (decodeInt v (mm_SchemaVersion r))),
     (''name'', \<lambda>v r. map_option (\<lambda>x. r\<lparr>mm_Name := x\<rparr>) (decodeString v (mm_Name r))),
     (''kind'', \<lambda>v r. map_option (\<lambda>x. r\<lparr>mm_Kind := x\<rparr>) (decodeString v (mm_Kind r))),
     (''kinds'', \<lambda>v r. map_option (\<lambda>x. r\<lparr>mm_Kinds := x\<rparr>) (decodeSlice decodeString [] v (mm_Kinds r))),
     (''version'', \<lambda>v r. map_option (\<lambda>x. r\<lparr>mm_Version := x\<rparr>) (decodeString v (mm_Version r))),
     (''module_abi'', \<lambda>v r. map_option (\<lambda>x. r\<lparr>mm_ModuleABI := x\<rparr>) (decodeInt v (mm_ModuleABI r))),
     (''driver'', \<lambda>v r. map_option (\<lambda>x. r\<lparr>mm_Driver := x\<rparr>) (decodeString v (mm_Driver r))),
     (''capabilities'', \<lambda>v r. map_option (\<lambda>x. r\<lparr>mm_Capabilities := x\<rparr>) (decodeSlice decodeString [] v (mm_Capabilities r))),
     (''dependencies'', \<lambda>v r. map_option (\<lambda>x. r\<lparr>mm_Dependencies := x\<rparr>)
        (decodeSlice (decodeStruct dependencyFields) zeroDependency v (mm_Dependencies r))),
     (''artifacts'', \<lambda>v r. map_option (\<lambda>x. r\<lparr>mm_Artifacts := x\<rparr>)
        (decodeSlice (decodeStruct artifactFields) zeroArtifact v (mm_Artifacts r))),
     (''license'', \<lambda>v r. map_option (\<lambda>x. r\<lparr>mm_License := x\<rparr>) (decodeString v (mm_License r)))]"

text \<open>
  \<open>decoder.Decode(&r)\<close>, then a second \<open>Decode\<close> that has to find the end of the input. \<open>Inl True\<close> is
  a text with more than one value, \<open>Inl False\<close> any other error.
\<close>

definition decodeDocument :: "'r fieldDecoder list \<Rightarrow> 'r \<Rightarrow> bytes \<Rightarrow> bool + 'r" where
  "decodeDocument flds zero data = (case decodeNext data of
      Decoded v rest \<Rightarrow> (case decodeStruct flds v zero of
          None \<Rightarrow> Inl False
        | Some r \<Rightarrow> if decodeNext rest = DecodeEOF then Inr r else Inl True)
    | _ \<Rightarrow> Inl False)"

definition readModuleAt :: "moduleHost \<Rightarrow> fileSystem \<Rightarrow> bytes \<Rightarrow> Module option res" where
  "readModuleAt host fs directory =
     (let uni = mh_uni host; manifestPath = filepathJoin [directory, ModuleManifestFilename] in
      case os_ReadFile fs manifestPath of
        Err e \<Rightarrow>
          if errors_Is e FsErrNotExist then Ok None
          else Err (errorfWrap (''kvlite: read module manifest '' @ Quote uni manifestPath @ '': '') e)
      | Panic p \<Rightarrow> Panic p
      | Ok data \<Rightarrow> (case decodeDocument manifestFields zeroManifest data of
            Inl False \<Rightarrow> Err (errorfIs ErrModuleManifestInvalid (Quote uni manifestPath @ '': '' @ mh_jsonError host data))
          | Inl True \<Rightarrow> Err (errorfIs ErrModuleManifestInvalid (Quote uni manifestPath @ '' contains multiple JSON values''))
          | Inr decoded \<Rightarrow>
              (let manifest = decoded\<lparr>mm_Kind := canonicalModuleKind (mm_Kind decoded)\<rparr> in
               case Validate uni manifest of
                 Err e \<Rightarrow> Err (errorfBoth ErrModuleManifestInvalid (Quote uni manifestPath) e)
               | Panic p \<Rightarrow> Panic p
               | Ok _ \<Rightarrow> Ok (Some \<lparr>mod_Manifest = cloneModuleManifest manifest, mod_Directory = directory,
                                 mod_ManifestPath = manifestPath, mod_Linked = False\<rparr>))))"

section \<open>The catalog\<close>

primrec nestedLoop :: "moduleHost \<Rightarrow> fileSystem \<Rightarrow> bytes \<Rightarrow> (bytes \<times> bool) list \<Rightarrow> Module list \<Rightarrow> Module list res" where
  "nestedLoop host fs child [] modules = Ok modules"
| "nestedLoop host fs child (entry # entries) modules =
     (if \<not> snd entry then nestedLoop host fs child entries modules
      else bindR (readModuleAt host fs (filepathJoin [child, fst entry])) (\<lambda>r.
        nestedLoop host fs child entries (case r of Some module \<Rightarrow> modules @ [module] | None \<Rightarrow> modules)))"

primrec entriesLoop :: "moduleHost \<Rightarrow> fileSystem \<Rightarrow> bytes \<Rightarrow> (bytes \<times> bool) list \<Rightarrow> Module list \<Rightarrow> Module list res" where
  "entriesLoop host fs root [] modules = Ok modules"
| "entriesLoop host fs root (entry # entries) modules =
     (let child = filepathJoin [root, fst entry] in
      if \<not> snd entry then entriesLoop host fs root entries modules
      else bindR (readModuleAt host fs child) (\<lambda>r. case r of
          Some module \<Rightarrow> entriesLoop host fs root entries (modules @ [module])
        | None \<Rightarrow>
            if fst entry \<noteq> ''drivers'' \<and> fst entry \<noteq> ''modules'' then entriesLoop host fs root entries modules
            else (case os_ReadDir fs child of
                Err e \<Rightarrow> Err (errorfWrap (''kvlite: read module path '' @ Quote (mh_uni host) child @ '': '') e)
              | Panic p \<Rightarrow> Panic p
              | Ok nested \<Rightarrow> bindR (nestedLoop host fs child nested modules) (entriesLoop host fs root entries))))"

definition discoverModulesAt :: "moduleHost \<Rightarrow> fileSystem \<Rightarrow> bytes \<Rightarrow> Module list res" where
  "discoverModulesAt host fs path =
     (if TrimSpace path = [] then Ok []
      else let root = Clean path; uni = mh_uni host in
        case os_Stat fs root of
          Err e \<Rightarrow>
            if errors_Is e FsErrNotExist then Ok []
            else Err (errorfWrap (''kvlite: inspect module path '' @ Quote uni root @ '': '') e)
        | Panic p \<Rightarrow> Panic p
        | Ok isDir \<Rightarrow>
            if \<not> isDir
            then Err (errorfIs ErrModuleManifestInvalid (''module path '' @ Quote uni root @ '' is not a directory''))
            else bindR (readModuleAt host fs root) (\<lambda>r. case r of
                Some module \<Rightarrow> Ok [module]
              | None \<Rightarrow> (case os_ReadDir fs root of
                    Err e \<Rightarrow> Err (errorfWrap (''kvlite: read module path '' @ Quote uni root @ '': '') e)
                  | Panic p \<Rightarrow> Panic p
                  | Ok entries \<Rightarrow> entriesLoop host fs root entries [])))"

primrec uniquePathsLoop :: "bytes list \<Rightarrow> bytes list \<Rightarrow> bytes list" where
  "uniquePathsLoop [] result = result"
| "uniquePathsLoop (path # paths) result =
     (let candidate = TrimSpace path in
      if candidate = [] then uniquePathsLoop paths result
      else if List.member result (Clean candidate) then uniquePathsLoop paths result
      else uniquePathsLoop paths (result @ [Clean candidate]))"

definition uniqueModulePaths :: "bytes list \<Rightarrow> bytes list" where
  "uniqueModulePaths paths = uniquePathsLoop paths []"

definition DefaultModulePaths :: "moduleHost \<Rightarrow> bytes list" where
  "DefaultModulePaths host =
     (let configured = mh_env host ''KVLITE_MODULE_PATH'';
          home = TrimSpace (mh_env host ''KVLITE_HOME'');
          system = mh_env host ''KVLITE_SYSTEM_MODULE_PATH''
      in uniqueModulePaths
        ((if configured \<noteq> [] then SplitList configured else [])
         @ (if home \<noteq> [] then [filepathJoin [home, ''modules''], filepathJoin [home, ''drivers'']] else [])
         @ (if system \<noteq> [] then SplitList system else [])))"

abbreviation moduleName :: "Module \<Rightarrow> bytes" where
  "moduleName m \<equiv> mm_Name (mod_Manifest m)"

text \<open>The map \<open>modules\<close> of \<open>DiscoverModules\<close> is the list of modules found so far, by distinct names.\<close>

primrec addModules :: "unicode \<Rightarrow> Module list \<Rightarrow> Module list \<Rightarrow> Module list res" where
  "addModules uni [] modules = Ok modules"
| "addModules uni (item # items) modules = (case find (\<lambda>m. moduleName m = moduleName item) modules of
      Some previous \<Rightarrow> Err (errorfIs ErrModuleConflict (''module '' @ Quote uni (moduleName item) @ '' appears in both ''
          @ Quote uni (mod_ManifestPath previous) @ '' and '' @ Quote uni (mod_ManifestPath item)))
    | None \<Rightarrow> addModules uni items (modules @ [item]))"

primrec discoverRoots :: "moduleHost \<Rightarrow> fileSystem \<Rightarrow> bytes list \<Rightarrow> Module list \<Rightarrow> Module list res" where
  "discoverRoots host fs [] modules = Ok modules"
| "discoverRoots host fs (root # roots) modules =
     bindR (discoverModulesAt host fs root) (\<lambda>items.
     bindR (addModules (mh_uni host) items modules) (discoverRoots host fs roots))"

definition DiscoverModules :: "moduleHost \<Rightarrow> fileSystem \<Rightarrow> bytes list \<Rightarrow> Module list res" where
  "DiscoverModules host fs paths =
     bindR (discoverRoots host fs (uniqueModulePaths (if paths = [] then DefaultModulePaths host else paths)) [])
       (\<lambda>modules. Ok (sort_key moduleName modules))"

definition FindInstalledModule :: "moduleHost \<Rightarrow> fileSystem \<Rightarrow> bytes \<Rightarrow> bytes list \<Rightarrow> Module res" where
  "FindInstalledModule host fs name paths =
     bindR (normalizeModuleName (mh_uni host) name) (\<lambda>canonical.
     bindR (DiscoverModules host fs paths) (\<lambda>modules.
       case find (\<lambda>m. moduleName m = canonical) modules of
         Some item \<Rightarrow> Ok item
       | None \<Rightarrow> Err (errorfIs ErrModuleNotInstalled (Quote (mh_uni host) canonical))))"

definition ResolveModule :: "moduleHost \<Rightarrow> fileSystem \<Rightarrow> linkedModules \<Rightarrow> bytes \<Rightarrow> bytes list \<Rightarrow> Module res" where
  "ResolveModule host fs linked name paths = (case FindInstalledModule host fs name paths of
      Err e \<Rightarrow> if errors_Is e ErrModuleNotInstalled then LinkedModule (mh_uni host) linked name else Err e
    | r \<Rightarrow> r)"

section \<open>Artifacts\<close>

definition ArtifactForCurrentPlatform :: "moduleHost \<Rightarrow> Module \<Rightarrow> bytes list \<Rightarrow> ModuleArtifact res" where
  "ArtifactForCurrentPlatform host module kinds =
     (case find (\<lambda>a. art_Platform a = mh_platform host \<and> moduleArtifactKindAllowed (art_Kind a) kinds)
             (mm_Artifacts (mod_Manifest module)) of
        Some artifact \<Rightarrow> Ok artifact
      | None \<Rightarrow> Err (errorfIs ErrModuleArtifactMissing
            (''module '' @ Quote (mh_uni host) (moduleName module) @ '' has no artifact for '' @ mh_platform host)))"

definition ArtifactPath :: "unicode \<Rightarrow> Module \<Rightarrow> ModuleArtifact \<Rightarrow> bytes res" where
  "ArtifactPath uni module artifact =
     (if mod_Directory module = []
      then Err (errorfIs ErrModuleArtifactMissing (''linked module '' @ Quote uni (moduleName module) @ '' has no on-disk artifact''))
      else bindR (validateModuleArtifact uni artifact) (\<lambda>_.
        Ok (filepathJoin [mod_Directory module, art_Path artifact])))"

text \<open>\<open>hex.EncodeToString\<close>\<close>

definition hexEncode :: "bytes \<Rightarrow> bytes" where
  "hexEncode s = concat (map (\<lambda>c. [hexDigit (of_char c div 16), hexDigit (of_char c mod 16)]) s)"

definition verifyArtifact :: "moduleHost \<Rightarrow> fileSystem \<Rightarrow> Module \<Rightarrow> ModuleArtifact \<Rightarrow> unit res" where
  "verifyArtifact host fs module artifact = (let uni = mh_uni host in
     bindR (ArtifactPath uni module artifact) (\<lambda>artifactPath.
       case os_Open fs artifactPath of
         Err e \<Rightarrow>
           if errors_Is e FsErrNotExist then Err (errorfIs ErrModuleArtifactMissing (Quote uni artifactPath))
           else Err (errorfWrap (''kvlite: read module artifact '' @ Quote uni artifactPath @ '': '') e)
       | Panic p \<Rightarrow> Panic p
       | Ok _ \<Rightarrow> (case file_ReadAll fs artifactPath of
             Err e \<Rightarrow> Err (errorfWrap (''kvlite: hash module artifact '' @ Quote uni artifactPath @ '': '') e)
           | Panic p \<Rightarrow> Panic p
           | Ok content \<Rightarrow> (case file_Close artifactPath fs of
                 Err e \<Rightarrow> Err (errorfWrap (''kvlite: close module artifact '' @ Quote uni artifactPath @ '': '') e)
               | Panic p \<Rightarrow> Panic p
               | Ok _ \<Rightarrow>
                   if art_SHA256 artifact = []
                   then Err (errorfIs ErrModuleIntegrity (Quote uni artifactPath @ '' has no SHA-256 checksum''))
                   else if \<not> EqualFold (art_SHA256 artifact) (map upperByte (hexEncode (mh_sha256 host content)))
                   then Err (errorfIs ErrModuleIntegrity (Quote uni artifactPath))
                   else Ok ()))))"

primrec verifyLoop :: "moduleHost \<Rightarrow> fileSystem \<Rightarrow> Module \<Rightarrow> ModuleArtifact list \<Rightarrow> unit res" where
  "verifyLoop host fs module [] = Ok ()"
| "verifyLoop host fs module (artifact # rest) =
     bindR (verifyArtifact host fs module artifact) (\<lambda>_. verifyLoop host fs module rest)"

definition Verify :: "moduleHost \<Rightarrow> fileSystem \<Rightarrow> Module \<Rightarrow> unit res" where
  "Verify host fs module =
     (if mod_Linked module then Ok ()
      else if mm_Artifacts (mod_Manifest module) = []
      then Err (errorfIs ErrModuleArtifactMissing
             (''module '' @ Quote (mh_uni host) (moduleName module) @ '' declares no packaged artifacts''))
      else verifyLoop host fs module (mm_Artifacts (mod_Manifest module)))"

definition ResolveModuleExecutable ::
  "moduleHost \<Rightarrow> fileSystem \<Rightarrow> linkedModules \<Rightarrow> bytes \<Rightarrow> bytes list \<Rightarrow> (Module \<times> ModuleArtifact) res" where
  "ResolveModuleExecutable host fs linked name paths = (let uni = mh_uni host in
     bindR (ResolveModule host fs linked name paths) (\<lambda>module.
       if mod_Linked module
       then Err (errorfIs ErrModuleNoExecutable (''module '' @ Quote uni (moduleName module) @ '' is linked into this process''))
       else (case ArtifactForCurrentPlatform host module [ModuleArtifactExecutable] of
           Err e \<Rightarrow> Err (errorfIs ErrModuleNoExecutable (''module '' @ Quote uni (moduleName module)))
         | Panic p \<Rightarrow> Panic p
         | Ok artifact \<Rightarrow> bindR (Verify host fs module) (\<lambda>_. Ok (module, artifact)))))"

end
