(* ===== verification/Backend.thy ===== *)
theory Backend
  imports Modules DB MemDriver
begin

text \<open>
  Storage drivers: the registry of linked drivers, the resolution of a configured driver, and the
  opening of a database (\<open>backend.go\<close>, \<open>Open\<close> and \<open>OpenWithEngine\<close> of \<open>db.go\<close>, \<open>WithDriver\<close> of
  \<open>options.go\<close>), with the manifest that binds a directory to its driver (\<open>backend_manifest.go\<close>).

  Every driver of a process keeps its state in the type \<open>'s\<close>. Opening a driver may create files. The
  Go side of the loaders of modules is modelled (\<open>driver_module_loader.go\<close>,
  \<open>native_module_loader.go\<close>); what \<open>dlopen\<close> and the loaded code do is a function of the process.
\<close>

section \<open>Drivers\<close>

record DriverOptions =
  opt_BlockCacheSize :: int
  opt_WriteBufferSize :: int
  opt_MaxWriteBuffers :: int
  opt_MaxBackgroundJobs :: int
  opt_RecordExpired :: "time \<Rightarrow> bytes \<Rightarrow> bool"

record DriverInfo =
  di_Driver :: bytes
  di_Backend :: bytes
  di_Implementation :: bytes
  di_Format :: bytes
  di_Version :: bytes
  di_Available :: bool
  di_PhysicalTTLCompacts :: bool

record 's Driver =
  drv_Info :: DriverInfo
  drv_Available :: "goerror option"
  drv_Open :: "bytes \<Rightarrow> DriverOptions \<Rightarrow> (fileSystem, 's Engine \<times> 's) op"

text \<open>The driver is nil for one that a module provides.\<close>

record 's registeredDriver =
  rd_driver :: "'s Driver option"
  rd_info :: DriverInfo

type_synonym 's driverRegistry = "(bytes \<times> 's registeredDriver) list"

definition RegisterDriver :: "unicode \<Rightarrow> 's Driver option \<Rightarrow> ('s driverRegistry, unit) op" where
  "RegisterDriver uni driver registry = (case driver of
      None \<Rightarrow> (Err (errorfIs ErrInvalidArgument ''storage driver is required''), registry)
    | Some d \<Rightarrow>
        (let info = drv_Info d; name = (if di_Driver info = [] then di_Backend info else di_Driver info) in
         case normalizeDriverName uni name of
           Err e \<Rightarrow> (Err e, registry)
         | Panic p \<Rightarrow> (Panic p, registry)
         | Ok canonical \<Rightarrow>
             if TrimSpace (di_Implementation info) = [] \<or> TrimSpace (di_Format info) = [] \<or> TrimSpace (di_Version info) = []
             then (Err (errorfIs ErrInvalidArgument (''driver '' @ Quote uni canonical
                     @ '' must provide implementation, format, and version metadata'')), registry)
             else if map_of registry canonical \<noteq> None
             then (Err (errorfIs ErrInvalidArgument (''storage driver '' @ Quote uni canonical @ '' is already registered'')), registry)
             else (Ok (), AList.update canonical
                     \<lparr>rd_driver = Some d, rd_info = info\<lparr>di_Driver := canonical, di_Backend := canonical\<rparr>\<rparr> registry)))"

definition MustRegisterDriver :: "unicode \<Rightarrow> 's Driver option \<Rightarrow> ('s driverRegistry, unit) op" where
  "MustRegisterDriver uni driver registry = (case RegisterDriver uni driver registry of
      (Err e, registry') \<Rightarrow> (Panic (err_text e), registry')
    | r \<Rightarrow> r)"

text \<open>
  \<open>info.Available = item.driver.Available() == nil\<close>. The driver of a registry entry is never nil,
  because \<open>RegisterDriver\<close> rejects nil.
\<close>

definition withAvailability :: "'s registeredDriver \<Rightarrow> DriverInfo" where
  "withAvailability item = (rd_info item)\<lparr>di_Available :=
     (case rd_driver item of Some d \<Rightarrow> drv_Available d = None | None \<Rightarrow> False)\<rparr>"

definition Drivers :: "'s driverRegistry \<Rightarrow> DriverInfo list" where
  "Drivers registry = map (\<lambda>(_, item). withAvailability item) (sort_key fst registry)"

definition registeredDriverFor :: "unicode \<Rightarrow> 's driverRegistry \<Rightarrow> bytes \<Rightarrow> (bytes \<times> 's registeredDriver) res" where
  "registeredDriverFor uni registry name =
     bindR (normalizeDriverName uni name) (\<lambda>canonical.
       case map_of registry canonical of
         None \<Rightarrow> Err (errorfIs ErrDriverNotInstalled (Quote uni canonical))
       | Some registered \<Rightarrow> Ok (canonical, registered))"

definition DriverInfoFor :: "unicode \<Rightarrow> 's driverRegistry \<Rightarrow> bytes \<Rightarrow> DriverInfo res" where
  "DriverInfoFor uni registry name =
     bindR (registeredDriverFor uni registry name) (\<lambda>(_, registered). Ok (withAvailability registered))"

definition DefaultDriver :: "unicode \<Rightarrow> 's driverRegistry \<Rightarrow> bytes" where
  "DefaultDriver uni registry = (case registeredDriverFor uni registry DriverRocksDB of
      Ok _ \<Rightarrow> DriverRocksDB
    | _ \<Rightarrow>
        (case filter (\<lambda>info. di_Driver info \<noteq> DriverMemory) (Drivers registry) of
           [info] \<Rightarrow> di_Driver info
         | [] \<Rightarrow> DriverMemory
         | _ \<Rightarrow> DriverRocksDB))"

definition driverOptions :: "'v config \<Rightarrow> DriverOptions" where
  "driverOptions cfg = \<lparr>opt_BlockCacheSize = cfg_blockCacheSize cfg, opt_WriteBufferSize = cfg_writeBufferSize cfg,
     opt_MaxWriteBuffers = cfg_maxWriteBuffers cfg, opt_MaxBackgroundJobs = cfg_maxBackgroundJobs cfg,
     opt_RecordExpired = (\<lambda>now record. envelopeExpired record now)\<rparr>"

definition WithDriver :: "unicode \<Rightarrow> bytes \<Rightarrow> 'v Option" where
  "WithDriver uni driver cfg =
     bindR (normalizeDriverName uni driver) (\<lambda>canonical. Ok (cfg\<lparr>cfg_driver := canonical, cfg_driverExplicit := True\<rparr>))"

definition WithBackend :: "unicode \<Rightarrow> bytes \<Rightarrow> 'v Option" where
  "WithBackend uni backend = WithDriver uni backend"

section \<open>The manifest of a database\<close>

definition backendManifestFile :: bytes where "backendManifestFile = ''KVLITE-MANIFEST.json''"
definition backendManifestVersion :: int where "backendManifestVersion = 1"

record backendManifest =
  bm_KVLiteFormatVersion :: int
  bm_Backend :: bytes
  bm_Driver :: bytes
  bm_DriverFormat :: bytes
  bm_DriverVersion :: bytes

definition zeroBackendManifest :: backendManifest where
  "zeroBackendManifest = \<lparr>bm_KVLiteFormatVersion = 0, bm_Backend = [], bm_Driver = [], bm_DriverFormat = [], bm_DriverVersion = []\<rparr>"

definition backendManifestFields :: "backendManifest fieldDecoder list" where
  "backendManifestFields = [
     (''kvlite_format_version'', \<lambda>v r. map_option (\<lambda>x. r\<lparr>bm_KVLiteFormatVersion := x\<rparr>) (decodeInt v (bm_KVLiteFormatVersion r))),
     (''backend'', \<lambda>v r. map_option (\<lambda>x. r\<lparr>bm_Backend := x\<rparr>) (decodeString v (bm_Backend r))),
     (''driver'', \<lambda>v r. map_option (\<lambda>x. r\<lparr>bm_Driver := x\<rparr>) (decodeString v (bm_Driver r))),
     (''driver_format'', \<lambda>v r. map_option (\<lambda>x. r\<lparr>bm_DriverFormat := x\<rparr>) (decodeString v (bm_DriverFormat r))),
     (''driver_version'', \<lambda>v r. map_option (\<lambda>x. r\<lparr>bm_DriverVersion := x\<rparr>) (decodeString v (bm_DriverVersion r)))]"

definition backendManifestJson :: "backendManifest \<Rightarrow> json" where
  "backendManifestJson m = JObj [
     (''kvlite_format_version'', JNum (FormatInt (bm_KVLiteFormatVersion m))),
     (''backend'', JStr (bm_Backend m)),
     (''driver'', JStr (bm_Driver m)),
     (''driver_format'', JStr (bm_DriverFormat m)),
     (''driver_version'', JStr (bm_DriverVersion m))]"

definition manifestPath :: "bytes \<Rightarrow> bytes" where
  "manifestPath path = filepathJoin [path, backendManifestFile]"

definition readBackendManifest :: "moduleHost \<Rightarrow> fileSystem \<Rightarrow> bytes \<Rightarrow> backendManifest option res" where
  "readBackendManifest host fs path = (case os_ReadFile fs (manifestPath path) of
      Err e \<Rightarrow>
        if errors_Is e FsErrNotExist then Ok None
        else Err (errorfWrap ''kvlite: read backend manifest: '' e)
    | Panic p \<Rightarrow> Panic p
    | Ok data \<Rightarrow> (case decodeDocument backendManifestFields zeroBackendManifest data of
          Inl False \<Rightarrow> Err (errorfIs ErrBackendManifestInvalid (mh_jsonError host data))
        | Inl True \<Rightarrow> Err (errorfIs ErrBackendManifestInvalid ''multiple JSON values'')
        | Inr manifest \<Rightarrow> Ok (Some manifest)))"

definition validateBackendManifest :: "unicode \<Rightarrow> backendManifest \<Rightarrow> 's registeredDriver \<Rightarrow> unit res" where
  "validateBackendManifest uni manifest driver = (let info = rd_info driver in
     if bm_KVLiteFormatVersion manifest \<noteq> backendManifestVersion \<or> bm_Backend manifest = [] \<or> bm_Driver manifest = []
        \<or> bm_DriverFormat manifest = [] \<or> bm_DriverVersion manifest = []
     then Err (errorfIs ErrBackendManifestInvalid (''expected format version '' @ FormatInt backendManifestVersion))
     else if bm_Backend manifest \<noteq> di_Backend info \<or> bm_Driver manifest \<noteq> di_Implementation info
        \<or> bm_DriverFormat manifest \<noteq> di_Format info
     then Err (errorfIs ErrBackendMismatch (''path was initialized for backend '' @ Quote uni (bm_Backend manifest)
            @ '' ('' @ bm_Driver manifest @ '' format '' @ bm_DriverFormat manifest @ ''), requested ''
            @ Quote uni (di_Backend info) @ '' ('' @ di_Implementation info @ '' format '' @ di_Format info @ '')''))
     else Ok ())"

definition manifestFor :: "'s registeredDriver \<Rightarrow> backendManifest" where
  "manifestFor driver = \<lparr>bm_KVLiteFormatVersion = backendManifestVersion, bm_Backend = di_Backend (rd_info driver),
     bm_Driver = di_Implementation (rd_info driver), bm_DriverFormat = di_Format (rd_info driver),
     bm_DriverVersion = di_Version (rd_info driver)\<rparr>"

text \<open>The encoder does not fail on this type.\<close>

definition createBackendManifest :: "moduleHost \<Rightarrow> bytes \<Rightarrow> 's registeredDriver \<Rightarrow> (fileSystem, unit) op" where
  "createBackendManifest host path driver fs =
     (let data = encodeJson (backendManifestJson (manifestFor driver)) @ [CHR 0x0A]; file = manifestPath path in
      case os_CreateExcl file fs of
        (Err e, fs') \<Rightarrow>
          if errors_Is e FsErrExist then
            (case readBackendManifest host fs' path of
               Err e' \<Rightarrow> (Err e', fs')
             | Panic p \<Rightarrow> (Panic p, fs')
             | Ok None \<Rightarrow> (Err (errorfIs ErrBackendManifestInvalid ''manifest disappeared while opening the database''), fs')
             | Ok (Some existing) \<Rightarrow> (validateBackendManifest (mh_uni host) existing driver, fs'))
          else (Err (errorfWrap ''kvlite: create backend manifest: '' e), fs')
      | (Panic p, fs') \<Rightarrow> (Panic p, fs')
      | (Ok _, fs') \<Rightarrow> (case file_Write file data fs' of
            ((written, Some e), fs'') \<Rightarrow> (Err (errorfWrap ''kvlite: write backend manifest: '' e), fs'')
          | ((written, None), fs'') \<Rightarrow>
              if written \<noteq> length data
              then (Err (errorfWrap ''kvlite: write backend manifest: '' (sentinelErr IoErrShortWrite)), fs'')
              else wrapE ''kvlite: sync backend manifest: '' (file_Sync file) fs''))"

definition errManifestMissing :: "unicode \<Rightarrow> bytes \<Rightarrow> 's registeredDriver \<Rightarrow> goerror" where
  "errManifestMissing uni path driver = errorfIs ErrBackendManifestMissing (Quote uni path @ '' is non-empty and has no ''
     @ backendManifestFile @ ''; migrate it into a new KVLite directory instead of selecting '' @ Quote uni (di_Backend (rd_info driver)))"

definition prepareBackendManifest :: "moduleHost \<Rightarrow> bytes \<Rightarrow> 's registeredDriver \<Rightarrow> bool \<Rightarrow> (fileSystem, bool) op" where
  "prepareBackendManifest host path driver allowLegacyRocksDB =
     bindE (wrapE ''kvlite: create database directory: '' (os_MkdirAll path)) (\<lambda>_ fs.
     bindE (liftR (readBackendManifest host fs path)) (\<lambda>r.
       case r of
         Some manifest \<Rightarrow> bindE (liftR (validateBackendManifest (mh_uni host) manifest driver)) (\<lambda>_. ret False)
       | None \<Rightarrow>
           bindE (wrapE ''kvlite: inspect database directory: '' (\<lambda>fs. (os_ReadDir fs path, fs))) (\<lambda>entries.
             if entries = [] then bindE (createBackendManifest host path driver) (\<lambda>_. ret False)
             else if allowLegacyRocksDB then ret True
             else throw (errManifestMissing (mh_uni host) path driver))) fs)"

definition createBackendManifestIfNotExists :: "moduleHost \<Rightarrow> bytes \<Rightarrow> 's registeredDriver \<Rightarrow> (fileSystem, unit) op" where
  "createBackendManifestIfNotExists host path fromModule fs =
     bindE (liftR (readBackendManifest host fs path)) (\<lambda>r.
       case r of
         Some _ \<Rightarrow> ret ()
       | None \<Rightarrow>
           bindE (wrapE ''kvlite: inspect database directory: '' (\<lambda>fs. (os_ReadDir fs path, fs))) (\<lambda>entries.
             if entries \<noteq> [] then throw (errManifestMissing (mh_uni host) path fromModule)
             else createBackendManifest host path fromModule)) fs"

section \<open>Resolving a driver\<close>

text \<open>
  What a native module registers when it is initialised, with its \<open>open\<close> operation.
\<close>

record 's nativeRegistration =
  nr_name :: bytes
  nr_version :: bytes
  nr_driver :: bytes
  nr_capabilities :: bytes
  nr_open :: "bytes \<Rightarrow> (fileSystem, 's Engine \<times> 's) op"

text \<open>
  What a process has: its surroundings, its files, the modules and the drivers linked into it, the
  native modules it has loaded, by directory, and the dynamic linker: \<open>ps_openShared\<close> loads a
  C-shared library and opens a path with a driver of it, \<open>ps_loadNative\<close> loads a native module and
  gives the registrations of its initialisation, or the text of an error.
\<close>

record 's process =
  ps_host :: moduleHost
  ps_files :: fileSystem
  ps_linked :: linkedModules
  ps_drivers :: "'s driverRegistry"
  ps_native :: "(bytes \<times> 's registeredDriver) list"
  ps_openShared :: "bytes \<Rightarrow> bytes \<Rightarrow> bytes \<Rightarrow> (fileSystem, 's Engine \<times> 's) op"
  ps_loadNative :: "bytes \<Rightarrow> fileSystem \<Rightarrow> (bytes + 's nativeRegistration list) \<times> fileSystem"

abbreviation ps_uni :: "'s process \<Rightarrow> unicode" where
  "ps_uni proc \<equiv> mh_uni (ps_host proc)"

definition onFiles :: "(fileSystem, 'a) op \<Rightarrow> ('s process, 'a) op" where
  "onFiles m proc = (case m (ps_files proc) of (r, fs) \<Rightarrow> (r, proc\<lparr>ps_files := fs\<rparr>))"

definition onDrivers :: "('s driverRegistry, 'a) op \<Rightarrow> ('s process, 'a) op" where
  "onDrivers m proc = (case m (ps_drivers proc) of (r, drivers) \<Rightarrow> (r, proc\<lparr>ps_drivers := drivers\<rparr>))"

primrec selectDriverModule :: "unicode \<Rightarrow> bytes \<Rightarrow> Module list \<Rightarrow> Module option \<Rightarrow> Module option res" where
  "selectDriverModule uni name [] selected = Ok selected"
| "selectDriverModule uni name (m # modules) selected =
     (if \<not> Provides (mod_Manifest m) ModuleKindEngine \<or> mm_Driver (mod_Manifest m) \<noteq> name
      then selectDriverModule uni name modules selected
      else (case selected of
          Some s \<Rightarrow> Err (errorfIs ErrModuleConflict (''driver '' @ Quote uni name @ '' is provided by both ''
              @ Quote uni (moduleName s) @ '' and '' @ Quote uni (moduleName m)))
        | None \<Rightarrow> selectDriverModule uni name modules (Some m)))"

definition resolveModuleForDriver :: "'s process \<Rightarrow> bytes \<Rightarrow> Module res" where
  "resolveModuleForDriver proc name = (let uni = mh_uni (ps_host proc) in
     bindR (DiscoverModules (ps_host proc) (ps_files proc) []) (\<lambda>installed.
     bindR (selectDriverModule uni name installed None) (\<lambda>r.
       case r of
         Some m \<Rightarrow> Ok m
       | None \<Rightarrow>
           bindR (selectDriverModule uni name (LinkedModules (ps_linked proc)) None) (\<lambda>r.
             case r of
               Some m \<Rightarrow> Ok m
             | None \<Rightarrow> Err (errorfIs ErrModuleNotInstalled (''driver '' @ Quote uni name))))))"

definition notLoadedAdapter :: "unicode \<Rightarrow> bytes \<Rightarrow> goerror \<Rightarrow> goerror" where
  "notLoadedAdapter uni name e = errorfIs ErrDriverNotLoaded (''installed driver '' @ Quote uni name
     @ '' is available, but this binary did not load its adapter: '' @ err_text e)"

definition cannotBeLoaded :: "unicode \<Rightarrow> bytes \<Rightarrow> goerror \<Rightarrow> goerror" where
  "cannotBeLoaded uni name e = errorfIs ErrDriverNotLoaded (''installed driver '' @ Quote uni name
     @ '' cannot be loaded: '' @ err_text e)"

definition mapErr :: "(goerror \<Rightarrow> goerror) \<Rightarrow> 'a res \<Rightarrow> 'a res" where
  "mapErr f r = (case r of Err e \<Rightarrow> Err (f e) | _ \<Rightarrow> r)"

definition resolveLinkedDriverOrReportModule ::
  "'s process \<Rightarrow> bytes \<Rightarrow> (bytes \<times> 's registeredDriver) res" where
  "resolveLinkedDriverOrReportModule proc name = (let uni = mh_uni (ps_host proc) in
     case registeredDriverFor uni (ps_drivers proc) name of
       Err e \<Rightarrow>
         if \<not> errors_Is e ErrDriverNotInstalled then Err e
         else (case resolveModuleForDriver proc name of
             Err e' \<Rightarrow> Err (if errors_Is e' ErrModuleNotInstalled then e else e')
           | Panic p \<Rightarrow> Panic p
           | Ok m \<Rightarrow>
               bindR (mapErr (notLoadedAdapter uni name)
                   (ArtifactForCurrentPlatform (ps_host proc) m [ModuleArtifactCShared, ModuleArtifactExecutable])) (\<lambda>_.
                 Err (errorfIs ErrDriverNotLoaded (''installed driver '' @ Quote uni name @ '' has a runtime module at ''
                   @ moduleName m @ '' that is not linked into this process''))))
     | r \<Rightarrow> r)"

definition resolveModuleDriver :: "'s process \<Rightarrow> bytes \<Rightarrow> Module res" where
  "resolveModuleDriver proc name = (let host = ps_host proc; uni = mh_uni host in
     bindR (resolveModuleForDriver proc name) (\<lambda>m.
     bindR (mapErr (notLoadedAdapter uni name) (ArtifactForCurrentPlatform host m [ModuleArtifactCShared])) (\<lambda>_.
     bindR (mapErr (cannotBeLoaded uni name) (Verify host (ps_files proc) m)) (\<lambda>_. Ok m))))"

definition initSymbol :: bytes where "initSymbol = ''kvlite_module_init_v1''"

definition errInitSymbol :: "unicode \<Rightarrow> Module \<Rightarrow> ModuleArtifact \<Rightarrow> goerror" where
  "errInitSymbol uni m artifact = errorfIs ErrModuleIncompatible (''native module '' @ Quote uni (moduleName m)
     @ '' names initialization symbol '' @ Quote uni (art_Symbol artifact) @ '', want '' @ Quote uni initSymbol)"

definition resolveNativeModuleDriver :: "'s process \<Rightarrow> bytes \<Rightarrow> Module res" where
  "resolveNativeModuleDriver proc name = (let host = ps_host proc; uni = mh_uni host in
     bindR (resolveModuleForDriver proc name) (\<lambda>m.
     bindR (mapErr (\<lambda>e. errorfIs ErrDriverNotLoaded (''installed driver '' @ Quote uni name
               @ '' has no native-module artifact for this platform: '' @ err_text e))
         (ArtifactForCurrentPlatform host m [ModuleArtifactNative])) (\<lambda>artifact.
       if art_Symbol artifact \<noteq> initSymbol
       then Err (errInitSymbol uni m artifact)
       else bindR (mapErr (cannotBeLoaded uni name) (Verify host (ps_files proc) m)) (\<lambda>_. Ok m))))"

definition manifestVersionOf :: "Module \<Rightarrow> bytes" where
  "manifestVersionOf m = (let version = TrimSpace (mm_Version (mod_Manifest m)) in if version = [] then ''unknown'' else version)"

definition moduleDriverInfo :: "bytes \<Rightarrow> Module \<Rightarrow> DriverInfo" where
  "moduleDriverInfo driver m = \<lparr>di_Driver = driver, di_Backend = driver, di_Implementation = moduleName m,
     di_Format = manifestVersionOf m, di_Version = manifestVersionOf m, di_Available = True, di_PhysicalTTLCompacts = False\<rparr>"

definition driverFromModule :: "unicode \<Rightarrow> Module \<Rightarrow> 's registeredDriver res" where
  "driverFromModule uni m =
     bindR (normalizeDriverName uni (mm_Driver (mod_Manifest m))) (\<lambda>driver.
       Ok \<lparr>rd_driver = None, rd_info = moduleDriverInfo driver m\<rparr>)"

section \<open>Loading modules\<close>

definition openModuleDriver :: "bytes \<Rightarrow> Module \<Rightarrow> DriverOptions \<Rightarrow> ('s process, 's Engine \<times> 's) op" where
  "openModuleDriver path m options proc =
     bindE (liftR (wrapRes ''kvlite: open module artifact: '' (ArtifactForCurrentPlatform (ps_host proc) m [ModuleArtifactCShared]))) (\<lambda>artifact.
     bindE (liftR (wrapRes ''kvlite: module artifact path: '' (ArtifactPath (ps_uni proc) m artifact))) (\<lambda>artifactPath.
       onFiles (ps_openShared proc artifactPath path (mm_Driver (mod_Manifest m))))) proc"

record 's nativeModuleRegistration =
  nmr_name :: bytes
  nmr_version :: bytes
  nmr_driver :: bytes
  nmr_capabilities :: "bytes list"
  nmr_ops :: "bytes \<Rightarrow> (fileSystem, 's Engine \<times> 's) op"

text \<open>\<open>None\<close> is a registration that is skipped. The table of operations stays beside its registration.\<close>

definition readNativeRegistration :: "unicode \<Rightarrow> 's nativeRegistration \<Rightarrow> 's nativeModuleRegistration option" where
  "readNativeRegistration uni r = (let name = ToLower uni (TrimSpace (nr_name r)) in
     case normalizeDriverName uni (nr_driver r) of
       Ok driver \<Rightarrow>
         if name = [] then None
         else Some \<lparr>nmr_name = name, nmr_version = TrimSpace (nr_version r), nmr_driver = driver,
           nmr_capabilities = filter (\<lambda>c. c \<noteq> [])
             (map (\<lambda>c. ToLower uni (TrimSpace c)) (splitOn CHR '','' (nr_capabilities r))),
           nmr_ops = nr_open r\<rparr>
     | _ \<Rightarrow> None)"

definition readNativeRegistrations :: "unicode \<Rightarrow> 's nativeRegistration list \<Rightarrow> 's nativeModuleRegistration list" where
  "readNativeRegistrations uni rs = List.map_filter (readNativeRegistration uni) rs"

definition validateNativeCapabilities :: "unicode \<Rightarrow> ModuleManifest \<Rightarrow> 's nativeModuleRegistration \<Rightarrow> unit res" where
  "validateNativeCapabilities uni manifest registration =
     (case find (\<lambda>c. \<not> List.member (nmr_capabilities registration) c) (''embedded-storage'' # mm_Capabilities manifest) of
        None \<Rightarrow> Ok ()
      | Some c \<Rightarrow> Err (errorfIs ErrModuleIncompatible (''native module '' @ Quote uni (mm_Name manifest) @ '' registered driver ''
            @ Quote uni (nmr_driver registration) @ '' without declared capability '' @ Quote uni c)))"

definition loadNativeModuleLibrary :: "Module \<Rightarrow> bytes \<Rightarrow> ('s process, 's nativeModuleRegistration) op" where
  "loadNativeModuleLibrary m wanted proc = (let uni = ps_uni proc in
     bindE (liftR (wrapRes ''kvlite: open native module artifact: '' (ArtifactForCurrentPlatform (ps_host proc) m [ModuleArtifactNative]))) (\<lambda>artifact.
       if art_Symbol artifact \<noteq> initSymbol then throw (errInitSymbol uni m artifact)
       else bindE (liftR (wrapRes ''kvlite: native module artifact path: '' (ArtifactPath uni m artifact))) (\<lambda>artifactPath proc.
         case ps_loadNative proc artifactPath (ps_files proc) of
           (Inl message, fs) \<Rightarrow>
             (Err (errorfIs ErrDriverNotLoaded (if message = [] then ''unable to load native module'' else message)),
              proc\<lparr>ps_files := fs\<rparr>)
         | (Inr rs, fs) \<Rightarrow>
             (case find (\<lambda>r. nmr_driver r = wanted) (readNativeRegistrations uni rs) of
                None \<Rightarrow> Err (errorfIs ErrModuleIncompatible (''native module '' @ Quote uni (moduleName m)
                     @ '' did not register driver '' @ Quote uni wanted))
              | Some selected \<Rightarrow> bindR (validateNativeCapabilities uni (mod_Manifest m) selected) (\<lambda>_. Ok selected),
              proc\<lparr>ps_files := fs\<rparr>))) proc)"

definition nativeModuleDriver :: "DriverInfo \<Rightarrow> 's nativeModuleRegistration \<Rightarrow> 's Driver" where
  "nativeModuleDriver info registration = \<lparr>drv_Info = info, drv_Available = None, drv_Open = (\<lambda>path _. nmr_ops registration path)\<rparr>"

definition openNativeModuleDriver :: "bytes \<Rightarrow> Module \<Rightarrow> DriverOptions \<Rightarrow> ('s process, 's Engine \<times> 's) op" where
  "openNativeModuleDriver path m options proc = (let uni = ps_uni proc in
     case map_of (ps_native proc) (mod_Directory m) of
       Some registered \<Rightarrow> (case rd_driver registered of
           Some driver \<Rightarrow> onFiles (drv_Open driver path options) proc
         | None \<Rightarrow> panic ''nil pointer dereference'' proc)
     | None \<Rightarrow>
         bindE (liftR (normalizeDriverName uni (mm_Driver (mod_Manifest m)))) (\<lambda>wanted.
         bindE (loadNativeModuleLibrary m wanted) (\<lambda>library.
           let info = moduleDriverInfo wanted m; driver = nativeModuleDriver info library in
           bindE (wrapE (''kvlite: register native driver '' @ Quote uni wanted @ '': '') (onDrivers (RegisterDriver uni (Some driver)))) (\<lambda>_ proc.
             onFiles (drv_Open driver path options)
               (proc\<lparr>ps_native := AList.update (mod_Directory m) \<lparr>rd_driver = Some driver, rd_info = info\<rparr> (ps_native proc)\<rparr>)))) proc)"

section \<open>Opening\<close>

text \<open>
  The three branches of \<open>openConfiguredEngine\<close>. A storage engine that is closed because the manifest
  cannot be written is not seen again, and its state is dropped.
\<close>

definition openLinked :: "bytes \<Rightarrow> 'v config \<Rightarrow> bytes \<Rightarrow> 's registeredDriver \<Rightarrow> ('s process, ('s Engine \<times> 's) \<times> bytes) op" where
  "openLinked path cfg name registered proc = (let host = ps_host proc in
     case rd_driver registered of
       None \<Rightarrow> panic ''nil pointer dereference''
     | Some driver \<Rightarrow> (case drv_Available driver of
           Some e \<Rightarrow> throw (errorfWrap (''kvlite: open driver '' @ Quote (mh_uni host) name @ '': '') e)
         | None \<Rightarrow> onFiles (
             bindE (prepareBackendManifest host path registered (\<not> cfg_driverExplicit cfg \<and> name = DriverRocksDB)) (\<lambda>legacyManifest.
             bindE (drv_Open driver path (driverOptions cfg)) (\<lambda>storage.
             bindE (if legacyManifest then createBackendManifest host path registered else ret ()) (\<lambda>_.
               ret (storage, name))))))) proc"

definition openModule :: "bytes \<Rightarrow> 'v config \<Rightarrow> Module \<Rightarrow> ('s process, ('s Engine \<times> 's) \<times> bytes) op" where
  "openModule path cfg m proc = (let host = ps_host proc in
     bindE (liftR (driverFromModule (mh_uni host) m)) (\<lambda>fromModule.
     bindE (openModuleDriver path m (driverOptions cfg)) (\<lambda>storage.
     bindE (onFiles (createBackendManifestIfNotExists host path (fromModule :: 's registeredDriver))) (\<lambda>_.
       ret (storage, di_Driver (rd_info fromModule)))))) proc"

definition openNativeModule :: "bytes \<Rightarrow> 'v config \<Rightarrow> Module \<Rightarrow> ('s process, ('s Engine \<times> 's) \<times> bytes) op" where
  "openNativeModule path cfg m proc = (let host = ps_host proc in
     bindE (liftR (driverFromModule (mh_uni host) m)) (\<lambda>fromModule.
     bindE (openNativeModuleDriver path m (driverOptions cfg)) (\<lambda>storage.
     bindE (wrapE ''kvlite: create database directory: '' (onFiles (os_MkdirAll path))) (\<lambda>_.
     bindE (onFiles (createBackendManifestIfNotExists host path (fromModule :: 's registeredDriver))) (\<lambda>_.
       ret (storage, di_Driver (rd_info fromModule))))))) proc"

definition openConfiguredEngine :: "bytes \<Rightarrow> 'v config \<Rightarrow> ('s process, ('s Engine \<times> 's) \<times> bytes) op" where
  "openConfiguredEngine path cfg proc =
     (case resolveLinkedDriverOrReportModule proc (cfg_driver cfg) of
        Ok (name, registered) \<Rightarrow> openLinked path cfg name registered proc
      | Panic p \<Rightarrow> (Panic p, proc)
      | Err e \<Rightarrow>
          if \<not> errors_Is e ErrDriverNotInstalled \<and> \<not> errors_Is e ErrDriverNotLoaded then (Err e, proc)
          else (case resolveModuleDriver proc (cfg_driver cfg) of
              Ok m \<Rightarrow> openModule path cfg m proc
            | Panic p \<Rightarrow> (Panic p, proc)
            | Err moduleErr \<Rightarrow> (case resolveNativeModuleDriver proc (cfg_driver cfg) of
                  Ok m \<Rightarrow> openNativeModule path cfg m proc
                | Panic p \<Rightarrow> (Panic p, proc)
                | Err nativeErr \<Rightarrow>
                    (Err (if \<not> errors_Is nativeErr ErrModuleNotInstalled then nativeErr
                          else if \<not> errors_Is moduleErr ErrModuleNotInstalled then moduleErr
                          else errorfIs ErrDriverNotInstalled (Quote (ps_uni proc) (cfg_driver cfg))), proc))))"

definition Open :: "'v Codec \<Rightarrow> clock \<Rightarrow> bytes \<Rightarrow> 'v Option option list \<Rightarrow> ('s process, ('s, 'v) DB) op" where
  "Open json clock path options =
     (if path = [] then throw (errorfIs ErrInvalidArgument ''database path is required'')
      else bindE (liftR (buildConfig json clock options)) (\<lambda>cfg.
        bindE (openConfiguredEngine path cfg) (\<lambda>((storage, state), backend).
          ret (newDB storage state cfg backend))))"

text \<open>A nil engine is \<open>None\<close>.\<close>

definition OpenWithEngine ::
  "unicode \<Rightarrow> 'v Codec \<Rightarrow> clock \<Rightarrow> ('s Engine \<times> 's) option \<Rightarrow> bytes \<Rightarrow> 'v Option option list \<Rightarrow> ('s, 'v) DB res" where
  "OpenWithEngine uni json clock storage backend options = (case storage of
      None \<Rightarrow> Err (errorfIs ErrInvalidArgument ''storage engine is required'')
    | Some (engine, state) \<Rightarrow>
        bindR (ParseDriverName uni backend) (\<lambda>canonicalBackend.
        bindR (buildConfig json clock options) (\<lambda>cfg.
          Ok ((newDB engine state cfg canonicalBackend)\<lparr>db_remote := True\<rparr>))))"

section \<open>The memory driver\<close>

definition memoryDriver_Info :: DriverInfo where
  "memoryDriver_Info = \<lparr>di_Driver = DriverMemory, di_Backend = DriverMemory, di_Implementation = ''memory'',
     di_Format = ''memory-v1'', di_Version = ''v1.0.0'', di_Available = False, di_PhysicalTTLCompacts = False\<rparr>"

definition memoryDriver_Driver :: "memoryDriverEngine Driver" where
  "memoryDriver_Driver = \<lparr>drv_Info = memoryDriver_Info, drv_Available = None,
     drv_Open = (\<lambda>path options. ret (memoryDriver, memoryDriver_Open))\<rparr>"

definition memoryModule :: ModuleManifest where
  "memoryModule = zeroManifest\<lparr>mm_SchemaVersion := ModuleManifestVersion, mm_Name := DriverMemory,
     mm_Kind := ModuleKindEngine, mm_Version := ''v0.1.0'', mm_ModuleABI := ModuleABIVersion, mm_Driver := DriverMemory,
     mm_Capabilities := [''embedded-storage'', ''ephemeral''], mm_License := ''Apache-2.0''\<rparr>"

text \<open>The initialisation of the package, on the two registries of the process.\<close>

definition initMemory :: "unicode \<Rightarrow> (memoryDriverEngine driverRegistry \<times> linkedModules, unit) op" where
  "initMemory uni st = (case MustRegisterDriver uni (Some memoryDriver_Driver) (fst st) of
      (Ok _, drivers) \<Rightarrow> (case MustRegisterLinkedModule uni memoryModule (snd st) of (r, linked) \<Rightarrow> (r, (drivers, linked)))
    | (r, drivers) \<Rightarrow> (r, (drivers, snd st)))"

end
