(* ===== verification/JsonProps.thy ===== *)
theory JsonProps
  imports Json RESPProps
begin

text \<open>
  The JSON scanner inverts the encoder: strings come back as they were, except that bytes outside
  UTF-8 are replaced, and values built from them come back whole.
\<close>

section \<open>Runes of valid strings\<close>

lemma contByteE: "contByte b \<Longrightarrow> (\<And>y. b = 0x80 + y \<Longrightarrow> y < 64 \<Longrightarrow> P) \<Longrightarrow> P"
  by (auto simp: contByte_def dest!: le_Suc_ex)

lemma char_of_eqI: "of_char c = n \<Longrightarrow> char_of (n :: nat) = c"
  by auto

lemma DecodeRune_encode:
  assumes "DecodeRune s = (r, n)" "(r, n) \<noteq> (RuneError, 1)" "s \<noteq> []"
  shows "take n s = EncodeRune r \<and> n = length (EncodeRune r)"
proof -
  obtain c0 s1 where s: "s = c0 # s1" using assms(3) by (cases s) auto
  define a where "a = (of_char c0 :: nat)"
  have c0: "char_of a = c0" by (simp add: a_def)
  have a256: "a < 256" unfolding a_def using of_char_mod_256 [of c0, where 'a = nat] by (metis mod_less_divisor zero_less_numeral)
  consider "a < 0x80" | "0xC2 \<le> a" "a \<le> 0xDF" | "0xE0 \<le> a" "a \<le> 0xEF" | "0xF0 \<le> a" "a \<le> 0xF4"
    | "\<not> a < 0x80" "\<not> (0xC2 \<le> a \<and> a \<le> 0xF4)" by linarith
  then show ?thesis
  proof cases
    case 1
    then have "r = a" "n = 1" using assms(1) by (simp_all add: DecodeRune_def s a_def)
    then show ?thesis using 1 c0 by (simp add: EncodeRune_def s)
  next
    case 2
    then obtain c1 s2 where s1: "s1 = c1 # s2" using assms(1,2) by (cases s1) (auto simp: DecodeRune_def s a_def)
    define b where "b = (of_char c1 :: nat)"
    have c1: "char_of b = c1" by (simp add: b_def)
    have cont: "contByte b" and r: "r = (a - 0xC0) * 64 + (b - 0x80)" "n = 2"
      using 2 assms(1,2) by (auto simp: DecodeRune_def s s1 a_def b_def split: if_splits)
    from cont obtain y where y: "b = 0x80 + y" "y < 64" by (rule contByteE)
    obtain x where x: "a = 0xC0 + x" "2 \<le> x" "x < 32" using 2 by (auto dest!: le_Suc_ex)
    have r': "r = x * 64 + y" using r x y by simp
    then have "\<not> r < 128" "r < 2048" "r div 64 = x" "r mod 64 = y" using x(2,3) y(2) by simp_all
    then show ?thesis using c0 c1 x(1) y(1) r(2) by (simp add: EncodeRune_def s s1)
  next
    case 3
    then have "s1 \<noteq> [] \<and> tl s1 \<noteq> []" using assms(1,2)
      by (cases s1; cases "tl s1") (auto simp: DecodeRune_def s a_def)
    then obtain c1 c2 s2 where s1: "s1 = c1 # c2 # s2" by (cases s1; cases "tl s1") auto
    define b c where "b = (of_char c1 :: nat)" and "c = (of_char c2 :: nat)"
    have c12: "char_of b = c1" "char_of c = c2" by (simp_all add: b_def c_def)
    have cont: "contByte b" "contByte c" "a = 0xE0 \<longrightarrow> 0xA0 \<le> b" "a = 0xED \<longrightarrow> b \<le> 0x9F"
      and r: "r = (a - 0xE0) * 4096 + (b - 0x80) * 64 + (c - 0x80)" "n = 3"
      using 3 assms(1,2) by (auto simp: DecodeRune_def s s1 a_def b_def c_def split: if_splits)
    from cont(1) obtain y where y: "b = 0x80 + y" "y < 64" by (rule contByteE)
    from cont(2) obtain z where z: "c = 0x80 + z" "z < 64" by (rule contByteE)
    obtain x where x: "a = 0xE0 + x" "x < 16" using 3 by (auto dest!: le_Suc_ex)
    have lim: "x = 0 \<longrightarrow> 32 \<le> y" "x = 13 \<longrightarrow> y < 32" using cont(3,4) x y by auto
    have r': "r = x * 4096 + y * 64 + z" using r x y z by simp
    have "r < 0x10000" "r div 4096 = x" and d64: "r div 64 = x * 64 + y"
      unfolding r' using x(2) y(2) z(2) by ((intro div_nat_eqI)?, linarith+)+
    moreover have "r mod 64 = z" using div_mult_mod_eq [of r 64] d64 r' by linarith
    moreover have "\<not> r < 0x800" "\<not> (0xD800 \<le> r \<and> r \<le> 0xDFFF)" using r' lim y(2) z(2) x(2) by (cases "x = 0"; cases "x = 13"; simp; linarith)+
    ultimately show ?thesis using c0 c12 x(1) y z(1) r(2) by (auto simp: EncodeRune_def s s1)
  next
    case 4
    then have "s1 \<noteq> [] \<and> tl s1 \<noteq> [] \<and> tl (tl s1) \<noteq> []" using assms(1,2)
      by (cases s1; cases "tl s1"; cases "tl (tl s1)") (auto simp: DecodeRune_def s a_def)
    then obtain c1 c2 c3 s2 where s1: "s1 = c1 # c2 # c3 # s2" by (cases s1; cases "tl s1"; cases "tl (tl s1)") auto
    define b c d where "b = (of_char c1 :: nat)" and "c = (of_char c2 :: nat)" and "d = (of_char c3 :: nat)"
    have c123: "char_of b = c1" "char_of c = c2" "char_of d = c3" by (simp_all add: b_def c_def d_def)
    have cont: "contByte b" "contByte c" "contByte d" "a = 0xF0 \<longrightarrow> 0x90 \<le> b" "a = 0xF4 \<longrightarrow> b \<le> 0x8F"
      and r: "r = (a - 0xF0) * 262144 + (b - 0x80) * 4096 + (c - 0x80) * 64 + (d - 0x80)" "n = 4"
      using 4 assms(1,2) by (auto simp: DecodeRune_def s s1 a_def b_def c_def d_def split: if_splits)
    from cont(1) obtain y where y: "b = 0x80 + y" "y < 64" by (rule contByteE)
    from cont(2) obtain z where z: "c = 0x80 + z" "z < 64" by (rule contByteE)
    from cont(3) obtain w where w: "d = 0x80 + w" "w < 64" by (rule contByteE)
    obtain x where x: "a = 0xF0 + x" "x < 5" using 4 by (auto dest!: le_Suc_ex)
    have lim: "x = 0 \<longrightarrow> 16 \<le> y" "x = 4 \<longrightarrow> y < 16" using cont(4,5) x y by auto
    have r': "r = x * 262144 + y * 4096 + z * 64 + w" using r x y z w by simp
    have low: "z * 64 + w < 4096" "y * 4096 + (z * 64 + w) < 262144" using y(2) z(2) w(2) by simp_all
    have "r div 262144 = x" "r div 4096 = x * 64 + y" and d64: "r div 64 = x * 4096 + y * 64 + z"
      unfolding r' using low w(2) by (intro div_nat_eqI; simp)+
    moreover have "r mod 64 = w" using div_mult_mod_eq [of r 64] d64 r' by linarith
    moreover have "(x * 64 + y) mod 64 = y" "(x * 4096 + y * 64 + z) mod 64 = z"
      using y(2) z(2) mod_mult_self3 [of "x * 64 + y" 64 z] by (simp_all add: algebra_simps)
    moreover have "\<not> r < 0x10000" "\<not> 0x10FFFF < r" using r' lim y(2) z(2) w(2) x(2) by (cases "x = 0"; cases "x = 4"; simp; linarith)+
    ultimately show ?thesis using c0 c123 x(1) y z w(1) r(2) by (simp add: EncodeRune_def s s1)
  next
    case 5
    then have "DecodeRune s = (RuneError, 1)" by (auto simp: DecodeRune_def s a_def)
    with assms(1,2) show ?thesis by simp
  qed
qed

lemma DecodeRune_prefix:
  assumes "DecodeRune s = (r, n)" "(r, n) \<noteq> (RuneError, 1)" "s \<noteq> []"
  shows "DecodeRune (take n s @ t) = (r, n)"
proof -
  obtain c0 s1 where s: "s = c0 # s1" using assms(3) by (cases s) auto
  show ?thesis
    using assms(1,2) unfolding s
    by (cases s1; cases "tl s1"; cases "tl (tl s1)") (auto simp: DecodeRune_def split: if_splits)
qed

text \<open>
  A string as JSON keeps it: every byte that is not part of UTF-8 is replaced by U+FFFD.
\<close>

function toValidUTF8 :: "bytes \<Rightarrow> bytes" where
  "toValidUTF8 s =
     (if s = [] then []
      else (if DecodeRune s = (RuneError, 1) then EncodeRune RuneError else take (snd (DecodeRune s)) s)
        @ toValidUTF8 (drop (snd (DecodeRune s)) s))"
  by pat_completeness auto
termination
  by (relation "measure length") (auto intro: drop_rune_shorter simp del: length_drop)

declare toValidUTF8.simps [simp del]

lemma toValidUTF8_valid: "ValidString s \<Longrightarrow> toValidUTF8 s = s"
proof (induction s rule: ValidString.induct)
  case (1 s)
  show ?case
  proof (cases "s = []")
    case True
    then show ?thesis by (simp add: toValidUTF8.simps)
  next
    case False
    with "1.prems" have "DecodeRune s \<noteq> (RuneError, 1)" "ValidString (drop (snd (DecodeRune s)) s)"
      by (subst (asm) ValidString.simps, simp split: if_splits)+
    then show ?thesis using "1.IH" False by (subst toValidUTF8.simps) simp
  qed
qed

lemma hexVal_hexDigit: "n < 16 \<Longrightarrow> hexVal (hexDigit n) = Some n"
  by (auto simp: hexVal_def hexDigit_def Let_def)

lemma EncodeRune_ASCII: "n < 0x80 \<Longrightarrow> EncodeRune n = [char_of n]"
  by (simp add: EncodeRune_def)

lemma strStep_escapeByte:
  assumes "(of_char c :: nat) < 0x80"
  shows "strStep (escapeByte c @ t) = Some ([c], length (escapeByte c)) \<and> hd (escapeByte c @ t) \<noteq> CHR 0x22"
proof -
  let ?n = "of_char c :: nat"
  have c: "char_of ?n = c" by simp
  have hex: "hexVal (hexDigit (?n div 16)) = Some (?n div 16)" "hexVal (hexDigit (?n mod 16)) = Some (?n mod 16)"
    "hexVal CHR ''0'' = Some 0"
    using assms by (simp_all add: hexVal_hexDigit) (simp add: hexVal_def)
  consider "c = CHR 0x5C \<or> c = CHR 0x22 \<or> ?n \<in> {8, 9, 10, 12, 13}"
    | "c \<noteq> CHR 0x5C" "c \<noteq> CHR 0x22" "?n \<notin> {8, 9, 10, 12, 13}" "?n < 32 \<or> c = CHR ''<'' \<or> c = CHR ''>'' \<or> c = CHR 0x26"
    | "c \<noteq> CHR 0x5C" "c \<noteq> CHR 0x22" "?n \<notin> {8, 9, 10, 12, 13}" "\<not> (?n < 32 \<or> c = CHR ''<'' \<or> c = CHR ''>'' \<or> c = CHR 0x26)"
    by blast
  then show ?thesis
  proof cases
    case 1
    have "CHR 0x08 = char_of (8 :: nat)" "CHR 0x0C = char_of (12 :: nat)" "CHR 0x0A = char_of (10 :: nat)"
      "CHR 0x0D = char_of (13 :: nat)" "CHR 0x09 = char_of (9 :: nat)" by code_simp+
    then show ?thesis
      using 1 by (auto simp: escapeByte_def Let_def strStep_def getu4_def unescape_def intro: char_of_eqI)
  next
    case 2
    then have "escapeByte c = [CHR 0x5C, CHR ''u'', CHR ''0'', CHR ''0'', hexDigit (?n div 16), hexDigit (?n mod 16)]"
      by (simp add: escapeByte_def Let_def)
    moreover have "getu4 ([CHR 0x5C, CHR ''u'', CHR ''0'', CHR ''0'', hexDigit (?n div 16), hexDigit (?n mod 16)] @ t) = Some ?n"
      by (simp add: getu4_def hex4_def hex)
    ultimately show ?thesis using assms by (simp add: strStep_def EncodeRune_ASCII)
  next
    case 3
    then have "escapeByte c = [c]" by (simp add: escapeByte_def Let_def)
    then show ?thesis using 3 assms by (simp add: strStep_def)
  qed
qed

section \<open>Round trips\<close>

lemma strBody_step:
  assumes "strStep s = Some (b, n)" "hd s \<noteq> CHR 0x22"
  shows "strBody s = map_option (apfst ((@) b)) (strBody (drop n s))"
  using assms by (subst strBody.simps) simp

lemma hd_rune:
  assumes "c # cs = s" "\<not> (of_char c :: nat) < 0x80" "DecodeRune s = (r, n)"
  shows "hd (take n s @ t) = c" "take n s @ t \<noteq> []" "1 \<le> n"
  using assms DecodeRune_size [of s] by (cases n; auto)+

lemma strStep_ufffd: "strStep (CHR 0x5C # ''ufffd'' @ t) = Some (EncodeRune RuneError, 6)"
  by (simp add: strStep_def getu4_def hex4_def hexVal_def RuneError_def)

lemma strStep_rune:
  assumes s: "s = c # cs" and c: "\<not> (of_char c :: nat) < 0x80" and rune: "DecodeRune s = (r, n)"
    and valid: "(r, n) \<noteq> (RuneError, 1)"
  shows "r = 0x2028 \<or> r = 0x2029 \<Longrightarrow>
      strStep (CHR 0x5C # ''u202'' @ hexDigit (r mod 16) # t) = Some (take n s, 6)"
    "strStep (take n s @ t) = Some (take n s, length (take n s)) \<and> hd (take n s @ t) \<noteq> CHR 0x22"
proof -
  have enc: "take n s = EncodeRune r" "n = length (EncodeRune r)"
    using DecodeRune_encode [OF rune valid] s by auto
  show "strStep (CHR 0x5C # ''u202'' @ hexDigit (r mod 16) # t) = Some (take n s, 6)" if "r = 0x2028 \<or> r = 0x2029"
    using that unfolding enc(1) by (auto simp: strStep_def getu4_def hex4_def hexVal_def hexDigit_def)
  have n1: "n \<noteq> 1"
  proof
    assume "n = 1"
    with enc(2) have "length (EncodeRune r) = 1" by simp
    then have "r < 0x80" by (simp add: EncodeRune_def split: if_splits)
    then have "take n s = [char_of r]" using enc by (simp add: EncodeRune_ASCII)
    then have "c = char_of r" using \<open>n = 1\<close> s by simp
    with c \<open>r < 0x80\<close> show False by simp
  qed
  obtain m where m: "n = Suc m" using hd_rune(3) [OF s [symmetric] c rune] by (cases n) auto
  have dec: "DecodeRune (take n s @ t) = (r, n)" by (rule DecodeRune_prefix [OF rune valid]) (simp add: s)
  obtain ds where ds: "take n s @ t = c # ds" using s m by simp
  have ne: "c \<noteq> CHR 0x5C" "c \<noteq> CHR 0x22" "\<not> (of_char c :: nat) < 0x20" using c by auto
  have len: "length (take n s) = n" using enc by metis
  have "strStep (c # ds) = (case DecodeRune (c # ds) of (r, n) \<Rightarrow>
      Some (if n = 1 then EncodeRune RuneError else take n (c # ds), n))"
    using c ne by (simp add: strStep_def)
  then have "strStep (take n s @ t) = Some (take n (take n s @ t), n)" unfolding ds [symmetric] dec using n1 by simp
  moreover have "take n (take n s @ t) = take n s" unfolding take_append len by simp
  ultimately show "strStep (take n s @ t) = Some (take n s, length (take n s)) \<and> hd (take n s @ t) \<noteq> CHR 0x22"
    using len ne ds by simp
qed

lemma strBody_appendString: "strBody (appendString s @ CHR 0x22 # rest) = Some (toValidUTF8 s, rest)"
proof (induction s rule: appendString.induct)
  case (1 s)
  show ?case
  proof (cases s)
    case Nil
    then show ?thesis by (simp add: appendString.simps strBody.simps toValidUTF8.simps)
  next
    case (Cons c cs)
    let ?t = "appendString cs @ CHR 0x22 # rest"
    show ?thesis
    proof (cases "(of_char c :: nat) < 0x80")
      case True
      then have rune: "DecodeRune s = (of_char c, 1)" by (simp add: DecodeRune_def Cons)
      have "(of_char c, 1) \<noteq> (RuneError, 1 :: nat)" using True by (simp add: RuneError_def)
      then have "toValidUTF8 s = c # toValidUTF8 cs" using rune by (subst toValidUTF8.simps) (simp add: Cons)
      moreover have "appendString s = escapeByte c @ appendString cs" using True by (subst appendString.simps) (simp add: Cons)
      moreover have "strBody (escapeByte c @ ?t) = map_option (apfst ((@) [c])) (strBody ?t)"
        using strStep_escapeByte [OF True, of ?t] strBody_step [of "escapeByte c @ ?t" "[c]"] by simp
      ultimately show ?thesis using "1.IH"(1) [OF Cons True] by simp
    next
      case False
      obtain r n where rune: "DecodeRune s = (r, n)" by force
      let ?u = "appendString (drop n s) @ CHR 0x22 # rest"
      have IH: "strBody ?u = Some (toValidUTF8 (drop n s), rest)"
        using "1.IH"(2) [OF Cons False rune [symmetric]] Cons by simp
      let ?b = "if (r, n) = (RuneError, 1) then EncodeRune RuneError else take n s"
      define e where "e = (if r = RuneError \<and> n = 1 then CHR 0x5C # ''ufffd''
             else if r = 0x2028 \<or> r = 0x2029 then CHR 0x5C # ''u202'' @ [hexDigit (r mod 16)] else take n s)"
      have app: "appendString s = e @ appendString (drop n s)"
        using False rune unfolding Cons appendString.simps [of "c # cs"] e_def by simp
      have val: "toValidUTF8 s = ?b @ toValidUTF8 (drop n s)"
        using rune unfolding Cons toValidUTF8.simps [of "c # cs"] by simp
      have "strStep (e @ ?u) = Some (?b, length e) \<and> hd (e @ ?u) \<noteq> CHR 0x22"
      proof (cases "(r, n) = (RuneError, 1)")
        case True
        then show ?thesis using strStep_ufffd [of ?u] by (simp add: e_def)
      next
        case valid: False
        then show ?thesis using strStep_rune [OF Cons False rune valid, of ?u] by (auto simp: e_def)
      qed
      then have "strBody (e @ ?u) = map_option (apfst ((@) ?b)) (strBody ?u)"
        using strBody_step [of "e @ ?u" ?b "length e"] by simp
      then show ?thesis using IH app val by simp
    qed
  qed
qed

text \<open>The values that the encoder is used for: integers, and nesting within the limit.\<close>

fun jsonOk :: "nat \<Rightarrow> json \<Rightarrow> bool" where
  "jsonOk d JNull = True"
| "jsonOk d (JBool b) = True"
| "jsonOk d (JNum n) = (\<exists>i. n = FormatInt i)"
| "jsonOk d (JStr s) = True"
| "jsonOk d (JArr xs) = (d < maxNestingDepth \<and> (\<forall>x \<in> set xs. jsonOk (Suc d) x))"
| "jsonOk d (JObj ms) = (d < maxNestingDepth \<and> (\<forall>m \<in> set ms. jsonOk (Suc d) (snd m)))"

fun jsonNorm :: "json \<Rightarrow> json" where
  "jsonNorm (JStr s) = JStr (toValidUTF8 s)"
| "jsonNorm (JArr xs) = JArr (map jsonNorm xs)"
| "jsonNorm (JObj ms) = JObj (map (\<lambda>(k, v). (toValidUTF8 k, jsonNorm v)) ms)"
| "jsonNorm v = v"

definition valueEnd :: "bytes \<Rightarrow> bool" where
  "valueEnd rest \<longleftrightarrow> rest = [] \<or> hd rest \<in> {CHR '','', CHR '']'', CHR ''}'', CHR 0x0A}"

definition valueHead :: "byte \<Rightarrow> bool" where
  "valueHead c \<longleftrightarrow> c \<in> {CHR ''n'', CHR ''t'', CHR ''f'', CHR 0x22, CHR ''['', CHR ''{'', CHR ''-''} \<or> isDigit c"

lemma isDigit_iff: "isDigit c \<longleftrightarrow> 48 \<le> (of_char c :: nat) \<and> (of_char c :: nat) \<le> 57"
  by (simp add: isDigit_def digitVal_def Let_def)

lemma isDigit_natDigits: "c \<in> set (natDigits k) \<Longrightarrow> isDigit c"
  using natDigits_chars [of c k] by (auto simp: isDigit_def)

lemma hd_natDigits: "0 < k \<Longrightarrow> hd (natDigits k) \<noteq> CHR ''0''"
proof (induction k rule: natDigits.induct)
  case (1 k)
  show ?case
  proof (cases "k < 10")
    case True
    have "digitVal (CHR ''0'') = Some 0" by code_simp
    then have "digitChar k \<noteq> CHR ''0''" using digitVal_digitChar [OF True] "1.prems" by auto
    then show ?thesis using True by (subst natDigits.simps) simp
  next
    case False
    then show ?thesis using 1 natDigits_not_Nil [of "k div 10"] by (subst natDigits.simps) simp
  qed
qed

lemma scanDigits_natDigits: "rest = [] \<or> \<not> isDigit (hd rest) \<Longrightarrow> scanDigits (natDigits k @ rest) = Some (natDigits k, rest)"
proof -
  assume "rest = [] \<or> \<not> isDigit (hd rest)"
  then have "takeWhile isDigit (natDigits k @ rest) = natDigits k"
    using isDigit_natDigits by (subst takeWhile_append2) (auto simp: takeWhile_eq_Nil_iff)
  then show ?thesis by (simp add: scanDigits_def)
qed

lemma valueEnd_not: "valueEnd rest \<Longrightarrow> rest \<noteq> [] \<Longrightarrow>
   \<not> isDigit (hd rest) \<and> hd rest \<noteq> CHR ''.'' \<and> hd rest \<noteq> CHR ''e'' \<and> hd rest \<noteq> CHR ''E''"
  by (auto simp: valueEnd_def isDigit_iff)

lemma scanNumber_nat:
  assumes "valueEnd rest"
  shows "scanInt (natDigits k @ rest) = Some (natDigits k, rest)" "scanFrac rest = Some ([], rest)" "scanExp rest = Some ([], rest)"
proof -
  show "scanFrac rest = Some ([], rest)" "scanExp rest = Some ([], rest)"
    using valueEnd_not [OF assms] by (auto simp: scanFrac_def scanExp_def split: list.split)
  have digits: "scanDigits (natDigits k @ rest) = Some (natDigits k, rest)"
    using valueEnd_not [OF assms] by (intro scanDigits_natDigits) auto
  show "scanInt (natDigits k @ rest) = Some (natDigits k, rest)"
  proof (cases "k = 0")
    case True
    have "natDigits 0 = ''0''" by code_simp
    then show ?thesis using True by (simp add: scanInt_def)
  next
    case False
    obtain c cs where c: "natDigits k = c # cs" using natDigits_not_Nil [of k] by (cases "natDigits k") auto
    then have "c \<noteq> CHR ''0''" using hd_natDigits [of k] False by simp
    then show ?thesis using digits c by (simp add: scanInt_def)
  qed
qed

lemma scanNumber_FormatInt: "valueEnd rest \<Longrightarrow> scanNumber (FormatInt i @ rest) = Some (FormatInt i, rest)"
proof -
  assume rest: "valueEnd rest"
  show ?thesis
  proof (cases "i < 0")
    case True
    then show ?thesis using scanNumber_nat [OF rest] by (simp add: scanNumber_def FormatInt_def)
  next
    case False
    obtain c cs where c: "natDigits (nat i) = c # cs" using natDigits_not_Nil [of "nat i"] by (cases "natDigits (nat i)") auto
    then have "c \<noteq> CHR ''-''" using isDigit_natDigits [of c "nat i"] by (auto simp: isDigit_iff)
    then show ?thesis using False c scanNumber_nat(2,3) [OF rest] scanNumber_nat(1) [OF rest, of "nat i"]
      by (simp add: scanNumber_def FormatInt_def)
  qed
qed

lemma encodeJson_head: "jsonOk d v \<Longrightarrow> encodeJson v \<noteq> [] \<and> valueHead (hd (encodeJson v))"
proof (cases v)
  case (JNum n)
  assume "jsonOk d v"
  then obtain i where i: "n = FormatInt i" using JNum by auto
  have "FormatInt i \<noteq> [] \<and> valueHead (hd (FormatInt i))"
    using isDigit_natDigits [of "hd (natDigits (nat i))" "nat i"] by (simp add: FormatInt_def valueHead_def)
  then show ?thesis using JNum i by simp
qed (auto simp: encodeString_def valueHead_def)

lemma skipSpace_head: "valueHead c \<Longrightarrow> skipSpace (c # cs) = c # cs"
  by (auto simp: skipSpace_def jsonSpace_def valueHead_def isDigit_iff)

lemma skipSpace_sep [simp]:
  "skipSpace (CHR '','' # r) = CHR '','' # r" "skipSpace (CHR '']'' # r) = CHR '']'' # r"
  "skipSpace (CHR ''}'' # r) = CHR ''}'' # r" "skipSpace (CHR '':'' # r) = CHR '':'' # r" "skipSpace (CHR 0x22 # r) = CHR 0x22 # r"
  by (simp_all add: skipSpace_def jsonSpace_def)

lemma parseElems_encode:
  assumes "\<And>x rest. x \<in> set xs \<Longrightarrow> valueEnd rest \<Longrightarrow> val (encodeJson x @ rest) = Some (jsonNorm x, rest)"
    and "xs \<noteq> []" "length xs \<le> n"
  shows "parseElems val n (commaSep (map encodeJson xs) @ '']'' @ rest) = Some (map jsonNorm xs, rest)"
  using assms
proof (induction xs arbitrary: n)
  case (Cons x xs)
  then obtain m where n: "n = Suc m" by (cases n) auto
  show ?case
  proof (cases xs)
    case Nil
    have "valueEnd ('']'' @ rest)" by (simp add: valueEnd_def)
    then show ?thesis using Cons.prems(1) [of x] n Nil by simp
  next
    case (Cons y ys)
    let ?r = "'','' @ commaSep (map encodeJson xs) @ '']'' @ rest"
    have "valueEnd ?r" by (simp add: valueEnd_def)
    then have "val (encodeJson x @ ?r) = Some (jsonNorm x, ?r)" using Cons.prems(1) [of x] by simp
    moreover have "parseElems val m (commaSep (map encodeJson xs) @ '']'' @ rest) = Some (map jsonNorm xs, rest)"
      using Cons.prems n Cons by (intro Cons.IH) auto
    ultimately show ?thesis using n Cons by simp
  qed
qed simp

definition encodeMember :: "bytes \<times> json \<Rightarrow> bytes" where
  "encodeMember m = encodeString (fst m) @ '':'' @ encodeJson (snd m)"

lemma encodeJson_members: "encodeJson (JObj ms) = ''{'' @ commaSep (map encodeMember ms) @ ''}''"
  by (simp add: encodeMember_def [abs_def] case_prod_unfold)

lemma parseMember_encode:
  assumes "\<And>rest. valueEnd rest \<Longrightarrow> val (encodeJson (snd m) @ rest) = Some (jsonNorm (snd m), rest)" "valueEnd rest"
  shows "parseMember val (encodeMember m @ rest) = Some ((toValidUTF8 (fst m), jsonNorm (snd m)), rest)"
  using assms strBody_appendString [of "fst m" "'':'' @ encodeJson (snd m) @ rest"]
  by (simp add: parseMember_def encodeMember_def encodeString_def)

lemma parseMembers_encode:
  assumes "\<And>m rest. m \<in> set ms \<Longrightarrow> valueEnd rest \<Longrightarrow> val (encodeJson (snd m) @ rest) = Some (jsonNorm (snd m), rest)"
    and "ms \<noteq> []" "length ms \<le> n"
  shows "parseMembers val n (commaSep (map encodeMember ms) @ ''}'' @ rest)
    = Some (map (\<lambda>(k, v). (toValidUTF8 k, jsonNorm v)) ms, rest)"
  using assms
proof (induction ms arbitrary: n)
  case (Cons m ms)
  then obtain l where n: "n = Suc l" by (cases n) auto
  have one: "parseMember val (encodeMember m @ r) = Some ((toValidUTF8 (fst m), jsonNorm (snd m)), r)" if "valueEnd r" for r
    using Cons.prems(1) [of m] that by (intro parseMember_encode) auto
  show ?case
  proof (cases ms)
    case Nil
    have "valueEnd (''}'' @ rest)" by (simp add: valueEnd_def)
    then show ?thesis using one n Nil by (simp add: case_prod_unfold)
  next
    case (Cons y ys)
    let ?r = "'','' @ commaSep (map encodeMember ms) @ ''}'' @ rest"
    have "valueEnd ?r" by (simp add: valueEnd_def)
    from one [OF this] have "parseMember val (encodeMember m @ ?r) = Some ((toValidUTF8 (fst m), jsonNorm (snd m)), ?r)" .
    moreover have "parseMembers val l (commaSep (map encodeMember ms) @ ''}'' @ rest)
        = Some (map (\<lambda>(k, v). (toValidUTF8 k, jsonNorm v)) ms, rest)"
      using Cons.prems n Cons by (intro Cons.IH) auto
    ultimately show ?thesis using n Cons by (simp add: case_prod_unfold)
  qed
qed simp

lemma length_commaSep: "length (concat ws) + length ws \<le> Suc (length (commaSep ws))"
  by (induction ws rule: commaSep.induct) auto

lemma commaSep_parts:
  assumes "x \<in> set xs" "list_all (\<lambda>x. f x \<noteq> []) xs"
  shows "length (f x) \<le> length (commaSep (map f xs))" "length xs \<le> length (commaSep (map f xs))"
proof -
  have "length (f x) \<le> length (concat (map f xs))" using assms(1) by (induction xs) auto
  moreover have "length xs \<le> length (concat (map f xs))" using assms(2)
  proof (induction xs)
    case (Cons a xs)
    then have "1 \<le> length (f a)" by (cases "f a") auto
    with Cons show ?case by simp
  qed simp
  moreover have "1 \<le> length xs" using assms(1) by (cases xs) auto
  ultimately show "length (f x) \<le> length (commaSep (map f xs))" "length xs \<le> length (commaSep (map f xs))"
    using length_commaSep [of "map f xs"] by simp_all
qed

lemma hd_commaSep: "ws \<noteq> [] \<Longrightarrow> hd ws \<noteq> [] \<Longrightarrow> commaSep ws \<noteq> [] \<and> hd (commaSep ws) = hd (hd ws)"
  by (cases ws rule: commaSep.cases) auto

lemma parseValue_encode:
  "jsonOk d v \<Longrightarrow> valueEnd rest \<Longrightarrow> length (encodeJson v) \<le> n \<Longrightarrow>
   parseValue n d (encodeJson v @ rest) = Some (jsonNorm v, rest)"
proof (induction v arbitrary: d n rest)
  case JNull
  then show ?case by (cases n) (simp_all add: skipSpace_def jsonSpace_def)
next
  case (JBool b)
  then show ?case by (cases n; cases b) (simp_all add: skipSpace_def jsonSpace_def)
next
  case (JNum k)
  from JNum.prems obtain i where i: "k = FormatInt i" by auto
  have head: "FormatInt i \<noteq> []" "valueHead (hd (FormatInt i))" using encodeJson_head [of d "JNum k"] JNum.prems(1) i by auto
  obtain c cs where c: "FormatInt i = c # cs" using head(1) by (cases "FormatInt i") auto
  have digit: "isDigit c \<or> c = CHR ''-''"
    using c isDigit_natDigits [of c "nat i"] by (auto simp: FormatInt_def split: if_splits)
  obtain m where n: "n = Suc m" using JNum.prems(3) i c by (cases n) auto
  have ne: "c \<noteq> CHR ''{''" "c \<noteq> CHR ''[''" "c \<noteq> CHR 0x22" "c \<noteq> CHR ''n''" "c \<noteq> CHR ''t''" "c \<noteq> CHR ''f''"
    using digit by (auto simp: isDigit_iff)
  have "skipSpace (c # cs @ rest) = c # cs @ rest" using head(2) c by (simp add: skipSpace_head)
  then show ?case
    using scanNumber_FormatInt [OF JNum.prems(2), of i] c ne by (simp add: n i Let_def)
next
  case (JStr s)
  then show ?case
    using strBody_appendString [of s rest] by (cases n) (simp_all add: encodeString_def)
next
  case (JArr xs)
  from JArr.prems obtain m where n: "n = Suc m" by (cases n) auto
  have skip: "skipSpace (encodeJson (JArr xs) @ rest) = encodeJson (JArr xs) @ rest"
    by (simp add: skipSpace_head valueHead_def)
  show ?case
  proof (cases "xs = []")
    case True
    then show ?thesis using JArr.prems skip by (simp add: n Let_def)
  next
    case False
    let ?body = "commaSep (map encodeJson xs)"
    have ne: "list_all (\<lambda>x. encodeJson x \<noteq> []) xs"
      using JArr.prems(1) encodeJson_head by (auto simp: list_all_iff)
    have len: "length (encodeJson x) \<le> m" "length xs \<le> m" if "x \<in> set xs" for x
      using commaSep_parts [OF that ne] JArr.prems(3) n by simp_all
    have "jsonOk (Suc d) (hd xs)" using JArr.prems(1) False by simp
    then have "encodeJson (hd xs) \<noteq> []" "valueHead (hd (encodeJson (hd xs)))" using encodeJson_head by auto
    then have "?body \<noteq> []" "valueHead (hd ?body)" using hd_commaSep [of "map encodeJson xs"] False by (simp_all add: hd_map)
    then obtain c cs where c: "?body = c # cs" "valueHead c" by (cases ?body) auto
    then have "skipSpace (?body @ '']'' @ rest) = ?body @ '']'' @ rest" "c \<noteq> CHR '']''"
      by (auto simp: skipSpace_head valueHead_def isDigit_iff)
    moreover have "parseElems (parseValue m (Suc d)) m (?body @ '']'' @ rest) = Some (map jsonNorm xs, rest)"
      using JArr.IH JArr.prems(1) len len(2) [of "hd xs"] False by (intro parseElems_encode) auto
    ultimately show ?thesis using JArr.prems(1) skip c by (simp add: n Let_def)
  qed
next
  case (JObj ms)
  from JObj.prems obtain m where n: "n = Suc m" by (cases n) auto
  have skip: "skipSpace (encodeJson (JObj ms) @ rest) = encodeJson (JObj ms) @ rest"
    by (simp add: skipSpace_head valueHead_def)
  show ?case
  proof (cases "ms = []")
    case True
    then show ?thesis using JObj.prems skip by (simp add: n Let_def)
  next
    case False
    let ?body = "commaSep (map encodeMember ms)"
    have ne: "list_all (\<lambda>x. encodeMember x \<noteq> []) ms" by (simp add: list_all_iff encodeMember_def)
    have len: "length (encodeJson (snd x)) \<le> m" "length ms \<le> m" if "x \<in> set ms" for x
    proof -
      have "length (encodeJson (snd x)) \<le> length (encodeMember x)" by (simp add: encodeMember_def)
      then show "length (encodeJson (snd x)) \<le> m" "length ms \<le> m"
        using commaSep_parts [OF that ne] JObj.prems(3) n unfolding encodeJson_members by simp_all
    qed
    have "?body \<noteq> []" "hd ?body = CHR 0x22" using hd_commaSep [of "map encodeMember ms"] False
      by (simp_all add: hd_map encodeMember_def encodeString_def)
    then obtain cs where c: "?body = CHR 0x22 # cs" by (cases ?body) auto
    have "parseMembers (parseValue m (Suc d)) m (?body @ ''}'' @ rest)
        = Some (map (\<lambda>(k, v). (toValidUTF8 k, jsonNorm v)) ms, rest)"
      using JObj.IH JObj.prems(1) len len(2) [of "hd ms"] False by (intro parseMembers_encode) auto
    then show ?thesis using JObj.prems(1) skip c unfolding encodeJson_members by (simp add: n Let_def)
  qed
qed

lemma skipSpace_encode:
  assumes "jsonOk d v"
  shows "skipSpace (encodeJson v @ rest) \<noteq> []"
proof -
  obtain c cs where "encodeJson v = c # cs" "valueHead c"
    using encodeJson_head [OF assms] by (cases "encodeJson v") auto
  then show ?thesis by (simp add: skipSpace_head)
qed

lemma decodeNext_encode:
  assumes "jsonOk 0 v" "valueEnd rest"
  shows "decodeNext (encodeJson v @ rest) = Decoded (jsonNorm v) rest"
  using skipSpace_encode [OF assms(1), of rest] parseValue_encode [OF assms, of "length (encodeJson v @ rest)"]
  by (simp add: decodeNext_def)

lemma parseJson_encode:
  assumes "jsonOk 0 v" "valueEnd rest" "skipSpace rest = []"
  shows "parseJson (encodeJson v @ rest) = Some (jsonNorm v)"
  using parseValue_encode [OF assms(1,2), of "length (encodeJson v @ rest)"] assms(3)
  by (simp add: parseJson_def)

lemma valueEnd_newline [simp]: "valueEnd ''\<newline>''" "valueEnd []" "skipSpace ''\<newline>'' = []" "skipSpace [] = []"
  by (simp_all add: valueEnd_def skipSpace_def jsonSpace_def)

lemma ValidString_ASCII: "list_all (\<lambda>c. (of_char c :: nat) < 0x80) s \<Longrightarrow> ValidString s"
proof (induction s)
  case (Cons c cs)
  then have "DecodeRune (c # cs) = (of_char c, 1)" "(of_char c :: nat) \<noteq> RuneError"
    by (auto simp: DecodeRune_def RuneError_def)
  then show ?case using Cons by (subst ValidString.simps) simp
qed (simp add: ValidString.simps)

lemma toValidUTF8_ASCII: "list_all (\<lambda>c. (of_char c :: nat) < 0x80) s \<Longrightarrow> toValidUTF8 s = s"
  by (intro toValidUTF8_valid ValidString_ASCII)

end
