(* ===== verification/ModuleProps.thy ===== *)
theory ModuleProps
  imports Modules JsonProps
begin

text \<open>
  Properties of the module catalog: names are canonical, artifact paths stay inside their module,
  what is discovered has been validated, and what is verified has the digest its manifest names.
\<close>

section \<open>Canonical names\<close>

lemma nameChar_ASCII: "nameChar c \<Longrightarrow> (of_char c :: nat) < 128"
  by (auto simp: nameChar_def Let_def)

lemma nameChar_not_space: "nameChar c \<Longrightarrow> \<not> (9 \<le> (of_char c :: nat) \<and> (of_char c :: nat) \<le> 13) \<and> (of_char c :: nat) \<noteq> 32"
  by (auto simp: nameChar_def Let_def)

lemma spaceLen_name: "list_all nameChar s \<Longrightarrow> spaceLen s = 0"
proof (cases s)
  case (Cons c cs)
  assume "list_all nameChar s"
  then have c: "nameChar c" using Cons by simp
  show ?thesis
    using nameChar_ASCII [OF c] nameChar_not_space [OF c] by (auto simp: Cons spaceLen_def split: list.split)
qed (simp add: spaceLen_def)

lemma TrimSpace_name: "list_all nameChar s \<Longrightarrow> TrimSpace s = s"
proof -
  assume s: "list_all nameChar s"
  then have "spaceLen (drop n s) = 0" for n
    by (intro spaceLen_name) (auto simp: list_all_iff dest: in_set_dropD)
  then have "spaceEnd s = 0" by (simp add: spaceEnd_def Let_def)
  then show ?thesis
    using spaceLen_name [OF s] by (simp add: TrimSpace_def TrimLeft.simps [of s] TrimRight.simps [of s])
qed

lemma ToLower_name: "list_all nameChar s \<Longrightarrow> ToLower uni s = s"
proof -
  assume s: "list_all nameChar s"
  have "lowerByte c = c" if "nameChar c" for c
    using that by (auto simp: nameChar_def lowerByte_def Let_def)
  with s have "map lowerByte s = s" by (simp add: list_all_iff map_idI)
  moreover have "isASCII s" using s by (auto simp: isASCII_def list_all_iff nameChar_ASCII)
  ultimately show ?thesis by (simp add: ToLower_def)
qed

lemma normalizeModuleName_Ok: "normalizeModuleName uni n = Ok c \<Longrightarrow> c \<noteq> [] \<and> list_all nameChar c"
  by (auto simp: normalizeModuleName_def Let_def list_all_iff split: if_splits)

lemma normalizeDriverName_Ok: "normalizeDriverName uni n = Ok c \<Longrightarrow> c \<noteq> [] \<and> list_all nameChar c"
  by (auto simp: normalizeDriverName_def Let_def list_all_iff split: if_splits)

lemma normalize_canonical:
  assumes "c \<noteq> []" "list_all nameChar c"
  shows "normalizeModuleName uni c = Ok c" "normalizeDriverName uni c = Ok c"
  using assms by (simp_all add: normalizeModuleName_def normalizeDriverName_def Let_def TrimSpace_name ToLower_name)
    (simp_all add: list_all_iff)

text \<open>
  C31. Names of modules and drivers are canonical: a name that is accepted consists of lower-case
  letters, digits, hyphens, underscores and dots, is not empty, and is accepted unchanged, so that
  looking a name up twice gives the same entry.
\<close>

theorem canonical_names:
  "(normalizeModuleName uni n = Ok c \<longrightarrow> c \<noteq> [] \<and> list_all nameChar c \<and> normalizeModuleName uni c = Ok c) \<and>
   (ParseDriverName uni n = Ok d \<longrightarrow> d \<noteq> [] \<and> list_all nameChar d \<and> ParseDriverName uni d = Ok d)"
  using normalizeModuleName_Ok [of uni n c] normalizeDriverName_Ok [of uni n d] normalize_canonical
  by (auto simp: ParseDriverName_def)

theorem canonical_names_witness:
  "normalizeModuleName \<lparr>uni_lower = id, uni_quote = id\<rparr> '' RocksDB '' = Ok ''rocksdb'' \<and>
   normalizeModuleName \<lparr>uni_lower = id, uni_quote = id\<rparr> ''rocksdb'' = Ok ''rocksdb''"
proof -
  have "normalizeModuleName \<lparr>uni_lower = id, uni_quote = id\<rparr> '' RocksDB '' = Ok ''rocksdb''" by code_simp
  with canonical_names [of "\<lparr>uni_lower = id, uni_quote = id\<rparr>" "'' RocksDB ''" "''rocksdb''" "''x''"] show ?thesis by blast
qed

section \<open>Artifact paths\<close>

lemma safe_path_plain: "safeModuleRelativePath v \<Longrightarrow> list_all plainElem (splitOn slash v)"
  unfolding safeModuleRelativePath_def Let_def by (intro cleaned_plain) auto

lemma validateModuleArtifact_safe: "validateModuleArtifact uni a = Ok u \<Longrightarrow> safeModuleRelativePath (art_Path a)"
  by (auto simp: validateModuleArtifact_def split: if_splits)

lemma ArtifactPath_inside:
  assumes "ArtifactPath uni m a = Ok p"
  shows "cleanElems p = cleanElems (mod_Directory m) @ splitOn slash (art_Path a)" "isAbs p = isAbs (mod_Directory m)"
    "list_all plainElem (splitOn slash (art_Path a))"
proof -
  from assms have dir: "mod_Directory m \<noteq> []" and p: "p = filepathJoin [mod_Directory m, art_Path a]"
    and "validateModuleArtifact uni a = Ok ()"
    by (auto simp: ArtifactPath_def bindR_Ok_iff split: if_splits)
  then show plain: "list_all plainElem (splitOn slash (art_Path a))"
    by (intro safe_path_plain validateModuleArtifact_safe)
  show "cleanElems p = cleanElems (mod_Directory m) @ splitOn slash (art_Path a)" "isAbs p = isAbs (mod_Directory m)"
    using filepathJoin_plain [OF dir plain] p by simp_all
qed

text \<open>
  C29. The path of an artifact never leaves its module: whatever a manifest says, the elements of
  the resulting path are those of the module directory followed by at least one element, none of
  which is empty, \<open>.\<close> or \<open>..\<close>.
\<close>

theorem artifact_path_inside:
  assumes "ArtifactPath uni m a = Ok p"
  shows "\<exists>es. es \<noteq> [] \<and> cleanElems p = cleanElems (mod_Directory m) @ es \<and> list_all plainElem es \<and>
     isAbs p = isAbs (mod_Directory m)"
  using ArtifactPath_inside [OF assms] splitOn_not_Nil by blast

theorem artifact_path_inside_witness:
  "\<exists>es p. ArtifactPath \<lparr>uni_lower = id, uni_quote = id\<rparr>
      \<lparr>mod_Manifest = zeroManifest, mod_Directory = ''/opt/kv/../m'', mod_ManifestPath = [], mod_Linked = False\<rparr>
      \<lparr>art_Platform = ''linux-amd64'', art_Kind = ''executable'', art_Path = ''bin/x'', art_SHA256 = [], art_Symbol = []\<rparr> = Ok p \<and>
    cleanElems p = [''opt'', ''m''] @ es \<and> list_all plainElem es"
proof -
  let ?uni = "\<lparr>uni_lower = id, uni_quote = id\<rparr> :: unicode"
  let ?m = "\<lparr>mod_Manifest = zeroManifest, mod_Directory = ''/opt/kv/../m'', mod_ManifestPath = [], mod_Linked = False\<rparr>"
  let ?a = "\<lparr>art_Platform = ''linux-amd64'', art_Kind = ''executable'', art_Path = ''bin/x'', art_SHA256 = [], art_Symbol = []\<rparr>"
  have "ArtifactPath ?uni ?m ?a = Ok ''/opt/m/bin/x''" by code_simp
  moreover from artifact_path_inside [OF this] obtain es where
    "cleanElems ''/opt/m/bin/x'' = cleanElems (mod_Directory ?m) @ es" "list_all plainElem es" by blast
  moreover have "cleanElems (mod_Directory ?m) = [''opt'', ''m'']" by code_simp
  ultimately show ?thesis by metis
qed

section \<open>Discovery\<close>

lemma readModuleAt_Some:
  assumes "readModuleAt host fs dir = Ok (Some m)"
  shows "Validate (mh_uni host) (mod_Manifest m) = Ok ()" "mod_Directory m = dir" "\<not> mod_Linked m"
  using assms by (auto simp: readModuleAt_def Let_def split: res.splits sum.splits bool.splits if_splits)

text \<open>A module that its manifest file describes.\<close>

definition onDisk :: "moduleHost \<Rightarrow> fileSystem \<Rightarrow> Module \<Rightarrow> bool" where
  "onDisk host fs m \<longleftrightarrow> readModuleAt host fs (mod_Directory m) = Ok (Some m)"

lemma readModuleAt_onDisk: "readModuleAt host fs dir = Ok (Some m) \<Longrightarrow> onDisk host fs m"
  using readModuleAt_Some(2) by (simp add: onDisk_def)

lemma nestedLoop_onDisk:
  "nestedLoop host fs child entries ms = Ok r \<Longrightarrow> list_all (onDisk host fs) ms \<Longrightarrow> list_all (onDisk host fs) r"
proof (induction entries arbitrary: ms)
  case (Cons entry entries)
  show ?case
  proof (cases "snd entry")
    case True
    then obtain q where q: "readModuleAt host fs (filepathJoin [child, fst entry]) = Ok q"
      "nestedLoop host fs child entries (case q of Some module \<Rightarrow> ms @ [module] | None \<Rightarrow> ms) = Ok r"
      using Cons.prems(1) by (auto simp: bindR_Ok_iff)
    show ?thesis
      using Cons.IH [OF q(2)] Cons.prems(2) readModuleAt_onDisk q(1) by (cases q) auto
  qed (use Cons in simp)
qed simp

lemma entriesLoop_onDisk:
  "entriesLoop host fs root entries ms = Ok r \<Longrightarrow> list_all (onDisk host fs) ms \<Longrightarrow> list_all (onDisk host fs) r"
proof (induction entries arbitrary: ms)
  case (Cons entry entries)
  let ?child = "filepathJoin [root, fst entry]"
  consider "entriesLoop host fs root entries ms = Ok r"
    | m where "readModuleAt host fs ?child = Ok (Some m)" "entriesLoop host fs root entries (ms @ [m]) = Ok r"
    | nested ms' where "nestedLoop host fs ?child nested ms = Ok ms'" "entriesLoop host fs root entries ms' = Ok r"
    using Cons.prems(1) by (auto simp: bindR_Ok_iff Let_def split: if_splits option.splits res.splits)
  then show ?case
  proof cases
    case 1
    then show ?thesis using Cons by blast
  next
    case 2
    then show ?thesis using Cons.IH [OF 2(2)] Cons.prems(2) readModuleAt_onDisk [OF 2(1)] by simp
  next
    case 3
    then show ?thesis using Cons.IH [OF 3(2)] nestedLoop_onDisk [OF 3(1) Cons.prems(2)] by simp
  qed
qed simp

lemma discoverModulesAt_onDisk: "discoverModulesAt host fs path = Ok r \<Longrightarrow> list_all (onDisk host fs) r"
proof -
  assume d: "discoverModulesAt host fs path = Ok r"
  show ?thesis
  proof (cases "TrimSpace path = [] \<or> (\<forall>isDir. os_Stat fs (Clean path) \<noteq> Ok isDir)")
    case True
    then have "r = []" using d by (cases "os_Stat fs (Clean path)") (simp_all add: discoverModulesAt_def Let_def split: if_splits)
    then show ?thesis by simp
  next
    case False
    then obtain isDir where stat: "os_Stat fs (Clean path) = Ok isDir" "TrimSpace path \<noteq> []" by blast
    then have "isDir" using d by (simp add: discoverModulesAt_def Let_def split: if_splits)
    then obtain q where q: "readModuleAt host fs (Clean path) = Ok q"
      using d stat by (cases "readModuleAt host fs (Clean path)") (simp_all add: discoverModulesAt_def Let_def)
    show ?thesis
    proof (cases q)
      case (Some m)
      then have "r = [m]" using d stat q \<open>isDir\<close> by (simp add: discoverModulesAt_def Let_def)
      then show ?thesis using readModuleAt_onDisk q Some by simp
    next
      case None
      then obtain entries where "entriesLoop host fs (Clean path) entries [] = Ok r"
        using d stat q \<open>isDir\<close> by (cases "os_ReadDir fs (Clean path)") (simp_all add: discoverModulesAt_def Let_def)
      from entriesLoop_onDisk [OF this] show ?thesis by simp
    qed
  qed
qed

lemma addModules_Ok:
  "addModules uni items ms = Ok r \<Longrightarrow> distinct (map moduleName ms) \<Longrightarrow>
   r = ms @ items \<and> distinct (map moduleName r)"
proof (induction items arbitrary: ms)
  case (Cons item items)
  then have none: "find (\<lambda>m. moduleName m = moduleName item) ms = None"
    and rest: "addModules uni items (ms @ [item]) = Ok r" by (auto split: option.splits)
  from none have "moduleName item \<notin> moduleName ` set ms" by (auto simp: find_None_iff)
  then have "distinct (map moduleName (ms @ [item]))" using Cons.prems(2) by simp
  from Cons.IH [OF rest this] show ?case by (metis append.assoc append_Cons append_Nil)
qed simp

lemma discoverRoots_Ok:
  "discoverRoots host fs roots ms = Ok r \<Longrightarrow> distinct (map moduleName ms) \<Longrightarrow> list_all (onDisk host fs) ms \<Longrightarrow>
   distinct (map moduleName r) \<and> list_all (onDisk host fs) r"
proof (induction roots arbitrary: ms)
  case (Cons root roots)
  then obtain items ms' where d: "discoverModulesAt host fs root = Ok items" "addModules (mh_uni host) items ms = Ok ms'"
    "discoverRoots host fs roots ms' = Ok r" by (auto simp: bindR_Ok_iff)
  from addModules_Ok [OF d(2) Cons.prems(2)] have ms': "ms' = ms @ items" "distinct (map moduleName ms')" by (rule conjunct1, rule conjunct2)
  then have "list_all (onDisk host fs) ms'" using discoverModulesAt_onDisk [OF d(1)] Cons.prems(3) by simp
  from Cons.IH [OF d(3) ms'(2) this] show ?case .
qed simp

lemma DiscoverModules_Ok:
  assumes "DiscoverModules host fs paths = Ok ms"
  shows "sorted (map moduleName ms)" "distinct (map moduleName ms)" "list_all (onDisk host fs) ms"
proof -
  from assms obtain r where r: "discoverRoots host fs (uniqueModulePaths (if paths = [] then DefaultModulePaths host else paths)) [] = Ok r"
    and ms: "ms = sort_key moduleName r" by (auto simp: DiscoverModules_def bindR_Ok_iff)
  from discoverRoots_Ok [OF r] have ok: "distinct (map moduleName r)" "list_all (onDisk host fs) r" by auto
  show "sorted (map moduleName ms)" by (simp add: ms)
  show "list_all (onDisk host fs) ms" using ok(2) by (simp add: ms list_all_iff)
  show "distinct (map moduleName ms)" using ok(1) by (simp add: ms distinct_map)
qed

text \<open>
  C30. What the catalog lists is well-formed: modules have distinct names, in order, each was read
  from the manifest in its own directory, and each of those manifests passed validation.
\<close>

theorem discovered_modules_valid:
  assumes "DiscoverModules host fs paths = Ok ms"
  shows "sorted (map moduleName ms) \<and> distinct (map moduleName ms) \<and>
    (\<forall>m. List.member ms m \<longrightarrow> readModuleAt host fs (mod_Directory m) = Ok (Some m) \<and>
       Validate (mh_uni host) (mod_Manifest m) = Ok ())"
  using DiscoverModules_Ok [OF assms] readModuleAt_Some(1)
  by (auto simp: list_all_iff onDisk_def)

text \<open>A directory with one module, for concrete instances.\<close>

definition demoJson :: json where
  "demoJson = JObj [(''schema_version'', JNum ''1''), (''name'', JStr ''demo''), (''kind'', JStr ''extension''),
     (''version'', JStr ''1''), (''module_abi'', JNum ''1''), (''license'', JStr ''MIT''),
     (''artifacts'', JArr [JObj [(''platform'', JStr ''linux-amd64''), (''kind'', JStr ''executable''),
        (''path'', JStr ''bin/demo''), (''sha256'', JStr (replicate 64 CHR ''0''))]])]"

definition demoFiles :: fileSystem where
  "demoFiles = \<lparr>fs_nodes = [(''/m'', Dir), (''/m/kvlite-module.json'', File (encodeJson demoJson)), (''/m/bin/demo'', File ''run'')],
     fs_fault = (\<lambda>_ _. None), fs_room = (\<lambda>_. None)\<rparr>"

definition demoHost :: moduleHost where
  "demoHost = \<lparr>mh_uni = \<lparr>uni_lower = id, uni_quote = id\<rparr>, mh_platform = ''linux-amd64'', mh_env = (\<lambda>_. []),
     mh_sha256 = (\<lambda>_. replicate 32 CHR 0x00), mh_jsonError = id\<rparr>"

definition demoModule :: Module where
  "demoModule = \<lparr>mod_Manifest = zeroManifest\<lparr>mm_SchemaVersion := 1, mm_Name := ''demo'', mm_Kind := ''transport'', mm_Version := ''1'',
       mm_ModuleABI := 1, mm_License := ''MIT'', mm_Artifacts := [\<lparr>art_Platform = ''linux-amd64'', art_Kind = ''executable'',
         art_Path = ''bin/demo'', art_SHA256 = replicate 64 CHR ''0'', art_Symbol = []\<rparr>]\<rparr>,
     mod_Directory = ''/m'', mod_ManifestPath = ''/m/kvlite-module.json'', mod_Linked = False\<rparr>"

lemma demo_decode: "decodeDocument manifestFields zeroManifest (encodeJson demoJson)
    = Inr ((mod_Manifest demoModule)\<lparr>mm_Kind := ''extension''\<rparr>)"
proof -
  have one: "''1'' = FormatInt 1" by code_simp
  have "jsonOk 0 demoJson" by (auto simp: demoJson_def maxNestingDepth_def one)
  moreover have "toValidUTF8 (replicate 64 CHR ''0'') = replicate 64 CHR ''0''"
    by (rule toValidUTF8_ASCII) (simp add: list_all_iff)
  then have "jsonNorm demoJson = demoJson" by (simp add: demoJson_def toValidUTF8_ASCII)
  ultimately have "decodeNext (encodeJson demoJson) = Decoded demoJson []"
    using decodeNext_encode [of demoJson "[]"] by simp
  moreover have "decodeNext [] = DecodeEOF" by (simp add: decodeNext_def skipSpace_def)
  moreover have "ParseInt 64 ''1'' = Inr 1" by (simp add: ParseInt_def splitSign_def digitVal_def)
  then have "decodeStruct manifestFields demoJson zeroManifest = Some ((mod_Manifest demoModule)\<lparr>mm_Kind := ''extension''\<rparr>)"
    by (simp add: decodeStruct_def demoJson_def fieldFor_def manifestFields_def artifactFields_def upperByte_def Let_def
        decodeString_def decodeInt_def decodeSlice_def zeroManifest_def zeroArtifact_def demoModule_def)
  ultimately show ?thesis by (simp add: decodeDocument_def)
qed

lemma demo_discovered: "DiscoverModules demoHost demoFiles [''/m''] = Ok [demoModule]"
proof -
  have path: "Clean ''/m'' = ''/m''" "TrimSpace ''/m'' = ''/m''" "filepathJoin [''/m'', ModuleManifestFilename] = ''/m/kvlite-module.json''"
    "Clean ''/m/kvlite-module.json'' = ''/m/kvlite-module.json''" by code_simp+
  have valid: "Validate (mh_uni demoHost) (mod_Manifest demoModule) = Ok ()" by code_simp
  have "os_ReadFile demoFiles ''/m/kvlite-module.json'' = Ok (encodeJson demoJson)"
    by (simp add: os_ReadFile_def fs_at_def demoFiles_def path)
  moreover have "(mod_Manifest demoModule)\<lparr>mm_Kind := ''extension''\<rparr>\<lparr>mm_Kind := canonicalModuleKind ''extension''\<rparr> = mod_Manifest demoModule"
    by code_simp
  ultimately have "readModuleAt demoHost demoFiles ''/m'' = Ok (Some demoModule)"
    using valid demo_decode by (simp add: readModuleAt_def path Let_def) (simp add: demoModule_def)
  moreover have "os_Stat demoFiles ''/m'' = Ok True" by (simp add: os_Stat_def fs_at_def demoFiles_def path)
  ultimately show ?thesis
    by (simp add: DiscoverModules_def uniqueModulePaths_def path discoverModulesAt_def Let_def)
qed

theorem discovered_modules_valid_witness:
  "DiscoverModules demoHost demoFiles [''/m''] = Ok [demoModule] \<and>
   readModuleAt demoHost demoFiles ''/m'' = Ok (Some demoModule)"
  using discovered_modules_valid [OF demo_discovered] demo_discovered by (simp add: demoModule_def)

end
