(* ===== verification/BackendProps.thy ===== *)
theory BackendProps
  imports Backend ModuleProps
begin

text \<open>
  The manifest of a database: it is read as it was written, and it binds its directory to the driver
  that was opened there.
\<close>

section \<open>The manifest is read as it was written\<close>

definition bindable :: "'s registeredDriver \<Rightarrow> bool" where
  "bindable d \<longleftrightarrow> list_all (\<lambda>s. s \<noteq> [] \<and> ValidString s)
     [di_Backend (rd_info d), di_Implementation (rd_info d), di_Format (rd_info d), di_Version (rd_info d)]"

definition sameStore :: "'s registeredDriver \<Rightarrow> 't registeredDriver \<Rightarrow> bool" where
  "sameStore d e \<longleftrightarrow> di_Backend (rd_info d) = di_Backend (rd_info e) \<and>
     di_Implementation (rd_info d) = di_Implementation (rd_info e) \<and> di_Format (rd_info d) = di_Format (rd_info e)"

lemma decodeDocument_manifest:
  assumes "bindable d"
  shows "decodeDocument backendManifestFields zeroBackendManifest
     (encodeJson (backendManifestJson (manifestFor d)) @ [CHR 0x0A]) = Inr (manifestFor d)"
proof -
  have ok: "jsonOk 0 (backendManifestJson (manifestFor d))"
    by (auto simp: backendManifestJson_def maxNestingDepth_def)
  have norm: "jsonNorm (backendManifestJson (manifestFor d)) = backendManifestJson (manifestFor d)"
    using assms
    by (simp add: backendManifestJson_def manifestFor_def bindable_def toValidUTF8_valid toValidUTF8_ASCII)
  have "decodeStruct backendManifestFields (backendManifestJson (manifestFor d)) zeroBackendManifest = Some (manifestFor d)"
    by (simp add: decodeStruct_def backendManifestJson_def fieldFor_def backendManifestFields_def upperByte_def Let_def
        decodeString_def decodeInt_def zeroBackendManifest_def manifestFor_def backendManifestVersion_def ParseInt_FormatInt)
  then show ?thesis
    using decodeNext_encode [OF ok, of "[CHR 0x0A]"] by (simp add: decodeDocument_def norm decodeNext_def)
qed

lemma validate_manifestFor:
  assumes "bindable d"
  shows "validateBackendManifest uni (manifestFor d) e = Ok () \<longleftrightarrow> sameStore d e"
  using assms by (auto simp: validateBackendManifest_def manifestFor_def bindable_def sameStore_def Let_def)

section \<open>Directories\<close>

definition isDirIn :: "fileSystem \<Rightarrow> bytes \<Rightarrow> bool" where
  "isDirIn fs a \<longleftrightarrow> map_of (fs_nodes fs) a = Some Dir"

lemma mkdirs_id: "list_all (isDirIn fs) ds \<Longrightarrow> mkdirs ds fs = (Ok (), fs)"
  by (induction ds) (simp_all add: isDirIn_def)

text \<open>\<open>grows fs fs'\<close>: faults are the same and no file or directory has changed.\<close>

definition grows :: "fileSystem \<Rightarrow> fileSystem \<Rightarrow> bool" where
  "grows fs fs' \<longleftrightarrow> fs_fault fs' = fs_fault fs \<and> (\<forall>a n. map_of (fs_nodes fs) a = Some n \<longrightarrow> map_of (fs_nodes fs') a = Some n)"

lemma grows_refl [simp]: "grows fs fs"
  by (simp add: grows_def)

lemma grows_trans: "grows a b \<Longrightarrow> grows b c \<Longrightarrow> grows a c"
  by (simp add: grows_def)

lemma grows_fs_at: "grows fs fs' \<Longrightarrow> fs_at fs p = Some n \<Longrightarrow> fs_at fs' p = Some n"
  by (simp add: grows_def fs_at_def)

lemma grows_isDir: "grows fs fs' \<Longrightarrow> isDirIn fs a \<Longrightarrow> isDirIn fs' a"
  by (simp add: grows_def isDirIn_def)

lemma mkdirs_Ok: "mkdirs ds fs = (Ok u, fs') \<Longrightarrow> grows fs fs' \<and> list_all (isDirIn fs') ds"
proof (induction ds arbitrary: fs)
  case (Cons d ds)
  show ?case
  proof (cases "map_of (fs_nodes fs) d")
    case None
    let ?fs = "fs\<lparr>fs_nodes := (d, Dir) # fs_nodes fs\<rparr>"
    have "mkdirs ds ?fs = (Ok u, fs')" using Cons.prems None by simp
    from Cons.IH [OF this] have IH: "grows ?fs fs'" "list_all (isDirIn fs') ds" by simp_all
    moreover have "grows fs ?fs" "isDirIn ?fs d" using None by (simp_all add: grows_def isDirIn_def)
    ultimately show ?thesis using grows_trans grows_isDir by auto
  next
    case (Some n)
    then have "n = Dir" "mkdirs ds fs = (Ok u, fs')" using Cons.prems by (cases n; simp)+
    with Cons.IH [of fs] Some grows_isDir [of fs fs' d] show ?thesis by (simp add: isDirIn_def)
  qed
qed simp

lemma os_MkdirAll_Ok:
  assumes "os_MkdirAll path fs = (Ok u, fs')"
  shows "grows fs fs'" "grows fs' fs2 \<Longrightarrow> os_MkdirAll path fs2 = (Ok (), fs2)"
proof -
  from assms have f: "fs_fault fs FsMkdir path = None" and m: "mkdirs (ancestors path) fs = (Ok u, fs')"
    by (auto simp: os_MkdirAll_def split: option.splits)
  from mkdirs_Ok [OF m] show g: "grows fs fs'" by simp
  assume g2: "grows fs' fs2"
  have "list_all (isDirIn fs2) (ancestors path)"
    using mkdirs_Ok [OF m] grows_isDir [OF g2] by (auto simp: list_all_iff)
  moreover have "fs_fault fs2 = fs_fault fs" using g g2 by (simp add: grows_def)
  ultimately show "os_MkdirAll path fs2 = (Ok (), fs2)" using f by (simp add: os_MkdirAll_def mkdirs_id)
qed

section \<open>Binding a directory to a driver\<close>

definition bound :: "moduleHost \<Rightarrow> bytes \<Rightarrow> 's registeredDriver \<Rightarrow> fileSystem \<Rightarrow> bool" where
  "bound host path d fs \<longleftrightarrow> os_MkdirAll path fs = (Ok (), fs) \<and>
     (\<exists>m. readBackendManifest host fs path = Ok (Some m) \<and> validateBackendManifest (mh_uni host) m d = Ok ())"

lemma readBackendManifest_grows:
  assumes "readBackendManifest host fs path = Ok (Some m)" "grows fs fs'"
  shows "readBackendManifest host fs' path = Ok (Some m)"
proof -
  from assms(1) obtain content where c: "os_ReadFile fs (manifestPath path) = Ok content"
    by (auto simp: readBackendManifest_def split: res.splits if_splits)
  then have "fs_fault fs FsRead (manifestPath path) = None" "fs_at fs (manifestPath path) = Some (File content)"
    by (auto simp: os_ReadFile_def split: option.splits node.splits)
  then have "os_ReadFile fs' (manifestPath path) = Ok content"
    using assms(2) grows_fs_at [OF assms(2)] by (simp add: os_ReadFile_def grows_def)
  with assms(1) c show ?thesis by (simp add: readBackendManifest_def)
qed

lemma createBackendManifest_Ok:
  assumes "createBackendManifest host path d fs = (Ok u, fs')" "bindable d" "fs_fault fs FsRead (manifestPath path) = None"
  shows "grows fs fs'"
    "\<exists>m. readBackendManifest host fs' path = Ok (Some m) \<and> validateBackendManifest (mh_uni host) m d = Ok ()"
proof -
  let ?file = "manifestPath path" and ?data = "encodeJson (backendManifestJson (manifestFor d)) @ [CHR 0x0A]"
  have "grows fs fs' \<and> (\<exists>m. readBackendManifest host fs' path = Ok (Some m) \<and> validateBackendManifest (mh_uni host) m d = Ok ())"
  proof (cases "os_CreateExcl ?file fs")
    case (Pair r fs1)
    show ?thesis
    proof (cases r)
      case (Err e)
      then have "fs1 = fs" using Pair by (auto simp: os_CreateExcl_def split: option.splits)
      then show ?thesis using assms(1) Pair Err
        by (auto simp: createBackendManifest_def Let_def split: if_splits res.splits option.splits)
    next
      case (Panic p)
      then show ?thesis using assms(1) Pair by (simp add: createBackendManifest_def Let_def)
    next
      case (Ok x)
      then have none: "fs_at fs ?file = None" and fs1: "fs1 = fs\<lparr>fs_nodes := (Clean ?file, File []) # fs_nodes fs\<rparr>"
        using Pair by (auto simp: os_CreateExcl_def split: option.splits)
      from assms(1) Pair Ok have "fs' = snd (file_Write ?file ?data fs1)" "fst (fst (file_Write ?file ?data fs1)) = length ?data"
        by (auto simp: createBackendManifest_def Let_def wrapE_def file_Sync_def split: prod.splits option.splits if_splits res.splits)
      then have fs': "fs' = fs1\<lparr>fs_nodes := AList.update (Clean ?file) (File ?data) (fs_nodes fs1)\<rparr>"
        by (simp add: file_Write_def Let_def)
      have g: "grows fs fs'" using none by (auto simp: grows_def fs' fs1 fs_at_def)
      have "os_ReadFile fs' ?file = Ok ?data"
        using assms(3) by (simp add: os_ReadFile_def fs' fs1 fs_at_def)
      then have "readBackendManifest host fs' path = Ok (Some (manifestFor d))"
        using decodeDocument_manifest [OF assms(2)] by (simp add: readBackendManifest_def)
      moreover have "validateBackendManifest (mh_uni host) (manifestFor d) d = Ok ()"
        by (simp add: validate_manifestFor [OF assms(2)] sameStore_def)
      ultimately show ?thesis using g by blast
    qed
  qed
  then show "grows fs fs'" "\<exists>m. readBackendManifest host fs' path = Ok (Some m) \<and> validateBackendManifest (mh_uni host) m d = Ok ()"
    by simp_all
qed

lemma prepare_Ok:
  assumes "prepareBackendManifest host path d legacy fs = (Ok r, fs')" "bindable d" "fs_fault fs FsRead (manifestPath path) = None"
  shows "grows fs fs'" "os_MkdirAll path fs' = (Ok (), fs')" "\<not> r \<Longrightarrow> bound host path d fs'" "r \<Longrightarrow> legacy"
proof -
  from assms(1) obtain fs1 u where mk: "os_MkdirAll path fs = (Ok u, fs1)"
    by (auto simp: prepareBackendManifest_def bindE_def wrapE_def split: prod.splits res.splits)
  note g1 = os_MkdirAll_Ok(1) [OF mk] and again = os_MkdirAll_Ok(2) [OF mk]
  have f1: "fs_fault fs1 FsRead (manifestPath path) = None" using g1 assms(3) by (simp add: grows_def)
  have "grows fs1 fs' \<and> (\<not> r \<longrightarrow> (\<exists>m. readBackendManifest host fs' path = Ok (Some m) \<and>
      validateBackendManifest (mh_uni host) m d = Ok ())) \<and> (r \<longrightarrow> legacy)"
  proof (cases "readBackendManifest host fs1 path")
    case (Ok found)
    show ?thesis
    proof (cases found)
      case (Some m)
      then show ?thesis using assms(1) mk Ok
        by (auto simp: prepareBackendManifest_def op_defs split: res.splits)
    next
      case None
      obtain entries where e: "os_ReadDir fs1 path = Ok entries" using assms(1) mk Ok None
        by (auto simp: prepareBackendManifest_def op_defs split: res.splits)
      show ?thesis
      proof (cases "entries = []")
        case True
        then have "createBackendManifest host path d fs1 = (Ok (), fs')" "\<not> r" using assms(1) mk Ok None e
          by (auto simp: prepareBackendManifest_def op_defs split: res.splits prod.splits)
        with createBackendManifest_Ok [OF this(1) assms(2) f1] show ?thesis by simp
      next
        case False
        then show ?thesis using assms(1) mk Ok None e
          by (auto simp: prepareBackendManifest_def op_defs split: if_splits)
      qed
    qed
  qed (use assms(1) mk in \<open>auto simp: prepareBackendManifest_def op_defs\<close>)
  then show "grows fs fs'" "os_MkdirAll path fs' = (Ok (), fs')" "\<not> r \<Longrightarrow> bound host path d fs'" "r \<Longrightarrow> legacy"
    using again grows_trans [OF g1] by (auto simp: bound_def)
qed

lemma prepare_bound:
  assumes "bound host path d fs"
  shows "sameStore d e \<Longrightarrow> prepareBackendManifest host path e legacy fs = (Ok False, fs)"
    "\<not> sameStore d e \<Longrightarrow> \<exists>err. prepareBackendManifest host path e legacy fs = (Err err, fs) \<and> errors_Is err ErrBackendMismatch"
  using assms
  by (auto simp: bound_def prepareBackendManifest_def op_defs validateBackendManifest_def sameStore_def Let_def sentinel_chain_def split: if_splits)

section \<open>Opening with a linked driver\<close>

lemma onFiles_Ok_iff: "onFiles m proc = (Ok r, proc') \<longleftrightarrow> (\<exists>fs. m (ps_files proc) = (Ok r, fs) \<and> proc' = proc\<lparr>ps_files := fs\<rparr>)"
  by (auto simp: onFiles_def split: prod.splits)

text \<open>\<open>d\<close> is the driver that a configuration selects among the linked ones, and it can run.\<close>

definition selects :: "'s process \<Rightarrow> 'v config \<Rightarrow> bytes \<Rightarrow> 's registeredDriver \<Rightarrow> 's Driver \<Rightarrow> bool" where
  "selects proc cfg name d driver \<longleftrightarrow>
     registeredDriverFor (ps_uni proc) (ps_drivers proc) (cfg_driver cfg) = Ok (name, d) \<and>
     rd_driver d = Some driver \<and> drv_Available driver = None"

lemma openConfiguredEngine_linked:
  assumes "selects proc cfg name d driver"
  shows "openConfiguredEngine path cfg proc = onFiles (
     bindE (prepareBackendManifest (ps_host proc) path d (\<not> cfg_driverExplicit cfg \<and> name = DriverRocksDB)) (\<lambda>legacy.
     bindE (drv_Open driver path (driverOptions cfg)) (\<lambda>storage.
     bindE (if legacy then createBackendManifest (ps_host proc) path d else ret ()) (\<lambda>_. ret (storage, name))))) proc"
  using assms by (simp add: selects_def openConfiguredEngine_def resolveLinkedDriverOrReportModule_def openLinked_def Let_def)

text \<open>\<open>leavesManifest\<close>: a driver keeps its hands off the manifest and the directories above it.\<close>

definition leavesManifest :: "bytes \<Rightarrow> fileSystem \<Rightarrow> fileSystem \<Rightarrow> bool" where
  "leavesManifest path fs fs' \<longleftrightarrow> fs_fault fs' = fs_fault fs \<and>
     list_all (\<lambda>a. map_of (fs_nodes fs') a = map_of (fs_nodes fs) a) (Clean (manifestPath path) # ancestors path)"

lemma leaves_MkdirAll:
  assumes "os_MkdirAll path fs = (Ok (), fs)" "leavesManifest path fs fs'"
  shows "os_MkdirAll path fs' = (Ok (), fs')"
proof -
  from assms(1) have f: "fs_fault fs FsMkdir path = None" and m: "mkdirs (ancestors path) fs = (Ok (), fs)"
    by (auto simp: os_MkdirAll_def split: option.splits)
  have "list_all (isDirIn fs') (ancestors path)"
    using mkdirs_Ok [OF m] assms(2) by (auto simp: leavesManifest_def isDirIn_def list_all_iff)
  then show ?thesis using f assms(2) by (simp add: os_MkdirAll_def mkdirs_id leavesManifest_def)
qed

lemma leaves_bound:
  assumes "bound host path d fs" "leavesManifest path fs fs'"
  shows "bound host path d fs'"
proof -
  have "fs_at fs' (manifestPath path) = fs_at fs (manifestPath path)" "fs_fault fs' = fs_fault fs"
    using assms(2) by (auto simp: leavesManifest_def fs_at_def)
  then have "os_ReadFile fs' (manifestPath path) = os_ReadFile fs (manifestPath path)"
    by (simp add: os_ReadFile_def split: option.split)
  then have "readBackendManifest host fs' path = readBackendManifest host fs path"
    by (simp add: readBackendManifest_def)
  then show ?thesis using assms leaves_MkdirAll by (auto simp: bound_def)
qed

lemma opened_bound:
  assumes "openConfiguredEngine path cfg proc = (Ok r, proc')" "selects proc cfg name d driver" "bindable d"
    "fs_fault (ps_files proc) FsRead (manifestPath path) = None"
    "\<And>fs st fs'. drv_Open driver path (driverOptions cfg) fs = (Ok st, fs') \<Longrightarrow> leavesManifest path fs fs'"
  shows "bound (ps_host proc) path d (ps_files proc')"
proof -
  from assms(1) obtain legacy fs1 st fs2 fs3 where
    prep: "prepareBackendManifest (ps_host proc) path d (\<not> cfg_driverExplicit cfg \<and> name = DriverRocksDB) (ps_files proc) = (Ok legacy, fs1)"
    and op: "drv_Open driver path (driverOptions cfg) fs1 = (Ok st, fs2)"
    and last: "(if legacy then createBackendManifest (ps_host proc) path d else ret ()) fs2 = (Ok (), fs3)"
    and proc': "ps_files proc' = fs3"
    by (auto simp: openConfiguredEngine_linked [OF assms(2)] onFiles_Ok_iff bindE_Ok_iff ret_def)
  note p = prepare_Ok [OF prep assms(3,4)]
  note lv = assms(5) [OF op]
  show ?thesis
  proof (cases legacy)
    case False
    then have "fs3 = fs2" using last by (simp add: ret_def)
    then show ?thesis using leaves_bound [OF p(3) lv] False proc' by simp
  next
    case True
    have "fs_fault fs2 FsRead (manifestPath path) = None" using p(1) lv assms(4) by (simp add: grows_def leavesManifest_def)
    moreover have "createBackendManifest (ps_host proc) path d fs2 = (Ok (), fs3)" using last True by simp
    ultimately have c: "grows fs2 fs3" "\<exists>m. readBackendManifest (ps_host proc) fs3 path = Ok (Some m) \<and> validateBackendManifest (ps_uni proc) m d = Ok ()"
      using createBackendManifest_Ok assms(3) by blast+
    have "os_MkdirAll path fs3 = (Ok (), fs3)" using os_MkdirAll_Ok(2) [OF leaves_MkdirAll [OF p(2) lv] c(1)] .
    then show ?thesis using c(2) proc' by (simp add: bound_def)
  qed
qed

end
