(* ===== verification/OpenProps.thy ===== *)
theory OpenProps
  imports BackendProps
begin

text \<open>
  Properties of opening a database: which drivers a directory accepts, the registry and the default
  driver, the memory driver, the modules that are loaded, and two flaws of the manifest.
\<close>

section \<open>Directories and drivers\<close>

text \<open>
  C12. Among linked drivers, a directory stays with the one that created it. Once a database has been
  opened with a linked driver that leaves the manifest alone, opening the directory with a linked
  driver of the same name, implementation and format goes on to that driver, on the files as they are;
  opening it with any other linked driver that can run is refused with \<open>ErrBackendMismatch\<close>, before
  that driver is called and with no file changed. Versions do not matter. Modules that are not linked
  take another path, on which the manifest is not compared; a later property is about them.
\<close>

theorem directory_stays_with_driver:
  assumes "openConfiguredEngine path cfg proc = (Ok r, proc')" "selects proc cfg name d driver" "bindable d"
    "fs_fault (ps_files proc) FsRead (manifestPath path) = None"
    "\<And>fs st fs'. drv_Open driver path (driverOptions cfg) fs = (Ok st, fs') \<Longrightarrow> leavesManifest path fs fs'"
    and later: "ps_host later = ps_host proc" "ps_files later = ps_files proc'" "selects later cfg2 name2 e driver2"
  shows "if sameStore d e
    then openConfiguredEngine path cfg2 later
      = onFiles (bindE (drv_Open driver2 path (driverOptions cfg2)) (\<lambda>storage. ret (storage, name2))) later
    else (\<exists>err. openConfiguredEngine path cfg2 later = (Err err, later) \<and> errors_Is err ErrBackendMismatch)"
proof -
  have b: "bound (ps_host later) path d (ps_files later)"
    unfolding later(1,2) by (rule opened_bound [OF assms(1-5)])
  note step = openConfiguredEngine_linked [OF later(3)]
  show ?thesis
  proof (cases "sameStore d e")
    case True
    note prep = prepare_bound(1) [OF b True]
    have "openConfiguredEngine path cfg2 later
        = onFiles (bindE (drv_Open driver2 path (driverOptions cfg2)) (\<lambda>storage. bindE (ret ()) (\<lambda>_. ret (storage, name2)))) later"
      unfolding step onFiles_def by (subst bindE_def) (simp add: prep)
    then show ?thesis using True by (simp add: op_simps)
  next
    case False
    from prepare_bound(2) [OF b False] obtain err where
      "prepareBackendManifest (ps_host later) path e (\<not> cfg_driverExplicit cfg2 \<and> name2 = DriverRocksDB) (ps_files later)
        = (Err err, ps_files later)" "errors_Is err ErrBackendMismatch" by blast
    then show ?thesis using False unfolding step onFiles_def by (simp add: bindE_def)
  qed
qed

text \<open>
  C13. A linked driver does not take over a directory that has files but no manifest: unless it is
  RocksDB by default, opening fails with \<open>ErrBackendManifestMissing\<close> and changes nothing. With RocksDB
  by default, the legacy case, the driver opens the directory first, and the manifest is written only
  after it has succeeded. A module that is not linked opens the directory before its manifest is
  looked for, and is not covered.
\<close>

theorem unmarked_directory:
  assumes "selects proc cfg name d driver" "os_MkdirAll path (ps_files proc) = (Ok (), ps_files proc)"
    "fs_fault (ps_files proc) FsRead (manifestPath path) = None" "fs_at (ps_files proc) (manifestPath path) = None"
    "os_ReadDir (ps_files proc) path = Ok (entry # entries)"
  shows "if cfg_driverExplicit cfg \<or> name \<noteq> DriverRocksDB
    then (\<exists>err. openConfiguredEngine path cfg proc = (Err err, proc) \<and> errors_Is err ErrBackendManifestMissing)
    else openConfiguredEngine path cfg proc
      = onFiles (bindE (drv_Open driver path (driverOptions cfg)) (\<lambda>storage.
          bindE (createBackendManifest (ps_host proc) path d) (\<lambda>_. ret (storage, name)))) proc"
proof -
  have "readBackendManifest (ps_host proc) (ps_files proc) path = Ok None"
    using assms(3,4) by (simp add: readBackendManifest_def os_ReadFile_def errNoEntry_def pathError_def errors_Is_def)
  then have prep: "prepareBackendManifest (ps_host proc) path d legacy (ps_files proc)
      = (if legacy then Ok True else Err (errManifestMissing (ps_uni proc) path d), ps_files proc)" for legacy
    using assms(2,5) by (simp add: prepareBackendManifest_def op_defs)
  show ?thesis
    by (auto simp: openConfiguredEngine_linked [OF assms(1)] onFiles_def bindE_def prep errManifestMissing_def sentinel_chain_def
        split: prod.splits res.splits)
qed

section \<open>A fresh directory\<close>

lemma createBackendManifest_fresh:
  assumes "fs_healthy fs" "fs_at fs (manifestPath path) = None" "bindable d"
  shows "\<exists>fs2. createBackendManifest host path d fs = (Ok (), fs2)"
  using assms by (simp add: createBackendManifest_def os_CreateExcl_def file_Write_def file_Sync_def fs_healthy_def wrapE_def Let_def)

lemma prepare_fresh:
  assumes "os_MkdirAll path fs = (Ok (), fs1)" "fs_healthy fs1" "fs_at fs1 (manifestPath path) = None"
    "os_ReadDir fs1 path = Ok []" "bindable d"
  shows "\<exists>fs2. prepareBackendManifest host path d legacy fs = (Ok False, fs2) \<and> bound host path d fs2"
proof -
  from createBackendManifest_fresh [OF assms(2,3,5)] obtain fs2 where
    c: "createBackendManifest host path d fs1 = (Ok (), fs2)" by blast
  have r: "readBackendManifest host fs1 path = Ok None"
    using assms(2,3) by (simp add: readBackendManifest_def os_ReadFile_def errNoEntry_def pathError_def errors_Is_def fs_healthy_def)
  have p: "prepareBackendManifest host path d legacy fs = (Ok False, fs2)"
    using assms(1,4) c r by (simp add: prepareBackendManifest_def op_defs)
  have "fs_fault fs = fs_fault fs1" using os_MkdirAll_Ok(1) [OF assms(1)] by (simp add: grows_def)
  then have "fs_fault fs FsRead (manifestPath path) = None" using assms(2) by (simp add: fs_healthy_def)
  with prepare_Ok(3) [OF p assms(5)] p show ?thesis by simp
qed

section \<open>The memory driver\<close>

definition memoryRegistered :: "memoryDriverEngine registeredDriver" where
  "memoryRegistered = \<lparr>rd_driver = Some memoryDriver_Driver, rd_info = memoryDriver_Info\<rparr>"

lemma memory_name: "normalizeDriverName uni DriverMemory = Ok DriverMemory" "normalizeModuleName uni DriverMemory = Ok DriverMemory"
proof -
  have "list_all nameChar DriverMemory" "DriverMemory \<noteq> []" by code_simp+
  then show "normalizeDriverName uni DriverMemory = Ok DriverMemory" "normalizeModuleName uni DriverMemory = Ok DriverMemory"
    using normalize_canonical by blast+
qed

lemma memoryModule_valid: "Validate uni memoryModule = Ok ()"
proof -
  have "list_all nameChar ''embedded-storage''" "list_all nameChar ''ephemeral''" by code_simp+
  then have caps: "normalizeModuleName uni ''embedded-storage'' = Ok ''embedded-storage''" "normalizeModuleName uni ''ephemeral'' = Ok ''ephemeral''"
    using normalize_canonical(1) by blast+
  have m: "mm_SchemaVersion memoryModule = ModuleManifestVersion" "mm_Name memoryModule = DriverMemory" "mm_Driver memoryModule = DriverMemory"
    "mm_Capabilities memoryModule = [''embedded-storage'', ''ephemeral'']" "mm_Dependencies memoryModule = []" "mm_Artifacts memoryModule = []"
    by (simp_all add: memoryModule_def zeroManifest_def)
  have c: "mm_Kind memoryModule \<noteq> []" "mm_Kinds memoryModule = []" "ProvidedKinds memoryModule = [ModuleKindEngine]"
    "TrimSpace (mm_Version memoryModule) \<noteq> []" "\<not> list_ex unicodeWhitespace (mm_Version memoryModule)"
    "mm_ModuleABI memoryModule = ModuleABIVersion" "TrimSpace (mm_License memoryModule) \<noteq> []" "Provides memoryModule ModuleKindEngine"
    by code_simp+
  show ?thesis
    by (simp add: Validate_def m c memory_name validateShape_def validateDriver_def ParseDriverName_def validateModuleTokens_def caps Let_def)
qed

lemma initMemory_Ok:
  "initMemory uni ([], []) = (Ok (), ([(DriverMemory, memoryRegistered)], [(DriverMemory, memoryModule)]))"
proof -
  have t: "TrimSpace ''memory'' \<noteq> []" "TrimSpace ''memory-v1'' \<noteq> []" "TrimSpace ''v1.0.0'' \<noteq> []" "DriverMemory \<noteq> []" by code_simp+
  have k: "memoryModule\<lparr>mm_Kind := canonicalModuleKind (mm_Kind memoryModule)\<rparr> = memoryModule" "mm_Name memoryModule = DriverMemory" by code_simp+
  have "RegisterDriver uni (Some memoryDriver_Driver) [] = (Ok (), [(DriverMemory, memoryRegistered)])"
    using t by (simp add: RegisterDriver_def memoryDriver_Driver_def memoryDriver_Info_def memoryRegistered_def memory_name Let_def)
  moreover have "RegisterLinkedModule uni memoryModule [] = (Ok (), [(DriverMemory, memoryModule)])"
    by (simp add: RegisterLinkedModule_def k memoryModule_valid Let_def)
  ultimately show ?thesis by (simp add: initMemory_def MustRegisterDriver_def MustRegisterLinkedModule_def)
qed

lemma memory_bindable: "bindable memoryRegistered"
  by (simp add: bindable_def memoryRegistered_def memoryDriver_Info_def DriverMemory_def ValidString_ASCII)

text \<open>
  C14. A process with nothing but the built-in driver can open a database. Its initialisation
  succeeds; after it, opening an empty directory of a working file system under any spelling of
  \<open>memory\<close> gives a handle on an empty memory engine with the configuration asked for, and leaves the
  directory bound to that driver.
\<close>

theorem open_memory:
  assumes "initMemory (ps_uni proc) ([], []) = (r, (ps_drivers proc, ps_linked proc))"
    "normalizeDriverName (ps_uni proc) name = Ok DriverMemory" "path \<noteq> []"
    "os_MkdirAll path (ps_files proc) = (Ok (), fs)" "fs_healthy fs" "fs_at fs (manifestPath path) = None" "os_ReadDir fs path = Ok []"
  shows "r = Ok () \<and> (\<exists>proc'.
    Open json clock path [Some (WithDriver (ps_uni proc) name)] proc
      = (Ok (newDB memoryDriver memoryDriver_Open
           ((defaultConfig json clock)\<lparr>cfg_driver := DriverMemory, cfg_driverExplicit := True\<rparr>) DriverMemory), proc') \<and>
    bound (ps_host proc) path memoryRegistered (ps_files proc'))"
proof -
  let ?cfg = "(defaultConfig json clock)\<lparr>cfg_driver := DriverMemory, cfg_driverExplicit := True\<rparr>"
  have r: "r = Ok ()" "ps_drivers proc = [(DriverMemory, memoryRegistered)]" using assms(1) by (simp_all add: initMemory_Ok)
  have sel: "selects proc ?cfg DriverMemory memoryRegistered memoryDriver_Driver"
    by (simp add: selects_def registeredDriverFor_def memory_name r memoryRegistered_def memoryDriver_Driver_def)
  from prepare_fresh [OF assms(4-7) memory_bindable] obtain fs2 where
    p: "prepareBackendManifest (ps_host proc) path memoryRegistered False (ps_files proc) = (Ok False, fs2)"
    and b: "bound (ps_host proc) path memoryRegistered fs2" by blast
  have "buildConfig json clock [Some (WithDriver (ps_uni proc) name)] = Ok ?cfg"
    using assms(2) by (simp add: buildConfig_def WithDriver_def)
  moreover have "openConfiguredEngine path ?cfg proc = (Ok ((memoryDriver, memoryDriver_Open), DriverMemory), proc\<lparr>ps_files := fs2\<rparr>)"
    unfolding openConfiguredEngine_linked [OF sel]
    using p by (simp add: onFiles_def op_defs memoryDriver_Driver_def)
  ultimately show ?thesis using assms(3) r b by (simp add: Open_def op_defs)
qed

section \<open>The registry\<close>

definition registryOk :: "'s driverRegistry \<Rightarrow> bool" where
  "registryOk registry \<longleftrightarrow> distinct (map fst registry) \<and>
     list_all (\<lambda>(name, rd). name \<noteq> [] \<and> list_all nameChar name \<and> di_Driver (rd_info rd) = name \<and> di_Backend (rd_info rd) = name \<and>
       (\<exists>driver. rd_driver rd = Some driver)) registry"

lemma RegisterDriver_cases:
  assumes "RegisterDriver uni driver registry = (r, registry')"
  shows "(\<exists>e. r = Err e \<and> registry' = registry) \<or>
    (\<exists>name rd. r = Ok () \<and> registry' = registry @ [(name, rd)] \<and> map_of registry name = None \<and> name \<noteq> [] \<and> list_all nameChar name \<and>
       di_Driver (rd_info rd) = name \<and> di_Backend (rd_info rd) = name \<and> rd_driver rd = driver \<and> driver \<noteq> None)"
proof (cases driver)
  case None
  then show ?thesis using assms by (auto simp: RegisterDriver_def)
next
  case (Some d)
  let ?name = "if di_Driver (drv_Info d) = [] then di_Backend (drv_Info d) else di_Driver (drv_Info d)"
  have upd: "AList.update k v xs = xs @ [(k, v)]" if "map_of xs k = None" for k v and xs :: "'a driverRegistry"
    using that by (induction xs) (auto split: if_splits)
  show ?thesis
  proof (cases "normalizeDriverName uni ?name")
    case (Ok c)
    from normalizeDriverName_Ok [OF this] have "c \<noteq> []" "list_all nameChar c" by simp_all
    then show ?thesis using assms Some Ok by (auto simp: RegisterDriver_def Let_def upd split: if_splits)
  next
    case (Panic p)
    then show ?thesis by (simp add: normalizeDriverName_def Let_def split: if_splits)
  qed (use assms Some in \<open>auto simp: RegisterDriver_def Let_def\<close>)
qed

lemma registeredDriverFor_Ok_iff:
  "registeredDriverFor uni registry name = Ok (c, rd) \<longleftrightarrow> normalizeDriverName uni name = Ok c \<and> map_of registry c = Some rd"
  by (auto simp: registeredDriverFor_def bindR_Ok_iff split: option.splits)

lemma Drivers_names:
  assumes "registryOk registry"
  shows "map di_Driver (Drivers registry) = sort (map fst registry)"
proof -
  have "map di_Driver (Drivers registry) = map fst (sort_key fst registry)"
    using assms by (auto simp: Drivers_def withAvailability_def registryOk_def list_all_iff)
  also have "\<dots> = sort (map fst registry)"
    using assms by (intro sorted_distinct_set_unique) (simp_all add: registryOk_def distinct_map)
  finally show ?thesis .
qed

text \<open>
  C32. Registering a driver never changes which implementation a name stands for: whatever the
  outcome, every name that resolved still resolves to the same driver, and the registry keeps
  canonical, distinct names. A driver that is accepted is found under its name, and \<open>Drivers\<close> lists
  it, in order of names.
\<close>

theorem registry_is_stable:
  assumes "registryOk registry" "RegisterDriver uni driver registry = (r, registry')"
  shows "registryOk registry' \<and> sorted (map di_Driver (Drivers registry')) \<and> distinct (map di_Driver (Drivers registry')) \<and>
    (\<forall>name found. registeredDriverFor uni registry name = Ok found \<longrightarrow> registeredDriverFor uni registry' name = Ok found) \<and>
    (if r = Ok ()
     then \<exists>c rd. registeredDriverFor uni registry' c = Ok (c, rd) \<and> rd_driver rd = driver \<and>
       set (map di_Driver (Drivers registry')) = insert c (set (map di_Driver (Drivers registry)))
     else registry' = registry)"
proof -
  consider (bad) e where "r = Err e" "registry' = registry"
    | (good) c rd where "r = Ok ()" "registry' = registry @ [(c, rd)]" "map_of registry c = None" "c \<noteq> []" "list_all nameChar c"
      "di_Driver (rd_info rd) = c" "di_Backend (rd_info rd) = c" "rd_driver rd = driver" "driver \<noteq> None"
    using RegisterDriver_cases [OF assms(2)] by blast
  then show ?thesis
  proof cases
    case bad
    then show ?thesis using assms(1) Drivers_names [OF assms(1)] by (simp add: registryOk_def)
  next
    case good
    have new: "registryOk registry'" using good assms(1) by (auto simp: registryOk_def map_of_eq_None_iff)
    have keep: "registeredDriverFor uni registry' name = Ok found" if "registeredDriverFor uni registry name = Ok found" for name found
      using that by (cases found) (auto simp: registeredDriverFor_Ok_iff good(2) map_add_Some_iff good(3))
    have "registeredDriverFor uni registry' c = Ok (c, rd)"
      using good(3) normalize_canonical(2) [OF good(4,5)] by (simp add: registeredDriverFor_Ok_iff good(2) map_add_def)
    moreover have "set (map di_Driver (Drivers registry')) = insert c (set (map di_Driver (Drivers registry)))"
      unfolding Drivers_names [OF new] Drivers_names [OF assms(1)] by (simp add: good(2))
    ultimately show ?thesis using new keep good(1,8) Drivers_names [OF new] new by (auto simp: registryOk_def)
  qed
qed

theorem registry_is_stable_witness:
  "let uni = \<lparr>uni_lower = id, uni_quote = id\<rparr> in
   \<exists>c rd. registeredDriverFor uni (snd (RegisterDriver uni (Some memoryDriver_Driver) [])) c = Ok (c, rd) \<and>
     rd_driver rd = Some memoryDriver_Driver"
proof -
  let ?uni = "\<lparr>uni_lower = id, uni_quote = id\<rparr> :: unicode"
  have "fst (RegisterDriver ?uni (Some memoryDriver_Driver) []) = Ok ()"
    using initMemory_Ok [of ?uni] by (auto simp: initMemory_def MustRegisterDriver_def split: prod.splits res.splits)
  moreover have "registryOk ([] :: memoryDriverEngine driverRegistry)" by (simp add: registryOk_def)
  ultimately show ?thesis
    using registry_is_stable [of "[]" ?uni "Some memoryDriver_Driver" "Ok ()" "snd (RegisterDriver ?uni (Some memoryDriver_Driver) [])"]
    by (auto simp: Let_def prod_eq_iff)
qed

text \<open>
  C33. The default driver is never a guess between engines: it is RocksDB when that is installed,
  otherwise the only driver besides the memory driver, otherwise the memory driver when there is no
  other. With several persistent drivers and no RocksDB it names RocksDB, which then does not resolve.
\<close>

theorem default_driver_unambiguous:
  assumes "registryOk registry"
  shows "DefaultDriver uni registry =
      (let names = set (map fst registry) in
       if DriverRocksDB \<in> names then DriverRocksDB
       else if names - {DriverMemory} = {} then DriverMemory
       else if \<exists>c. names - {DriverMemory} = {c} then hd (filter (\<lambda>n. n \<noteq> DriverMemory) (map fst registry))
       else DriverRocksDB) \<and>
    (DriverRocksDB \<notin> set (map fst registry) \<longrightarrow>
      (\<exists>e. registeredDriverFor uni registry DriverRocksDB = Err e \<and> errors_Is e ErrDriverNotInstalled))"
proof -
  have "list_all nameChar DriverRocksDB" "DriverRocksDB \<noteq> []" by code_simp+
  then have norm: "normalizeDriverName uni DriverRocksDB = Ok DriverRocksDB" using normalize_canonical(2) by blast
  define ps where "ps = filter (\<lambda>n. n \<noteq> DriverMemory) (map fst registry)"
  define infos where "infos = filter (\<lambda>info. di_Driver info \<noteq> DriverMemory) (Drivers registry)"
  have "map di_Driver infos = filter (\<lambda>n. n \<noteq> DriverMemory) (map di_Driver (Drivers registry))"
    by (simp add: infos_def filter_map comp_def)
  then have infos: "map di_Driver infos = sort ps"
    by (simp add: Drivers_names [OF assms] ps_def filter_sort)
  have set_ps: "set ps = set (map fst registry) - {DriverMemory}" by (auto simp: ps_def)
  have dist: "distinct ps" using assms by (simp add: ps_def registryOk_def)
  have three: "(case infos of [info] \<Rightarrow> di_Driver info | [] \<Rightarrow> DriverMemory | _ \<Rightarrow> DriverRocksDB) =
      (if set ps = {} then DriverMemory else if \<exists>c. set ps = {c} then hd ps else DriverRocksDB)"
  proof (cases ps)
    case Nil
    then show ?thesis using infos by simp
  next
    case (Cons c cs)
    show ?thesis
    proof (cases cs)
      case Nil
      then obtain i where "infos = [i]" "di_Driver i = c" using infos Cons by (cases infos) auto
      then show ?thesis using Cons Nil by simp
    next
      case (Cons c' cs')
      then have "length infos = length ps" "c \<noteq> c'" using infos dist \<open>ps = c # cs\<close> by (metis length_map length_sort, auto)
      moreover have "\<not> (\<exists>x. set ps = {x})" using \<open>c \<noteq> c'\<close> \<open>ps = c # cs\<close> Cons by auto
      ultimately show ?thesis using \<open>ps = c # cs\<close> Cons by (auto split: list.splits)
    qed
  qed
  have miss: "registeredDriverFor uni registry DriverRocksDB = Err (errorfIs ErrDriverNotInstalled (Quote uni DriverRocksDB))"
    if "DriverRocksDB \<notin> set (map fst registry)"
    using that by (simp add: registeredDriverFor_def norm map_of_eq_None_iff [THEN iffD2])
  have hit: "\<exists>rd. registeredDriverFor uni registry DriverRocksDB = Ok (DriverRocksDB, rd)"
    if "DriverRocksDB \<in> set (map fst registry)"
    using that norm map_of_eq_None_iff [of registry DriverRocksDB] by (auto simp: registeredDriverFor_Ok_iff)
  have "DefaultDriver uni registry = (if DriverRocksDB \<in> set (map fst registry) then DriverRocksDB
      else (case infos of [info] \<Rightarrow> di_Driver info | [] \<Rightarrow> DriverMemory | _ \<Rightarrow> DriverRocksDB))"
    using hit miss by (auto simp: DefaultDriver_def infos_def simp del: set_map)
  then show ?thesis
    using miss unfolding three set_ps [symmetric] Let_def ps_def [symmetric] by (simp add: sentinel_chain_def)
qed

theorem default_driver_unambiguous_witness:
  "DefaultDriver \<lparr>uni_lower = id, uni_quote = id\<rparr> [(DriverMemory, memoryRegistered)] = DriverMemory"
proof -
  have "registryOk [(DriverMemory, memoryRegistered)]"
    by (simp add: registryOk_def memoryRegistered_def memoryDriver_Info_def DriverMemory_def nameChar_def)
  moreover have "DriverRocksDB \<noteq> DriverMemory" by code_simp
  ultimately show ?thesis using default_driver_unambiguous [of "[(DriverMemory, memoryRegistered)]"] by simp
qed

section \<open>Loaded modules\<close>

text \<open>An artifact whose file has the digest that the manifest names.\<close>

definition verified :: "moduleHost \<Rightarrow> fileSystem \<Rightarrow> Module \<Rightarrow> ModuleArtifact \<Rightarrow> bool" where
  "verified host fs m a \<longleftrightarrow> (\<exists>p content. ArtifactPath (mh_uni host) m a = Ok p \<and> fs_at fs p = Some (File content) \<and>
     art_SHA256 a \<noteq> [] \<and> EqualFold (art_SHA256 a) (map upperByte (hexEncode (mh_sha256 host content))))"

lemma verifyArtifact_Ok: "verifyArtifact host fs m a = Ok u \<Longrightarrow> verified host fs m a"
proof -
  assume v: "verifyArtifact host fs m a = Ok u"
  then obtain p where p: "ArtifactPath (mh_uni host) m a = Ok p" by (auto simp: verifyArtifact_def Let_def bindR_Ok_iff)
  have "os_Open fs p = Ok ()" using v p by (cases "os_Open fs p") (auto simp: verifyArtifact_def Let_def split: if_splits)
  moreover obtain content where c: "file_ReadAll fs p = Ok content"
    using v p calculation by (cases "file_ReadAll fs p") (auto simp: verifyArtifact_def Let_def)
  moreover have "file_Close p fs = Ok ()" using v p calculation by (cases "file_Close p fs") (auto simp: verifyArtifact_def Let_def)
  ultimately have "art_SHA256 a \<noteq> [] \<and> EqualFold (art_SHA256 a) (map upperByte (hexEncode (mh_sha256 host content)))"
    using v p by (auto simp: verifyArtifact_def Let_def split: if_splits)
  moreover have "fs_at fs p = Some (File content)" using c by (auto simp: file_ReadAll_def split: option.splits node.splits)
  ultimately show ?thesis using p by (auto simp: verified_def)
qed

lemma verifyLoop_Ok: "verifyLoop host fs m as = Ok u \<Longrightarrow> list_all (verified host fs m) as"
  by (induction as) (auto simp: bindR_Ok_iff intro: verifyArtifact_Ok)

lemma Verify_Ok:
  "Verify host fs m = Ok u \<Longrightarrow> mod_Linked m \<or> (mm_Artifacts (mod_Manifest m) \<noteq> [] \<and> list_all (verified host fs m) (mm_Artifacts (mod_Manifest m)))"
  by (auto simp: Verify_def intro: verifyLoop_Ok split: if_splits)

lemma selectDriverModule_Ok:
  "selectDriverModule uni name ms sel = Ok (Some m) \<Longrightarrow>
   sel = Some m \<or> (m \<in> set ms \<and> Provides (mod_Manifest m) ModuleKindEngine \<and> mm_Driver (mod_Manifest m) = name)"
  by (induction ms arbitrary: sel) (auto split: if_splits option.splits)

lemma resolveModuleForDriver_Ok:
  assumes "resolveModuleForDriver proc name = Ok m"
  shows "Provides (mod_Manifest m) ModuleKindEngine" "mm_Driver (mod_Manifest m) = name"
    "mod_Linked m \<or> onDisk (ps_host proc) (ps_files proc) m"
proof -
  let ?uni = "ps_uni proc"
  from assms obtain installed where i: "DiscoverModules (ps_host proc) (ps_files proc) [] = Ok installed"
    and sel: "selectDriverModule ?uni name installed None = Ok (Some m) \<or>
      selectDriverModule ?uni name (LinkedModules (ps_linked proc)) None = Ok (Some m)"
    by (auto simp: resolveModuleForDriver_def bindR_Ok_iff Let_def split: option.splits)
  have m: "m \<in> set installed \<or> m \<in> set (LinkedModules (ps_linked proc))" "Provides (mod_Manifest m) ModuleKindEngine \<and> mm_Driver (mod_Manifest m) = name"
    using sel selectDriverModule_Ok by blast+
  show "Provides (mod_Manifest m) ModuleKindEngine" "mm_Driver (mod_Manifest m) = name" using m(2) by simp_all
  show "mod_Linked m \<or> onDisk (ps_host proc) (ps_files proc) m"
    using m(1) DiscoverModules_Ok(3) [OF i] by (auto simp: list_all_iff LinkedModules_def linkedAs_def)
qed

lemma mapErr_Ok [simp]: "mapErr f r = Ok x \<longleftrightarrow> r = Ok x"
  by (cases r) (simp_all add: mapErr_def)

text \<open>
  C15. No module is loaded from disk unverified. A module that is chosen to provide a driver, by either
  kind of artifact, is an engine for that very driver and has an artifact of that kind for this
  platform. If it comes from the disk, its manifest is the validated one there, and the file of each
  artifact it lists, which lies inside the module, has the SHA-256 digest that the manifest gives.
  Modules linked into the process are exempt: their artifacts are not read.
\<close>

theorem loaded_modules_verified:
  assumes "resolveModuleDriver proc name = Ok m \<or> resolveNativeModuleDriver proc name = Ok m"
  shows "Provides (mod_Manifest m) ModuleKindEngine \<and> mm_Driver (mod_Manifest m) = name \<and>
    (\<exists>a. ArtifactForCurrentPlatform (ps_host proc) m [ModuleArtifactCShared] = Ok a \<or>
       (ArtifactForCurrentPlatform (ps_host proc) m [ModuleArtifactNative] = Ok a \<and> art_Symbol a = initSymbol)) \<and>
    (mod_Linked m \<or>
      (readModuleAt (ps_host proc) (ps_files proc) (mod_Directory m) = Ok (Some m) \<and>
       list_all (verified (ps_host proc) (ps_files proc) m) (mm_Artifacts (mod_Manifest m))))"
proof -
  from assms obtain a u where r: "resolveModuleForDriver proc name = Ok m"
    and a: "ArtifactForCurrentPlatform (ps_host proc) m [ModuleArtifactCShared] = Ok a \<or>
      (ArtifactForCurrentPlatform (ps_host proc) m [ModuleArtifactNative] = Ok a \<and> art_Symbol a = initSymbol)"
    and v: "Verify (ps_host proc) (ps_files proc) m = Ok u"
    by (auto simp: resolveModuleDriver_def resolveNativeModuleDriver_def bindR_Ok_iff Let_def split: if_splits)
  show ?thesis using resolveModuleForDriver_Ok [OF r] a Verify_Ok [OF v] by (auto simp: onDisk_def)
qed

section \<open>Native modules\<close>

lemma openNativeModuleDriver_registers:
  assumes "openNativeModuleDriver path m options proc = (Ok storage, proc')" "map_of (ps_native proc) (mod_Directory m) = None"
    "normalizeDriverName (ps_uni proc) (mm_Driver (mod_Manifest m)) = Ok c"
  shows "\<exists>driver. map_of (ps_drivers proc') c = Some \<lparr>rd_driver = Some driver, rd_info = moduleDriverInfo c m\<rparr> \<and>
    drv_Available driver = None" "ps_host proc' = ps_host proc"
proof -
  from assms(1,2,3) obtain library proc1 where
    l: "loadNativeModuleLibrary m c proc = (Ok library, proc1)"
    and rest: "bindE (wrapE (''kvlite: register native driver '' @ Quote (ps_uni proc) c @ '': '')
        (onDrivers (RegisterDriver (ps_uni proc) (Some (nativeModuleDriver (moduleDriverInfo c m) library))))) (\<lambda>_ proc.
      onFiles (drv_Open (nativeModuleDriver (moduleDriverInfo c m) library) path options)
        (proc\<lparr>ps_native := AList.update (mod_Directory m)
           \<lparr>rd_driver = Some (nativeModuleDriver (moduleDriverInfo c m) library), rd_info = moduleDriverInfo c m\<rparr> (ps_native proc)\<rparr>)) proc1
      = (Ok storage, proc')"
    by (auto simp: openNativeModuleDriver_def bindE_Ok_iff liftR_def Let_def)
  let ?d = "nativeModuleDriver (moduleDriverInfo c m) library"
  have "ps_host (snd (loadNativeModuleLibrary m c proc)) = ps_host proc"
    by (simp add: loadNativeModuleLibrary_def op_defs Let_def split: prod.split sum.split res.split)
  then have h1: "ps_host proc1 = ps_host proc" using l by simp
  from rest obtain drivers where reg: "RegisterDriver (ps_uni proc) (Some ?d) (ps_drivers proc1) = (Ok (), drivers)"
    and p: "ps_drivers proc' = drivers" "ps_host proc' = ps_host proc1"
    by (auto simp: bindE_Ok_iff wrapE_def onDrivers_def onFiles_def split: prod.splits res.splits)
  show "ps_host proc' = ps_host proc" using p h1 by simp
  have c: "c \<noteq> []" "normalizeDriverName (ps_uni proc) c = Ok c"
    using normalizeDriverName_Ok [OF assms(3)] normalize_canonical(2) by auto
  have i: "drv_Info ?d = moduleDriverInfo c m" "di_Driver (moduleDriverInfo c m) = c" "drv_Available ?d = None"
    "(moduleDriverInfo c m)\<lparr>di_Driver := c, di_Backend := c\<rparr> = moduleDriverInfo c m"
    by (simp_all add: nativeModuleDriver_def moduleDriverInfo_def)
  have "drivers = AList.update c \<lparr>rd_driver = Some ?d, rd_info = moduleDriverInfo c m\<rparr> (ps_drivers proc1)"
    using reg c by (auto simp: RegisterDriver_def i Let_def split: if_splits)
  then show "\<exists>driver. map_of (ps_drivers proc') c = Some \<lparr>rd_driver = Some driver, rd_info = moduleDriverInfo c m\<rparr> \<and> drv_Available driver = None"
    using p i by simp
qed

lemma createIfNotExists_bound:
  assumes "bound host path d fs"
  shows "createBackendManifestIfNotExists host path e fs = (Ok (), fs)"
  using assms by (auto simp: bound_def createBackendManifestIfNotExists_def op_defs)

text \<open>
  C34. The manifest does not protect a directory from a native module that is opened for the first
  time in a process: the directory of another driver is opened, and the manifest goes on naming that
  other driver. The same call made once more is refused with \<open>ErrBackendMismatch\<close>, because the first
  one has put the module's driver into the registry.
\<close>

theorem native_open_ignores_manifest:
  assumes "resolveLinkedDriverOrReportModule proc (cfg_driver cfg) = Err e" "errors_Is e ErrDriverNotLoaded"
    "resolveModuleDriver proc (cfg_driver cfg) = Err e2" "resolveNativeModuleDriver proc (cfg_driver cfg) = Ok m"
    "map_of (ps_native proc) (mod_Directory m) = None" "normalizeDriverName (ps_uni proc) (cfg_driver cfg) = Ok (cfg_driver cfg)"
    "openNativeModuleDriver path m (driverOptions cfg) proc = (Ok storage, proc')"
    "bound (ps_host proc) path d (ps_files proc')" "di_Backend (rd_info d) \<noteq> cfg_driver cfg"
  shows "openConfiguredEngine path cfg proc = (Ok (storage, cfg_driver cfg), proc') \<and>
    (\<exists>err. openConfiguredEngine path cfg proc' = (Err err, proc') \<and> errors_Is err ErrBackendMismatch)"
proof -
  have drv: "mm_Driver (mod_Manifest m) = cfg_driver cfg"
    using assms(4) resolveModuleForDriver_Ok(2) by (auto simp: resolveNativeModuleDriver_def bindR_Ok_iff Let_def split: if_splits)
  have "normalizeDriverName (ps_uni proc) (mm_Driver (mod_Manifest m)) = Ok (cfg_driver cfg)" using drv assms(6) by simp
  note reg = openNativeModuleDriver_registers [OF assms(7,5) this]
  have "os_MkdirAll path (ps_files proc') = (Ok (), ps_files proc')" using assms(8) by (simp add: bound_def)
  then have "openNativeModule path cfg m proc = (Ok (storage, cfg_driver cfg), proc')"
    using assms(6,7) drv
    by (simp add: createIfNotExists_bound [OF assms(8)] openNativeModule_def driverFromModule_def op_defs onFiles_def moduleDriverInfo_def Let_def)
  then have first: "openConfiguredEngine path cfg proc = (Ok (storage, cfg_driver cfg), proc')"
    using assms(1-4) by (simp add: openConfiguredEngine_def)
  from reg(1) obtain driver where dr: "map_of (ps_drivers proc') (cfg_driver cfg)
      = Some \<lparr>rd_driver = Some driver, rd_info = moduleDriverInfo (cfg_driver cfg) m\<rparr>" "drv_Available driver = None" by blast
  let ?e = "\<lparr>rd_driver = Some driver, rd_info = moduleDriverInfo (cfg_driver cfg) m\<rparr>"
  have sel: "selects proc' cfg (cfg_driver cfg) ?e driver"
    using dr assms(6) reg(2) by (simp add: selects_def registeredDriverFor_Ok_iff)
  have "\<not> sameStore d ?e" using assms(9) by (simp add: sameStore_def moduleDriverInfo_def)
  from prepare_bound(2) [OF assms(8) this] obtain err where
    "prepareBackendManifest (ps_host proc') path ?e (\<not> cfg_driverExplicit cfg \<and> cfg_driver cfg = DriverRocksDB) (ps_files proc')
      = (Err err, ps_files proc')" "errors_Is err ErrBackendMismatch" unfolding reg(2) by blast
  then have "openConfiguredEngine path cfg proc' = (Err err, proc')"
    unfolding openConfiguredEngine_linked [OF sel] by (simp add: onFiles_def bindE_def)
  with first \<open>errors_Is err ErrBackendMismatch\<close> show ?thesis by blast
qed

section \<open>A full disk\<close>

text \<open>
  C35. A manifest that cannot be written is left behind: when the disk is full while the first open
  of a fresh directory creates it, that open fails, and so does every later one, with whatever driver
  and with room on the disk again, because the empty manifest is not valid.
\<close>

theorem full_disk_leaves_bad_manifest:
  fixes proc :: "'s process" and cfg :: "'v config"
  assumes "selects proc cfg name d driver" "os_MkdirAll path (ps_files proc) = (Ok (), fs)" "fs_fault fs = (\<lambda>_ _. None)"
    "fs_room fs (manifestPath path) = Some 0" "fs_at fs (manifestPath path) = None" "os_ReadDir fs path = Ok []"
  shows "\<exists>err proc'. openConfiguredEngine path cfg proc = (Err err, proc') \<and>
    (\<forall>(later :: 's process) (cfg2 :: 'v config) name2 e driver2. ps_host later = ps_host proc \<longrightarrow> ps_files later = (ps_files proc')\<lparr>fs_room := \<lambda>_. None\<rparr> \<longrightarrow>
       selects later cfg2 name2 e driver2 \<longrightarrow>
       (\<exists>err. openConfiguredEngine path cfg2 later = (Err err, later) \<and> errors_Is err ErrBackendManifestInvalid))"
proof -
  let ?file = "manifestPath path"
  define fs2 where "fs2 = fs\<lparr>fs_nodes := AList.update (Clean ?file) (File []) ((Clean ?file, File []) # fs_nodes fs)\<rparr>"
  let ?fs3 = "fs2\<lparr>fs_room := \<lambda>_. None\<rparr>"
  obtain err where c: "createBackendManifest (ps_host proc) path d fs = (Err err, fs2)"
    using assms(3-5) by (simp add: createBackendManifest_def os_CreateExcl_def file_Write_def fs2_def Let_def)
  have r: "readBackendManifest (ps_host proc) fs path = Ok None"
    using assms(3,5) by (simp add: readBackendManifest_def os_ReadFile_def errNoEntry_def pathError_def errors_Is_def)
  have "prepareBackendManifest (ps_host proc) path d legacy (ps_files proc) = (Err err, fs2)" for legacy
    using assms(2,6) c r by (simp add: prepareBackendManifest_def op_defs)
  then have first: "openConfiguredEngine path cfg proc = (Err err, proc\<lparr>ps_files := fs2\<rparr>)"
    unfolding openConfiguredEngine_linked [OF assms(1)] by (simp add: onFiles_def bindE_def)
  have "grows fs ?fs3" using assms(5) by (auto simp: grows_def fs2_def fs_at_def)
  note mk = os_MkdirAll_Ok(2) [OF assms(2) this]
  have "os_ReadFile ?fs3 ?file = Ok []" using assms(3) by (simp add: os_ReadFile_def fs2_def fs_at_def)
  then have bad: "readBackendManifest (ps_host proc) ?fs3 path = Err (errorfIs ErrBackendManifestInvalid (mh_jsonError (ps_host proc) []))"
    by (simp add: readBackendManifest_def decodeDocument_def decodeNext_def)
  have "openConfiguredEngine path cfg2 later = (Err (errorfIs ErrBackendManifestInvalid (mh_jsonError (ps_host proc) [])), later)"
    if "ps_host later = ps_host proc" "ps_files later = ?fs3" "selects later cfg2 name2 e driver2"
    for cfg2 :: "'v config" and later :: "'s process" and name2 e driver2
  proof -
    have "prepareBackendManifest (ps_host later) path e legacy (ps_files later)
        = (Err (errorfIs ErrBackendManifestInvalid (mh_jsonError (ps_host proc) [])), ps_files later)" for legacy
      using mk bad that(1,2) by (simp add: prepareBackendManifest_def op_defs)
    then show ?thesis unfolding openConfiguredEngine_linked [OF that(3)] by (simp add: onFiles_def bindE_def)
  qed
  then show ?thesis using first by (fastforce simp: sentinel_chain_def)
qed

section \<open>Concrete instances\<close>

definition emptyFiles :: fileSystem where
  "emptyFiles = \<lparr>fs_nodes = [], fs_fault = (\<lambda>_ _. None), fs_room = (\<lambda>_. None)\<rparr>"

definition memoryProcess :: "memoryDriverEngine process" where
  "memoryProcess = \<lparr>ps_host = demoHost, ps_files = emptyFiles, ps_linked = [(DriverMemory, memoryModule)],
     ps_drivers = [(DriverMemory, memoryRegistered)], ps_native = [],
     ps_openShared = (\<lambda>_ _ _. throw (sentinelErr ErrDriverNotLoaded)), ps_loadNative = (\<lambda>_ fs. (Inl [], fs))\<rparr>"

definition madeDirectory :: fileSystem where
  "madeDirectory = emptyFiles\<lparr>fs_nodes := [(''/d'', Dir), (''/'', Dir)]\<rparr>"

lemma demo_paths [simp]:
  "ancestors ''/d'' = [''/'', ''/d'']" "manifestPath ''/d'' = ''/d/KVLITE-MANIFEST.json''"
  "Clean ''/d/KVLITE-MANIFEST.json'' = ''/d/KVLITE-MANIFEST.json''" "Clean ''/d'' = ''/d''"
  by code_simp+

lemma madeDirectory_facts:
  "os_MkdirAll ''/d'' emptyFiles = (Ok (), madeDirectory)" "fs_healthy madeDirectory"
  "fs_at madeDirectory (manifestPath ''/d'') = None" "os_ReadDir madeDirectory ''/d'' = Ok []"
proof -
  have "childName ''/d'' ''/d'' = None" "childName ''/d'' ''/'' = None" by code_simp+
  then show "os_ReadDir madeDirectory ''/d'' = Ok []"
    by (simp add: os_ReadDir_def madeDirectory_def emptyFiles_def fs_at_def dirEntries_def map_filter_simps)
qed (simp_all add: os_MkdirAll_def madeDirectory_def emptyFiles_def fs_healthy_def fs_at_def)

theorem open_memory_witness:
  "\<exists>proc'. Open (BytesCodec (\<lambda>_. ''unit'') :: unit Codec) (\<lambda>_. 0) ''/d'' [Some (WithDriver (ps_uni memoryProcess) DriverMemory)] memoryProcess
      = (Ok (newDB memoryDriver memoryDriver_Open
           ((defaultConfig (BytesCodec (\<lambda>_. ''unit'')) (\<lambda>_. 0))\<lparr>cfg_driver := DriverMemory, cfg_driverExplicit := True\<rparr>) DriverMemory), proc')"
proof -
  have "initMemory (ps_uni memoryProcess) ([], []) = (Ok (), (ps_drivers memoryProcess, ps_linked memoryProcess))"
    "os_MkdirAll ''/d'' (ps_files memoryProcess) = (Ok (), madeDirectory)"
    by (simp_all add: initMemory_Ok memoryProcess_def madeDirectory_facts)
  from open_memory [OF this(1) memory_name(1) _ this(2) madeDirectory_facts(2-4)] show ?thesis by auto
qed

text \<open>A second driver, and a process that has it.\<close>

definition otherRegistered :: "memoryDriverEngine registeredDriver" where
  "otherRegistered = \<lparr>rd_driver = Some memoryDriver_Driver, rd_info = memoryDriver_Info\<lparr>di_Driver := ''other'', di_Backend := ''other''\<rparr>\<rparr>"

definition demoConfig :: "bytes \<Rightarrow> unit config" where
  "demoConfig driver = (defaultConfig (BytesCodec (\<lambda>_. ''unit'')) (\<lambda>_. 0))\<lparr>cfg_driver := driver, cfg_driverExplicit := True\<rparr>"

lemma memory_selected: "selects (memoryProcess\<lparr>ps_files := fs\<rparr>) (demoConfig DriverMemory) DriverMemory memoryRegistered memoryDriver_Driver"
  by (simp add: selects_def registeredDriverFor_Ok_iff memory_name memoryProcess_def demoConfig_def memoryRegistered_def memoryDriver_Driver_def)

lemma other_name: "normalizeDriverName uni ''other'' = Ok ''other''"
  by (rule normalize_canonical(2)) (simp_all add: nameChar_def)

lemma other_selected:
  "selects (memoryProcess\<lparr>ps_files := fs, ps_drivers := [(''other'', otherRegistered)]\<rparr>) (demoConfig ''other'') ''other'' otherRegistered memoryDriver_Driver"
  by (simp add: selects_def registeredDriverFor_Ok_iff other_name demoConfig_def otherRegistered_def memoryDriver_Driver_def)

theorem directory_stays_with_driver_witness:
  "\<exists>r proc' err. openConfiguredEngine ''/d'' (demoConfig DriverMemory) memoryProcess = (Ok r, proc') \<and>
     openConfiguredEngine ''/d'' (demoConfig ''other'') (proc'\<lparr>ps_drivers := [(''other'', otherRegistered)]\<rparr>)
       = (Err err, proc'\<lparr>ps_drivers := [(''other'', otherRegistered)]\<rparr>) \<and> errors_Is err ErrBackendMismatch"
proof -
  have self: "memoryProcess\<lparr>ps_files := emptyFiles\<rparr> = memoryProcess" by (simp add: memoryProcess_def)
  note sel = memory_selected [of emptyFiles, unfolded self]
  from prepare_fresh [OF madeDirectory_facts memory_bindable] obtain fs2 where
    p: "prepareBackendManifest (ps_host memoryProcess) ''/d'' memoryRegistered False emptyFiles = (Ok False, fs2)" by blast
  let ?proc = "memoryProcess\<lparr>ps_files := fs2\<rparr>" and ?later = "memoryProcess\<lparr>ps_files := fs2, ps_drivers := [(''other'', otherRegistered)]\<rparr>"
  have o: "openConfiguredEngine ''/d'' (demoConfig DriverMemory) memoryProcess = (Ok ((memoryDriver, memoryDriver_Open), DriverMemory), ?proc)"
    unfolding openConfiguredEngine_linked [OF sel]
    using p by (simp add: onFiles_def op_defs memoryDriver_Driver_def demoConfig_def memoryProcess_def)
  have lv: "leavesManifest ''/d'' fs fs'" if "drv_Open memoryDriver_Driver ''/d'' (driverOptions (demoConfig DriverMemory)) fs = (Ok st, fs')" for fs st fs'
    using that by (simp add: memoryDriver_Driver_def ret_def leavesManifest_def)
  have "fs_fault (ps_files memoryProcess) FsRead (manifestPath ''/d'') = None" by (simp add: memoryProcess_def emptyFiles_def)
  from directory_stays_with_driver [OF o sel memory_bindable this lv _ _ other_selected [of fs2]]
  have "\<exists>err. openConfiguredEngine ''/d'' (demoConfig ''other'') ?later = (Err err, ?later) \<and> errors_Is err ErrBackendMismatch"
    by (simp add: sameStore_def memoryRegistered_def otherRegistered_def memoryDriver_Info_def DriverMemory_def)
  then show ?thesis using o by (metis (no_types, lifting) process.update_convs(2) process.update_convs(4) process.surjective)
qed

definition strayFiles :: fileSystem where
  "strayFiles = madeDirectory\<lparr>fs_nodes := [(''/d/x'', File []), (''/d'', Dir), (''/'', Dir)]\<rparr>"

theorem unmarked_directory_witness:
  "\<exists>err. openConfiguredEngine ''/d'' (demoConfig DriverMemory) (memoryProcess\<lparr>ps_files := strayFiles\<rparr>)
      = (Err err, memoryProcess\<lparr>ps_files := strayFiles\<rparr>) \<and> errors_Is err ErrBackendManifestMissing"
proof -
  let ?p = "memoryProcess\<lparr>ps_files := strayFiles\<rparr>"
  have "childName ''/d'' ''/d'' = None" "childName ''/d'' ''/'' = None" "childName ''/d'' ''/d/x'' = Some ''x''" by code_simp+
  then have "os_ReadDir (ps_files ?p) ''/d'' = Ok [(''x'', False)]"
    by (simp add: os_ReadDir_def strayFiles_def madeDirectory_def emptyFiles_def fs_at_def dirEntries_def map_filter_simps)
  moreover have "os_MkdirAll ''/d'' (ps_files ?p) = (Ok (), ps_files ?p)" "fs_fault (ps_files ?p) FsRead (manifestPath ''/d'') = None"
    "fs_at (ps_files ?p) (manifestPath ''/d'') = None"
    by (simp_all add: os_MkdirAll_def strayFiles_def madeDirectory_def emptyFiles_def fs_at_def)
  ultimately show ?thesis using unmarked_directory [OF memory_selected] by (fastforce simp: demoConfig_def)
qed

theorem full_disk_leaves_bad_manifest_witness:
  "\<exists>err proc'. openConfiguredEngine ''/d'' (demoConfig DriverMemory) (memoryProcess\<lparr>ps_files := emptyFiles\<lparr>fs_room := \<lambda>_. Some 0\<rparr>\<rparr>) = (Err err, proc') \<and>
     (\<exists>err. openConfiguredEngine ''/d'' (demoConfig DriverMemory) (memoryProcess\<lparr>ps_files := (ps_files proc')\<lparr>fs_room := \<lambda>_. None\<rparr>\<rparr>)
        = (Err err, memoryProcess\<lparr>ps_files := (ps_files proc')\<lparr>fs_room := \<lambda>_. None\<rparr>\<rparr>) \<and> errors_Is err ErrBackendManifestInvalid)"
proof -
  let ?p = "memoryProcess\<lparr>ps_files := emptyFiles\<lparr>fs_room := \<lambda>_. Some 0\<rparr>\<rparr>" and ?fs = "madeDirectory\<lparr>fs_room := \<lambda>_. Some 0\<rparr>"
  have "os_MkdirAll ''/d'' (ps_files ?p) = (Ok (), ?fs)" "fs_fault ?fs = (\<lambda>_ _. None)" "fs_room ?fs (manifestPath ''/d'') = Some 0"
    "fs_at ?fs (manifestPath ''/d'') = None" "os_ReadDir ?fs ''/d'' = Ok []"
    using madeDirectory_facts(3,4) by (simp_all add: os_MkdirAll_def madeDirectory_def emptyFiles_def fs_at_def os_ReadDir_def dirEntries_def)
  from full_disk_leaves_bad_manifest [OF memory_selected this] show ?thesis
    using memory_selected by (metis (no_types, lifting) process.select_convs(1,2) process.update_convs(2) process.surjective)
qed

text \<open>A native module on disk, beside a directory that belongs to the memory driver.\<close>

definition nativeJson :: json where
  "nativeJson = JObj [(''schema_version'', JNum ''1''), (''name'', JStr ''demodb''), (''kind'', JStr ''engine''),
     (''version'', JStr ''1''), (''module_abi'', JNum ''1''), (''driver'', JStr ''demodb''), (''license'', JStr ''MIT''),
     (''artifacts'', JArr [JObj [(''platform'', JStr ''linux-amd64''), (''kind'', JStr ''native-module''),
        (''path'', JStr ''demo.so''), (''sha256'', JStr (replicate 64 CHR ''0'')), (''symbol'', JStr ''kvlite_module_init_v1'')]])]"

definition nativeArtifact :: ModuleArtifact where
  "nativeArtifact = \<lparr>art_Platform = ''linux-amd64'', art_Kind = ''native-module'', art_Path = ''demo.so'',
     art_SHA256 = replicate 64 CHR ''0'', art_Symbol = ''kvlite_module_init_v1''\<rparr>"

definition nativeModule :: Module where
  "nativeModule = \<lparr>mod_Manifest = zeroManifest\<lparr>mm_SchemaVersion := 1, mm_Name := ''demodb'', mm_Kind := ''engine'', mm_Version := ''1'',
       mm_ModuleABI := 1, mm_Driver := ''demodb'', mm_License := ''MIT'', mm_Artifacts := [nativeArtifact]\<rparr>,
     mod_Directory = ''/m'', mod_ManifestPath = ''/m/kvlite-module.json'', mod_Linked = False\<rparr>"

definition nativeFiles :: fileSystem where
  "nativeFiles = emptyFiles\<lparr>fs_nodes := [(''/'', Dir), (''/m'', Dir), (''/m/kvlite-module.json'', File (encodeJson nativeJson)),
     (''/m/demo.so'', File ''run''), (''/d'', Dir),
     (''/d/KVLITE-MANIFEST.json'', File (encodeJson (backendManifestJson (manifestFor memoryRegistered)) @ [CHR 0x0A]))]\<rparr>"

definition nativeHost :: moduleHost where
  "nativeHost = demoHost\<lparr>mh_env := (\<lambda>name. if name = ''KVLITE_MODULE_PATH'' then ''/m'' else [])\<rparr>"

definition nativeProcess :: "memoryDriverEngine process" where
  "nativeProcess = memoryProcess\<lparr>ps_host := nativeHost, ps_files := nativeFiles,
     ps_loadNative := (\<lambda>_ fs. (Inr [\<lparr>nr_name = ''demodb'', nr_version = ''1'', nr_driver = ''demodb'',
        nr_capabilities = ''embedded-storage'', nr_open = (\<lambda>_. ret (memoryDriver, memoryDriver_Open))\<rparr>], fs))\<rparr>"

lemma native_decode: "decodeDocument manifestFields zeroManifest (encodeJson nativeJson) = Inr (mod_Manifest nativeModule)"
proof -
  have one: "''1'' = FormatInt 1" by code_simp
  have "jsonOk 0 nativeJson" by (auto simp: nativeJson_def maxNestingDepth_def one)
  moreover have "toValidUTF8 (replicate 64 CHR ''0'') = replicate 64 CHR ''0''"
    by (rule toValidUTF8_ASCII) (simp add: list_all_iff)
  then have "jsonNorm nativeJson = nativeJson" by (simp add: nativeJson_def toValidUTF8_ASCII)
  ultimately have "decodeNext (encodeJson nativeJson) = Decoded nativeJson []"
    using decodeNext_encode [of nativeJson "[]"] by simp
  moreover have "decodeNext [] = DecodeEOF" by (simp add: decodeNext_def skipSpace_def)
  moreover have "ParseInt 64 ''1'' = Inr 1" by (simp add: ParseInt_def splitSign_def digitVal_def)
  then have "decodeStruct manifestFields nativeJson zeroManifest = Some (mod_Manifest nativeModule)"
    by (simp add: decodeStruct_def nativeJson_def fieldFor_def manifestFields_def artifactFields_def upperByte_def Let_def
        decodeString_def decodeInt_def decodeSlice_def zeroManifest_def zeroArtifact_def nativeModule_def nativeArtifact_def)
  ultimately show ?thesis by (simp add: decodeDocument_def)
qed

lemma native_discovered: "DiscoverModules nativeHost nativeFiles [] = Ok [nativeModule]"
proof -
  have path: "Clean ''/m'' = ''/m''" "TrimSpace ''/m'' = ''/m''" "filepathJoin [''/m'', ModuleManifestFilename] = ''/m/kvlite-module.json''"
    "Clean ''/m/kvlite-module.json'' = ''/m/kvlite-module.json''" "DefaultModulePaths nativeHost = [''/m'']" by code_simp+
  have valid: "Validate (mh_uni nativeHost) (mod_Manifest nativeModule) = Ok ()" by code_simp
  have "os_ReadFile nativeFiles ''/m/kvlite-module.json'' = Ok (encodeJson nativeJson)"
    by (simp add: os_ReadFile_def fs_at_def nativeFiles_def emptyFiles_def path)
  moreover have "(mod_Manifest nativeModule)\<lparr>mm_Kind := canonicalModuleKind (mm_Kind (mod_Manifest nativeModule))\<rparr> = mod_Manifest nativeModule"
    by code_simp
  ultimately have "readModuleAt nativeHost nativeFiles ''/m'' = Ok (Some nativeModule)"
    using valid native_decode by (simp add: readModuleAt_def path Let_def) (simp add: nativeModule_def)
  moreover have "os_Stat nativeFiles ''/m'' = Ok True" by (simp add: os_Stat_def fs_at_def nativeFiles_def emptyFiles_def path)
  ultimately show ?thesis
    by (simp add: DiscoverModules_def uniqueModulePaths_def path discoverModulesAt_def Let_def)
qed

lemma nativeProcess_simps [simp]:
  "ps_host nativeProcess = nativeHost" "ps_files nativeProcess = nativeFiles" "ps_native nativeProcess = []"
  "ps_drivers nativeProcess = [(DriverMemory, memoryRegistered)]"
  by (simp_all add: nativeProcess_def memoryProcess_def)

lemma demodb_name: "normalizeDriverName uni ''demodb'' = Ok ''demodb''"
  by (rule normalize_canonical(2)) (simp_all add: nameChar_def)

lemma native_for_driver: "resolveModuleForDriver nativeProcess ''demodb'' = Ok nativeModule"
proof -
  have "Provides (mod_Manifest nativeModule) ModuleKindEngine" "mm_Driver (mod_Manifest nativeModule) = ''demodb''" by code_simp+
  then show ?thesis by (simp add: resolveModuleForDriver_def native_discovered Let_def)
qed

lemma native_artifacts:
  "ArtifactForCurrentPlatform nativeHost nativeModule [ModuleArtifactNative] = Ok nativeArtifact"
  "\<exists>e. ArtifactForCurrentPlatform nativeHost nativeModule [ModuleArtifactCShared] = Err e"
  "\<exists>e. ArtifactForCurrentPlatform nativeHost nativeModule [ModuleArtifactCShared, ModuleArtifactExecutable] = Err e"
  "art_Symbol nativeArtifact = initSymbol"
  by (simp_all add: ArtifactForCurrentPlatform_def nativeHost_def demoHost_def nativeModule_def nativeArtifact_def moduleArtifactKindAllowed_def
      ModuleArtifactNative_def ModuleArtifactCShared_def ModuleArtifactExecutable_def initSymbol_def)

lemma native_path: "ArtifactPath (mh_uni nativeHost) nativeModule nativeArtifact = Ok ''/m/demo.so''"
  by code_simp

lemma EqualFold_upper: "EqualFold s (map upperByte s)"
  by (induction s) simp_all

lemma native_verified: "Verify nativeHost nativeFiles nativeModule = Ok ()"
proof -
  have c: "Clean ''/m/demo.so'' = ''/m/demo.so''" "\<not> mod_Linked nativeModule" "mm_Artifacts (mod_Manifest nativeModule) = [nativeArtifact]"
    "art_SHA256 nativeArtifact \<noteq> []" "hexDigit 0 = CHR ''0''"
    by code_simp+
  have "hexEncode (replicate n CHR 0x00) = replicate (2 * n) CHR ''0''" for n
    by (induction n) (simp_all add: hexEncode_def c)
  from this [of 32] have "EqualFold (art_SHA256 nativeArtifact) (map upperByte (hexEncode (replicate 32 CHR 0x00)))"
    using EqualFold_upper [of "art_SHA256 nativeArtifact"] by (simp add: nativeArtifact_def)
  moreover have "mh_sha256 nativeHost = (\<lambda>_. replicate 32 CHR 0x00)" by (simp add: nativeHost_def demoHost_def)
  ultimately show ?thesis
    using c by (simp add: Verify_def verifyArtifact_def native_path os_Open_def file_ReadAll_def file_Close_def fs_at_def
        nativeFiles_def emptyFiles_def Let_def)
qed

lemma native_resolved: "resolveNativeModuleDriver nativeProcess ''demodb'' = Ok nativeModule"
  by (simp add: resolveNativeModuleDriver_def native_for_driver native_artifacts native_verified mapErr_def Let_def)

theorem loaded_modules_verified_witness:
  "resolveNativeModuleDriver nativeProcess ''demodb'' = Ok nativeModule \<and> list_all (verified nativeHost nativeFiles nativeModule) [nativeArtifact]"
proof -
  have "\<not> mod_Linked nativeModule" "mm_Artifacts (mod_Manifest nativeModule) = [nativeArtifact]" by (simp_all add: nativeModule_def)
  then show ?thesis using loaded_modules_verified [of nativeProcess "''demodb''" nativeModule] native_resolved by simp
qed

lemma native_opened:
  "\<exists>proc'. openNativeModuleDriver ''/d'' nativeModule options nativeProcess = (Ok (memoryDriver, memoryDriver_Open), proc') \<and> ps_files proc' = nativeFiles"
proof -
  have m: "mod_Directory nativeModule = ''/m''" "mm_Driver (mod_Manifest nativeModule) = ''demodb''" "mm_Capabilities (mod_Manifest nativeModule) = []"
    by (simp_all add: nativeModule_def zeroManifest_def)
  have reads: "readNativeRegistrations (mh_uni nativeHost) [\<lparr>nr_name = ''demodb'', nr_version = ''1'', nr_driver = ''demodb'',
        nr_capabilities = ''embedded-storage'', nr_open = op\<rparr>]
      = [\<lparr>nmr_name = ''demodb'', nmr_version = ''1'', nmr_driver = ''demodb'', nmr_capabilities = [''embedded-storage''], nmr_ops = op\<rparr>]"
    for op :: "bytes \<Rightarrow> (fileSystem, memoryDriverEngine Engine \<times> memoryDriverEngine) op"
  proof -
    have "list_all nameChar ''demodb''" "list_all nameChar ''1''" "list_all nameChar ''embedded-storage''" by code_simp+
    moreover have "splitOn CHR '','' ''embedded-storage'' = [''embedded-storage'']" by code_simp
    ultimately show ?thesis
      by (simp add: readNativeRegistrations_def readNativeRegistration_def demodb_name TrimSpace_name ToLower_name map_filter_simps Let_def)
  qed
  have "\<exists>lib. loadNativeModuleLibrary nativeModule ''demodb'' nativeProcess = (Ok lib, nativeProcess) \<and>
      nmr_ops lib = (\<lambda>_. ret (memoryDriver, memoryDriver_Open))"
  proof -
    have "ps_loadNative nativeProcess p fs = (Inr [\<lparr>nr_name = ''demodb'', nr_version = ''1'', nr_driver = ''demodb'',
        nr_capabilities = ''embedded-storage'', nr_open = (\<lambda>_. ret (memoryDriver, memoryDriver_Open))\<rparr>], fs)" for p fs
      by (simp add: nativeProcess_def)
    moreover have "nativeProcess\<lparr>ps_files := nativeFiles\<rparr> = nativeProcess" by (simp add: nativeProcess_def)
    ultimately show ?thesis
      by (simp add: loadNativeModuleLibrary_def op_defs wrapRes_def native_artifacts native_path reads validateNativeCapabilities_def m Let_def)
  qed
  then obtain lib where lib: "loadNativeModuleLibrary nativeModule ''demodb'' nativeProcess = (Ok lib, nativeProcess)"
    "nmr_ops lib = (\<lambda>_. ret (memoryDriver, memoryDriver_Open))" by blast
  have i: "TrimSpace (moduleName nativeModule) \<noteq> []" "TrimSpace (manifestVersionOf nativeModule) \<noteq> []" "''demodb'' \<noteq> DriverMemory" by code_simp+
  then have "\<exists>drivers. RegisterDriver (mh_uni nativeHost) (Some (nativeModuleDriver (moduleDriverInfo ''demodb'' nativeModule) lib))
      [(DriverMemory, memoryRegistered)] = (Ok (), drivers)"
    by (simp add: RegisterDriver_def nativeModuleDriver_def moduleDriverInfo_def demodb_name Let_def)
  then show ?thesis
    using lib by (auto simp: openNativeModuleDriver_def m demodb_name op_defs onDrivers_def onFiles_def nativeModuleDriver_def Let_def)
qed

theorem native_open_ignores_manifest_witness:
  "\<exists>proc' err. openConfiguredEngine ''/d'' (demoConfig ''demodb'') nativeProcess = (Ok ((memoryDriver, memoryDriver_Open), ''demodb''), proc') \<and>
     bound nativeHost ''/d'' memoryRegistered (ps_files proc') \<and>
     openConfiguredEngine ''/d'' (demoConfig ''demodb'') proc' = (Err err, proc') \<and> errors_Is err ErrBackendMismatch"
proof -
  let ?cfg = "demoConfig ''demodb''"
  have cfg: "cfg_driver ?cfg = ''demodb''" by (simp add: demoConfig_def)
  from native_artifacts(2,3) obtain e e' where a: "ArtifactForCurrentPlatform nativeHost nativeModule [ModuleArtifactCShared] = Err e"
    "ArtifactForCurrentPlatform nativeHost nativeModule [ModuleArtifactCShared, ModuleArtifactExecutable] = Err e'" by blast
  have "''demodb'' \<noteq> DriverMemory" by code_simp
  then have l: "resolveLinkedDriverOrReportModule nativeProcess (cfg_driver ?cfg) = Err (notLoadedAdapter (mh_uni nativeHost) ''demodb'' e')"
    "resolveModuleDriver nativeProcess (cfg_driver ?cfg) = Err (notLoadedAdapter (mh_uni nativeHost) ''demodb'' e)"
    using a by (simp_all add: cfg resolveLinkedDriverOrReportModule_def registeredDriverFor_def demodb_name native_for_driver
        resolveModuleDriver_def mapErr_def sentinel_chain_def Let_def)
  have nl: "errors_Is (notLoadedAdapter (mh_uni nativeHost) ''demodb'' e') ErrDriverNotLoaded" by (simp add: notLoadedAdapter_def sentinel_chain_def)
  from native_opened obtain proc' where o: "openNativeModuleDriver ''/d'' nativeModule (driverOptions ?cfg) nativeProcess
      = (Ok (memoryDriver, memoryDriver_Open), proc')" "ps_files proc' = nativeFiles" by blast
  have "readBackendManifest nativeHost nativeFiles ''/d'' = Ok (Some (manifestFor memoryRegistered))"
    using decodeDocument_manifest [OF memory_bindable]
    by (simp add: readBackendManifest_def os_ReadFile_def nativeFiles_def emptyFiles_def fs_at_def)
  moreover have "validateBackendManifest (mh_uni nativeHost) (manifestFor memoryRegistered) memoryRegistered = Ok ()"
    by (simp add: validate_manifestFor [OF memory_bindable] sameStore_def)
  moreover have "os_MkdirAll ''/d'' nativeFiles = (Ok (), nativeFiles)"
    by (simp add: os_MkdirAll_def nativeFiles_def emptyFiles_def)
  ultimately have b: "bound nativeHost ''/d'' memoryRegistered (ps_files proc')" using o(2) by (simp add: bound_def)
  have n: "resolveNativeModuleDriver nativeProcess (cfg_driver ?cfg) = Ok nativeModule" "map_of (ps_native nativeProcess) (mod_Directory nativeModule) = None"
    "normalizeDriverName (ps_uni nativeProcess) (cfg_driver ?cfg) = Ok (cfg_driver ?cfg)"
    by (simp_all add: cfg native_resolved demodb_name)
  have d: "di_Backend (rd_info memoryRegistered) \<noteq> cfg_driver ?cfg"
    using \<open>''demodb'' \<noteq> DriverMemory\<close> by (simp add: cfg memoryRegistered_def memoryDriver_Info_def)
  have "bound (ps_host nativeProcess) ''/d'' memoryRegistered (ps_files proc')" using b by simp
  from native_open_ignores_manifest [OF l(1) nl l(2) n o(1) this d] show ?thesis using b cfg by auto
qed

end
