(* ===== verification/Base64.thy ===== *)
theory Base64
  imports Prelude
begin

text \<open>
  The unpadded encodings \<open>base64.RawURLEncoding\<close> and \<open>base64.RawStdEncoding\<close> of \<open>encoding/base64\<close>, with
  which the HTTP extension puts binary keys and records into URLs and JSON. As in Go, decoding skips
  line ends and ignores surplus low bits of the last character.
\<close>

section \<open>Definitions\<close>

definition b64Char :: "bool \<Rightarrow> nat \<Rightarrow> byte" where
  "b64Char url n =
     (if n < 26 then char_of (65 + n)
      else if n < 52 then char_of (71 + n)
      else if n < 62 then char_of (n - 4)
      else if n = 62 then (if url then CHR ''-'' else CHR ''+'')
      else (if url then CHR ''_'' else CHR ''/''))"

definition b64Val :: "bool \<Rightarrow> byte \<Rightarrow> nat option" where
  "b64Val url c = (let n = of_char c :: nat in
      if 65 \<le> n \<and> n \<le> 90 then Some (n - 65)
      else if 97 \<le> n \<and> n \<le> 122 then Some (n - 71)
      else if 48 \<le> n \<and> n \<le> 57 then Some (n + 4)
      else if c = (if url then CHR ''-'' else CHR ''+'') then Some 62
      else if c = (if url then CHR ''_'' else CHR ''/'') then Some 63
      else None)"

fun sixBits :: "nat list \<Rightarrow> nat list" where
  "sixBits [] = []"
| "sixBits [a] = [a div 4, a mod 4 * 16]"
| "sixBits [a, b] = [a div 4, a mod 4 * 16 + b div 16, b mod 16 * 4]"
| "sixBits (a # b # c # r) =
     [a div 4, a mod 4 * 16 + b div 16, b mod 16 * 4 + c div 64, c mod 64] @ sixBits r"

fun eightBits :: "nat list \<Rightarrow> nat list option" where
  "eightBits [] = Some []"
| "eightBits [a] = None"
| "eightBits [a, b] = Some [a * 4 + b div 16]"
| "eightBits [a, b, c] = Some [a * 4 + b div 16, b mod 16 * 16 + c div 4]"
| "eightBits (a # b # c # d # r) =
     map_option ((@) [a * 4 + b div 16, b mod 16 * 16 + c div 4, c mod 4 * 64 + d]) (eightBits r)"

definition b64Encode :: "bool \<Rightarrow> bytes \<Rightarrow> bytes" where
  "b64Encode url s = map (b64Char url) (sixBits (map of_char s))"

definition b64Decode :: "bool \<Rightarrow> bytes \<Rightarrow> bytes option" where
  "b64Decode url s =
     (let vs = map (b64Val url) (filter (\<lambda>c. c \<noteq> CHR 0x0A \<and> c \<noteq> CHR 0x0D) s) in
      if None \<in> set vs then None
      else map_option (map char_of) (eightBits (map the vs)))"

abbreviation "RawURLEncode \<equiv> b64Encode True"
abbreviation "RawURLDecode \<equiv> b64Decode True"
abbreviation "RawStdEncode \<equiv> b64Encode False"
abbreviation "RawStdDecode \<equiv> b64Decode False"

section \<open>Round trip\<close>

lemma sixBits_bound: "list_all (\<lambda>n. n < 256) ns \<Longrightarrow> list_all (\<lambda>n. n < 64) (sixBits ns)"
  by (induction ns rule: sixBits.induct) auto

lemma eightBits_sixBits: "list_all (\<lambda>n. n < 256) ns \<Longrightarrow> eightBits (sixBits ns) = Some ns"
proof (induction ns rule: sixBits.induct)
  case (4 a b c r)
  then have "b div 16 < 16" "c div 64 < 4" by auto
  then have "(a mod 4 * 16 + b div 16) div 16 = a mod 4" "(a mod 4 * 16 + b div 16) mod 16 = b div 16"
    "(b mod 16 * 4 + c div 64) div 4 = b mod 16" "(b mod 16 * 4 + c div 64) mod 4 = c div 64"
    by simp_all
  then show ?case using 4 by simp
next
  case (3 a b)
  then have "b div 16 < 16" by auto
  then have "(a mod 4 * 16 + b div 16) div 16 = a mod 4" "(a mod 4 * 16 + b div 16) mod 16 = b div 16" by simp_all
  then show ?case by simp
qed simp_all

lemma b64Val_b64Char: "n < 64 \<Longrightarrow> b64Val url (b64Char url n) = Some n"
  by (auto simp: b64Char_def b64Val_def Let_def)

lemma b64Char_no_line_end: "n < 64 \<Longrightarrow> b64Char url n \<noteq> CHR 0x0A \<and> b64Char url n \<noteq> CHR 0x0D"
  using b64Val_b64Char [of n url] by (cases url) (auto simp: b64Val_def)

lemma bytes_bound: "list_all (\<lambda>n. n < 256) (map of_char s :: nat list)"
  by (simp add: list_all_iff)

lemma b64_roundtrip [simp]: "b64Decode url (b64Encode url s) = Some s"
proof -
  let ?six = "sixBits (map of_char s)"
  have six: "list_all (\<lambda>n. n < 64) ?six" by (rule sixBits_bound [OF bytes_bound])
  then have flt: "filter (\<lambda>c. c \<noteq> CHR 0x0A \<and> c \<noteq> CHR 0x0D) (b64Encode url s) = b64Encode url s"
    by (auto simp: b64Encode_def filter_id_conv list_all_iff b64Char_no_line_end)
  have vals: "map (b64Val url) (b64Encode url s) = map Some ?six"
    using six by (simp add: b64Encode_def list_all_iff b64Val_b64Char)
  then show ?thesis
    using eightBits_sixBits [OF bytes_bound, of s] unfolding b64Decode_def flt vals
    by (auto simp: Let_def comp_def)
qed

end
