(* ===== verification/Spec2Isabelle.thy ===== *)
theory Spec2Isabelle
  imports HandleProps CollectionProps RESPProps RedisScan OpenProps Base64
begin

text \<open>
  KVLite is an embedded key/value store written in Go with exchangeable storage drivers, a server
  that speaks the Redis protocol and a catalog of optional modules. This development models the
  store, its collections, the opening of a database, the Redis extension and the module catalog, and
  proves what makes them correct.

  \<^bold>\<open>The program and its model.\<close> Bytes are characters and Go strings and byte slices are lists of
  them. A Go function that can fail returns \<open>'a res\<close> (\<open>Ok\<close>, \<open>Err\<close> with an error value and its
  \<open>errors.Is\<close> chain, or \<open>Panic\<close>); a method of an object is a state-passing operation
  \<open>('s, 'a) op\<close>. \<open>int64\<close> values are integers with the wrap-around written out (\<open>wrap64\<close>). The
  clock is a function from the number of readings to times, so that nothing is assumed about how
  it advances; \<open>atTime t\<close> is a handle whose clock stands still.

  \<^item> \<open>Prelude\<close>: errors, results, the combinators of operations, words and byte order, time.
  \<^item> \<open>Keys\<close> (\<open>keys.go\<close>), \<open>Envelope\<close> (\<open>envelope.go\<close>), \<open>ListFormat\<close> (\<open>collections.go\<close>): the storage
    keys, the record format with its expiry and the list record.
  \<^item> \<open>Engine\<close> (\<open>engine.go\<close>): the interface of a storage driver as a record of functions, the guard
    around it, and the locales \<open>engine_contract\<close> and \<open>local_engine\<close> with the laws of a driver.
    \<open>MemDriver\<close> (\<open>memdriver.go\<close>) is the built-in driver and interprets them.
  \<^item> \<open>Options\<close> (\<open>options.go\<close>, \<open>codec.go\<close>), \<open>DB\<close> (\<open>db.go\<close>, \<open>logical_key.go\<close>), \<open>Collections\<close>
    (\<open>collections.go\<close>), \<open>Transport\<close> (\<open>transport.go\<close>): the handle, its methods and the store it
    offers to extensions.
  \<^item> \<open>GoStrings\<close>, \<open>GoPath\<close>, \<open>PathMatch\<close>, \<open>Json\<close>, \<open>Base64\<close>, \<open>FileSystem\<close>: what the sources use of
    \<open>strconv\<close>, \<open>strings\<close>, \<open>path\<close>, \<open>encoding/json\<close>, \<open>encoding/base64\<close> and \<open>os\<close>.
  \<^item> \<open>RESP\<close> (\<open>resp.go\<close>), \<open>RedisStorage\<close> (\<open>redis_storage.go\<close>), \<open>RedisStrings\<close>,
    \<open>RedisCollections\<close>, \<open>RedisKeyspace\<close> (\<open>redis_commands.go\<close>), \<open>RedisServer\<close>
    (\<open>redis_server.go\<close>): the wire format, the commands, sessions, dispatch and the loop that serves
    a connection.
  \<^item> \<open>Modules\<close> (\<open>module.go\<close>): manifests and their validation, the registry of linked modules, the
    discovery of installed ones on a file system, and the selection and verification of artifacts.
  \<^item> \<open>Backend\<close> (\<open>backend.go\<close>, \<open>backend_manifest.go\<close>, \<open>Open\<close> and \<open>OpenWithEngine\<close> of \<open>db.go\<close>, the Go
    side of \<open>native_module_loader.go\<close> and \<open>driver_module_loader.go\<close>): the registry of drivers, the
    manifest that binds a directory to a driver, and the opening of a database. The state of these
    operations is a \<open>process\<close>: its files, its registries and the native modules it has loaded.

  \<^bold>\<open>What is proved.\<close>
  \<^item> \<open>DBLaws\<close> computes every method of the handle under the engine contract; \<open>DBProps\<close> and
    \<open>CollectionProps\<close> state the properties of the API on the memory driver. \<open>HandleProps\<close>: a closed
    handle rejects every method, and what a failing \<open>Put\<close> leaves behind, also on a driver whose
    writes fail.
  \<^item> \<open>RESPProps\<close>: the parser ends on every input and inverts the writer.
  \<^item> \<open>OpLogic\<close> is a program logic for operations, \<open>RedisLaws\<close> its instance for the storage layer,
    \<open>Coherence\<close> the invariant that a key has one representation, \<open>RedisInvariant\<close> that every
    command keeps it and does not panic (an overflowing \<open>SCAN\<close> apart), \<open>RedisReplies\<close> that every
    reply can be written, \<open>RedisConn\<close> the resulting properties of connections.
  \<^item> \<open>Keyspace\<close> is an abstract Redis key space, a map from keys to typed objects with deadlines, with
    one function per command. \<open>KeyspaceRep\<close> relates it to the records of the store; \<open>KeyspaceColl\<close>,
    \<open>KeyspaceStrings\<close>, \<open>KeyspaceKeys\<close>, \<open>KeyspaceObjects\<close> and \<open>KeyspaceLists\<close> show that each command
    implements its abstract function, and \<open>RedisSpec\<close> that the dispatcher does for any sequence of
    requests. \<open>RedisScan\<close> treats \<open>KEYS\<close> and the paging of \<open>SCAN\<close>.
  \<^item> \<open>JsonProps\<close>: the JSON scanner inverts the encoder. \<open>ModuleProps\<close>: names are canonical, artifacts
    stay inside their module, and the catalog lists validated modules only. \<open>BackendProps\<close>: a
    manifest is read as it was written and binds its directory. \<open>OpenProps\<close>: what opening a database
    accepts and refuses, the registry and the default driver, that loaded modules are verified, and
    two flaws: a native module ignores the manifest, and a full disk leaves an invalid one.

  \<^bold>\<open>Bounds and fuel.\<close> \<open>readRequest\<close> and \<open>serveRedisConnection\<close> carry as fuel one more than the
  length of the input; the properties of \<open>RESPProps\<close> and \<open>RedisConn\<close> show that it never runs out.
  \<open>lenOk\<close> says that a key is shorter than \<open>2 ^ 32\<close> bytes, what its length field can hold; the
  limits of the protocol parser keep every argument below that. The refinement of the commands
  assumes that the clock stands still during one command, that arguments satisfy \<open>lenOk\<close>, and that a
  list keeps fewer than \<open>2 ^ 32\<close> items (\<open>roomFor\<close>). The JSON scanner has the length of the text as
  fuel, which \<open>JsonProps\<close> shows to be enough for every encoded value.

  \<^bold>\<open>Parameters.\<close> The JSON codec for arbitrary Go values, Unicode tables, the iteration order of Go
  maps (\<open>mapOrderOk\<close> says that it is a permutation), SHA-256, the environment, and failures of the
  operating system are arguments of the definitions, and so is the dynamic linker with the code it
  loads. That a driver leaves the manifest alone (\<open>leavesManifest\<close>) is a hypothesis where needed.

  \<^bold>\<open>Not modelled.\<close> Mutexes have no counterpart: an operation of the model runs alone. A context
  is live or done throughout a call; it is not cancelled in the middle of one. The depth of the Go
  stack on deeply nested RESP arrays is not limited. Sockets and
  goroutines, foreign code behind cgo, the HTTP extension, the C interface, the command line and the
  drivers over third-party databases are not modelled.
\<close>

end
